theory Spec2Isabelle
  imports Complex_Main "HOL-Library.Multiset"
begin

section \<open>Data model (types.ts)\<close>

text \<open>
  A shallow embedding of the seating engine of classSitTable: \<^verbatim>\<open>src/lib/classroom.ts\<close>
  (geometry, seat order, centred placement, layout reconciliation, rotation, the
  classroom operations), the types of \<^verbatim>\<open>types.ts\<close> (\<^verbatim>\<open>src/unnamed/part_000\<close>) and
  the storage module \<^verbatim>\<open>lib/storage.ts\<close> (\<^verbatim>\<open>src/unnamed/part_001\<close>, from line 1118:
  normalisation of persisted and imported state).

  Conventions of the embedding.
  \<^item> A TypeScript \<^verbatim>\<open>number\<close> is an \<^typ>\<open>int\<close>, standing for the double of that value:
    the engine only counts, compares and adds one. Sizes, indices and column counts stay
    far below \<open>2\<^sup>5\<^sup>3\<close>, where the arithmetic of doubles is exact. The rotation count is
    the one number that is added to without a bound, and a saved document can hold any
    number there, so \<^verbatim>\<open>rotationCount + 1\<close> is the rounded sum \<open>js_increment\<close> (section
    ``Numbers''). Numbers with a fractional part and the infinities, which only a
    hand-written document can hold, are outside the model.
  \<^item> A seat \<^verbatim>\<open>string | null\<close> is a \<^typ>\<open>string option\<close>; \<^verbatim>\<open>null\<close> is \<^term>\<open>None\<close>.
  \<^item> The clock \<^verbatim>\<open>now()\<close>, the id generator \<^verbatim>\<open>createId()\<close> and \<^verbatim>\<open>Math.random()\<close> are
    effects of the platform; the operations that call them take their results as
    arguments. In the examples the time stamps are written \<open>t0\<close>, \<open>t1\<close>, ... or as
    ISO dates.
  \<^item> A string is the UTF-8 encoding of the (well-formed) JavaScript string; the two
    Chinese labels of the source are their UTF-8 bytes, and white space is recognised
    on the encoded characters (section ``Classroom operations'').
\<close>

datatype LayoutMode = THREE_ROWS | GROUPS | ARC

datatype TimeMode = Weekday | Weekend

record Student =
  student_id :: string
  student_name :: string

record TimeModeConfig =
  layoutMode :: LayoutMode
  rows :: int
  cols :: int
  seats :: "string option list"
  rotationCount :: int
  weekLabel :: string
  classTime :: string

record Classroom =
  classroom_id :: string
  classroom_name :: string
  students :: "Student list"
  campus :: string
  building :: string
  room :: string
  sideNotes :: string
  updatedAt :: string
  weekday :: TimeModeConfig
  weekend :: TimeModeConfig

record AppState =
  version :: int
  classrooms :: "Classroom list"
  activeClassroomId :: "string option"
  activeTimeMode :: TimeMode

record LayoutMetrics =
  mode :: LayoutMode
  metric_rows :: int
  metric_cols :: int
  groupCount :: int
  capacity :: int

text \<open>\<^verbatim>\<open>classroom[timeMode]\<close> and \<^verbatim>\<open>{ ...classroom, [timeMode]: config }\<close>.\<close>

fun config_of :: "Classroom \<Rightarrow> TimeMode \<Rightarrow> TimeModeConfig" where
  "config_of c Weekday = weekday c"
| "config_of c Weekend = weekend c"

fun set_config :: "Classroom \<Rightarrow> TimeMode \<Rightarrow> TimeModeConfig \<Rightarrow> Classroom" where
  "set_config c Weekday cfg = c\<lparr>weekday := cfg\<rparr>"
| "set_config c Weekend cfg = c\<lparr>weekend := cfg\<rparr>"

section \<open>Constants (classroom.ts, lines 3-16)\<close>

definition MIN_SIZE :: int where [simp]: "MIN_SIZE = 1"
definition MAX_SIZE :: int where [simp]: "MAX_SIZE = 14"
definition MIN_GROUPS :: int where [simp]: "MIN_GROUPS = 3"
definition MAX_GROUPS :: int where [simp]: "MAX_GROUPS = 6"
definition GROUP_CAPACITY :: int where [simp]: "GROUP_CAPACITY = 6"
definition GROUP_ROWS :: int where [simp]: "GROUP_ROWS = 3"
definition GROUP_ROW_SIZE :: int where [simp]: "GROUP_ROW_SIZE = 2"
definition THREE_ROWS_count :: int where [simp]: "THREE_ROWS_count = 3"
definition DEFAULT_THREE_ROW_COLS :: int where [simp]: "DEFAULT_THREE_ROW_COLS = 6"
definition MAX_THREE_ROW_COLS :: int where [simp]: "MAX_THREE_ROW_COLS = 12"
definition ARC_ROWS :: int where [simp]: "ARC_ROWS = 2"
definition ARC_COLS :: int where [simp]: "ARC_COLS = 18"
definition MAX_STUDENTS :: int where [simp]: "MAX_STUDENTS = 36"

section \<open>Geometry calculator\<close>

text \<open>\<^verbatim>\<open>Math.ceil(a / b)\<close> on integers, for a positive divisor.\<close>

definition ceil_div :: "int \<Rightarrow> int \<Rightarrow> int" where
  "ceil_div a b = - ((- a) div b)"

definition getGroupCountBySize :: "int \<Rightarrow> int" where
  "getGroupCountBySize studentCount =
     (if studentCount \<le> 0 then MIN_GROUPS
      else max MIN_GROUPS (min MAX_GROUPS (ceil_div studentCount GROUP_CAPACITY)))"

definition getActiveGroupIndices :: "int \<Rightarrow> nat list" where
  "getActiveGroupIndices gc = (if gc = 4 then [0, 1, 2, 4] else [0..<nat gc])"

definition getLayoutMetrics :: "LayoutMode \<Rightarrow> int \<Rightarrow> LayoutMetrics" where
  "getLayoutMetrics lm studentCount =
     (if lm = GROUPS then
        (let gc = getGroupCountBySize studentCount in
         \<lparr>mode = lm, metric_rows = gc * GROUP_ROWS, metric_cols = GROUP_ROW_SIZE,
          groupCount = gc, capacity = MAX_GROUPS * GROUP_CAPACITY\<rparr>)
      else if lm = ARC then
        \<lparr>mode = lm, metric_rows = ARC_ROWS, metric_cols = ARC_COLS,
         groupCount = 0, capacity = ARC_ROWS * ARC_COLS\<rparr>
      else
        (let basis = (if studentCount > 0 then studentCount
                      else DEFAULT_THREE_ROW_COLS * THREE_ROWS_count);
             cs = max MIN_SIZE (min MAX_THREE_ROW_COLS (ceil_div basis THREE_ROWS_count))
         in \<lparr>mode = lm, metric_rows = THREE_ROWS_count, metric_cols = cs,
             groupCount = 0, capacity = THREE_ROWS_count * cs\<rparr>))"

section \<open>Numbers\<close>

text \<open>
  \<^verbatim>\<open>Number.isSafeInteger\<close>: the integers of absolute value at most \<open>2\<^sup>5\<^sup>3 - 1\<close>.
\<close>

definition MAX_SAFE_INTEGER :: int where
  "MAX_SAFE_INTEGER = 2 ^ 53 - 1"

definition isSafeInteger :: "int \<Rightarrow> bool" where
  "isSafeInteger n = (\<bar>n\<bar> \<le> MAX_SAFE_INTEGER)"

text \<open>
  The sum of two doubles is the exact sum rounded to the nearest double, ties to the one
  with an even significand (IEEE 754 binary64; a significand has 53 bits).
  \<open>significand_shift a\<close> is the number of low bits of \<open>a \<ge> 0\<close> that do not fit into the
  significand, \<open>round_to_double x\<close> the double nearest to the integer \<open>x\<close>
  (for \<open>\<bar>x\<bar> < 2\<^sup>1\<^sup>0\<^sup>2\<^sup>4\<close>, as the sum of an integer-valued double and one is), and
  \<open>js_increment n\<close> the value of \<^verbatim>\<open>n + 1\<close> for an integer-valued double \<open>n\<close>.
\<close>

function significand_shift :: "int \<Rightarrow> nat" where
  "significand_shift a = (if a < 2 ^ 53 then 0 else Suc (significand_shift (a div 2)))"
  by pat_completeness auto
termination
  by (relation "measure nat") auto

declare significand_shift.simps [simp del]

definition round_to_double :: "int \<Rightarrow> int" where
  "round_to_double x =
     (let a = \<bar>x\<bar>;
          e = significand_shift a;
          q = a div 2 ^ e;
          r = a mod 2 ^ e;
          rounded = (if 2 ^ e < 2 * r \<or> (2 * r = 2 ^ e \<and> odd q) then q + 1 else q)
      in sgn x * (rounded * 2 ^ e))"

definition js_increment :: "int \<Rightarrow> int" where
  "js_increment n = round_to_double (n + 1)"

section \<open>JavaScript primitives used by the engine\<close>

text \<open>
  Truthiness of a seat, as in \<^verbatim>\<open>if (studentId && ...)\<close>, \<^verbatim>\<open>seat ? a : b\<close> and
  \<^verbatim>\<open>Boolean(seat)\<close>: \<^verbatim>\<open>null\<close> and the empty string are falsy.
\<close>

definition truthy :: "string option \<Rightarrow> bool" where
  "truthy seat = (case seat of None \<Rightarrow> False | Some v \<Rightarrow> v \<noteq> [])"

text \<open>
  The assignment \<^verbatim>\<open>seats[i] = v\<close>. Inside the array it replaces the entry. At or past
  the end JavaScript lengthens the array and leaves holes, which are written as
  \<^term>\<open>None\<close> here; a negative index adds a property and leaves the entries alone.
  Every write of the engine is inside the array (lemmas \<open>withLayout_length\<close>,
  \<open>placeCentered_length\<close>).
\<close>

definition array_set :: "'a option list \<Rightarrow> int \<Rightarrow> 'a option \<Rightarrow> 'a option list" where
  "array_set xs i v =
     (if i < 0 then xs
      else if nat i < length xs then xs[nat i := v]
      else xs @ replicate (nat i - length xs) None @ [v])"

text \<open>\<^verbatim>\<open>xs.slice(0, e)\<close>: a negative end counts from the end of the array.\<close>

definition slice_to :: "'a list \<Rightarrow> int \<Rightarrow> 'a list" where
  "slice_to xs e = (if e < 0 then take (length xs - nat (- e)) xs else take (nat e) xs)"

text \<open>\<^verbatim>\<open>[...xs.slice(1), xs[0]]\<close>, used where \<open>xs\<close> has at least two entries.\<close>

definition first_to_last :: "'a list \<Rightarrow> 'a list" where
  "first_to_last xs = drop 1 xs @ [xs ! 0]"

text \<open>
  The refill loop of the rotations:
  \<^verbatim>\<open>for (i = 0; i < n; i++) out[i] = i < rotated.length ? rotated[i] : null\<close>.
\<close>

definition refill :: "'a option list \<Rightarrow> nat \<Rightarrow> 'a option list" where
  "refill rotated n = map (\<lambda>i. if i < length rotated then rotated ! i else None) [0..<n]"

section \<open>Seat-order utilities\<close>

definition createEmptySeats :: "int \<Rightarrow> string option list" where
  "createEmptySeats cap = replicate (nat (max 0 cap)) None"

text \<open>
  \<open>getOrderedStudentIds\<close>: the two loops push onto \<open>ordered\<close>; the set \<open>seen\<close> of the
  source always holds exactly the entries of \<open>ordered\<close>, so membership in \<open>seen\<close> is
  membership in \<open>ordered\<close>.
\<close>

definition seat_step :: "string list \<Rightarrow> string list \<Rightarrow> string option \<Rightarrow> string list" where
  "seat_step validIds ordered seat =
     (case seat of
        None \<Rightarrow> ordered
      | Some studentId \<Rightarrow>
          if studentId \<noteq> [] \<and> studentId \<in> set validIds \<and> studentId \<notin> set ordered
          then ordered @ [studentId] else ordered)"

definition student_step :: "string list \<Rightarrow> Student \<Rightarrow> string list" where
  "student_step ordered student =
     (if student_id student \<notin> set ordered then ordered @ [student_id student] else ordered)"

definition getOrderedStudentIds :: "Student list \<Rightarrow> string option list \<Rightarrow> string list" where
  "getOrderedStudentIds studs sts =
     foldl student_step (foldl (seat_step (map student_id studs)) [] sts) studs"

definition buildSeatsFromOrder :: "string list \<Rightarrow> int \<Rightarrow> string option list" where
  "buildSeatsFromOrder studentIds cap =
     (let sl = slice_to studentIds cap in
      foldl (\<lambda>sts index. array_set sts (int index) (Some (sl ! index)))
        (createEmptySeats cap) [0..<length sl])"

section \<open>Centred placement\<close>

text \<open>
  The \<^verbatim>\<open>while\<close> loop of \<open>placeCentered\<close> with its four variables; the function returns
  the array the source mutates. A pass of the loop that places nothing only flips
  \<open>useLeft\<close>, and the next pass then places.
\<close>

function placeCentered_loop ::
  "string option list \<Rightarrow> string list \<Rightarrow> int \<Rightarrow> int \<Rightarrow> int \<Rightarrow> int \<Rightarrow> bool \<Rightarrow> nat
     \<Rightarrow> string option list" where
  "placeCentered_loop sts studentIds startIndex rowWidth centerLeft centerRight useLeft idx =
     (if idx < length studentIds \<and> (centerLeft \<ge> 0 \<or> centerRight < rowWidth) then
        (if useLeft \<and> centerLeft \<ge> 0 then
           placeCentered_loop
             (array_set sts (startIndex + centerLeft) (Some (studentIds ! idx)))
             studentIds startIndex rowWidth (centerLeft - 1) centerRight (\<not> useLeft) (idx + 1)
         else if \<not> useLeft \<and> centerRight < rowWidth then
           placeCentered_loop
             (array_set sts (startIndex + centerRight) (Some (studentIds ! idx)))
             studentIds startIndex rowWidth centerLeft (centerRight + 1) (\<not> useLeft) (idx + 1)
         else
           placeCentered_loop sts studentIds startIndex rowWidth centerLeft centerRight
             (\<not> useLeft) idx)
      else sts)"
  by pat_completeness auto
termination
  by (relation "measure (\<lambda>(sts, studentIds, startIndex, rowWidth, centerLeft, centerRight, useLeft, idx).
        2 * (length studentIds - idx)
        + (if (useLeft \<and> centerLeft < 0) \<or> (\<not> useLeft \<and> rowWidth \<le> centerRight) then 1 else 0))")
     auto

declare placeCentered_loop.simps [simp del]

definition placeCentered ::
  "string option list \<Rightarrow> string list \<Rightarrow> int \<Rightarrow> int \<Rightarrow> string option list" where
  "placeCentered sts studentIds startIndex rowWidth =
     (let centerLeft = (rowWidth - 1) div 2;
          centerRight = centerLeft + 1
      in placeCentered_loop sts studentIds startIndex rowWidth centerLeft centerRight True 0)"

text \<open>
  The placement order in the words of the specification: the \<open>k\<close>-th id goes to the left
  pointer when \<open>k\<close> is even and to the right pointer when \<open>k\<close> is odd, each pointer
  having moved outward once per earlier placement on its side. \<open>place_at\<close> is the single
  write of the \<open>k\<close>-th id.
\<close>

definition centerColumn :: "int \<Rightarrow> nat \<Rightarrow> int" where
  "centerColumn rowWidth k =
     (let centerLeft = (rowWidth - 1) div 2;
          centerRight = centerLeft + 1
      in if even k then centerLeft - int (k div 2) else centerRight + int (k div 2))"

definition place_at :: "string list \<Rightarrow> int \<Rightarrow> int \<Rightarrow> string option list \<Rightarrow> nat \<Rightarrow> string option list" where
  "place_at studentIds startIndex rowWidth sts k =
     sts[nat (startIndex + centerColumn rowWidth k) := Some (studentIds ! k)]"

section \<open>Config helpers and the layout reconciler\<close>

text \<open>
  The week label and the default class name of the source (Chinese for "week 1" and
  "unnamed class"), as their UTF-8 bytes.
\<close>

definition DEFAULT_WEEK_LABEL :: string where
  "DEFAULT_WEEK_LABEL = [CHR 0xE7, CHR 0xAC, CHR 0xAC, CHR ''1'', CHR 0xE5, CHR 0x91, CHR 0xA8]"

definition DEFAULT_CLASS_NAME :: string where
  "DEFAULT_CLASS_NAME =
     [CHR 0xE6, CHR 0x9C, CHR 0xAA, CHR 0xE5, CHR 0x91, CHR 0xBD, CHR 0xE5, CHR 0x90, CHR 0x8D,
      CHR 0xE7, CHR 0x8F, CHR 0xAD, CHR 0xE7, CHR 0xBA, CHR 0xA7]"

definition createEmptyConfig :: "LayoutMode \<Rightarrow> int \<Rightarrow> TimeModeConfig" where
  "createEmptyConfig lm studentCount =
     (let metrics = getLayoutMetrics lm studentCount in
      \<lparr>layoutMode = lm, rows = metric_rows metrics, cols = metric_cols metrics,
       seats = createEmptySeats (capacity metrics), rotationCount = 0,
       weekLabel = DEFAULT_WEEK_LABEL, classTime = []\<rparr>)"

text \<open>\<^verbatim>\<open>Math.ceil(n / 2)\<close> of a length, and \<^verbatim>\<open>xs.slice(0, half)\<close>, \<^verbatim>\<open>xs.slice(half)\<close>.\<close>

definition half_up :: "nat \<Rightarrow> nat" where
  "half_up n = nat (ceil_div (int n) 2)"

definition withLayout :: "TimeModeConfig \<Rightarrow> LayoutMode \<Rightarrow> Student list \<Rightarrow> TimeModeConfig" where
  "withLayout config lm studs =
     (let metrics = getLayoutMetrics lm (int (length studs)) in
      if lm = ARC then
        (let ordered = getOrderedStudentIds studs (seats config);
             sts0 = createEmptySeats (capacity metrics);
             half = half_up (length ordered);
             firstRow = take half ordered;
             secondRow = drop half ordered;
             sts1 = placeCentered sts0 firstRow 0 ARC_COLS;
             sts2 = placeCentered sts1 secondRow ARC_COLS ARC_COLS
         in config\<lparr>layoutMode := lm, rows := metric_rows metrics, cols := metric_cols metrics,
                   seats := sts2\<rparr>)
      else
        (let sts = buildSeatsFromOrder (getOrderedStudentIds studs (seats config))
                     (capacity metrics)
         in config\<lparr>layoutMode := lm, rows := metric_rows metrics, cols := metric_cols metrics,
                   seats := sts\<rparr>))"

section \<open>Rotation engine\<close>

text \<open>
  The read \<^verbatim>\<open>seats[i]\<close>. Outside the array JavaScript gives \<^verbatim>\<open>undefined\<close>, written
  \<^term>\<open>None\<close> here; every read of the engine is inside the array, since the rotations
  first reconcile the config to its own layout (lemma \<open>withLayout_length\<close>).
\<close>

definition seat_at :: "'a option list \<Rightarrow> int \<Rightarrow> 'a option" where
  "seat_at xs i = (if 0 \<le> i \<and> nat i < length xs then xs ! nat i else None)"

text \<open>
  One group, one half row: collect the non-null entries and, when there are at least
  two, write them back rotated first-to-last, followed by nulls.
\<close>

definition rotate_block :: "string option list \<Rightarrow> string option list" where
  "rotate_block block =
     (let nonEmpty = filter (\<lambda>s. s \<noteq> None) block in
      if length nonEmpty > 1 then refill (first_to_last nonEmpty) (length block) else block)"

definition rotateGroup :: "string option list \<Rightarrow> nat \<Rightarrow> string option list" where
  "rotateGroup nextSeats groupIdx =
     (let start = int groupIdx * GROUP_CAPACITY;
          groupStudents = map (\<lambda>i. seat_at nextSeats (start + int i)) [0..<nat GROUP_CAPACITY];
          nonEmpty = filter (\<lambda>s. s \<noteq> None) groupStudents
      in if length nonEmpty > 1 then
           (let rotated = first_to_last nonEmpty in
            foldl (\<lambda>sts i. array_set sts (start + int i)
                     (if i < length rotated then rotated ! i else None))
              nextSeats [0..<nat GROUP_CAPACITY])
         else nextSeats)"

definition rotateGroupLayout :: "TimeModeConfig \<Rightarrow> Student list \<Rightarrow> TimeModeConfig" where
  "rotateGroupLayout config studs =
     (let normalized = withLayout config GROUPS studs;
          gc = getGroupCountBySize (int (length studs));
          activeIndices = getActiveGroupIndices gc;
          nextSeats = foldl rotateGroup (seats normalized) activeIndices
      in normalized\<lparr>seats := nextSeats,
                    rotationCount := js_increment (rotationCount normalized)\<rparr>)"

text \<open>Step 1 of \<open>rotateThreeRows\<close> for one row: the body of the first \<^verbatim>\<open>for\<close> loop.\<close>

definition rotatedRow :: "string option list \<Rightarrow> int \<Rightarrow> nat \<Rightarrow> string option list" where
  "rotatedRow sts cs row =
     (let start = int row * cs;
          leftSize = ceil_div cs 2;
          left = map (\<lambda>c. seat_at sts (start + int c))
                   (filter (\<lambda>c. int c < leftSize) [0..<nat cs]);
          right = map (\<lambda>c. seat_at sts (start + int c))
                    (filter (\<lambda>c. \<not> int c < leftSize) [0..<nat cs])
      in rotate_block left @ rotate_block right)"

definition rotateThreeRows :: "TimeModeConfig \<Rightarrow> Student list \<Rightarrow> TimeModeConfig" where
  "rotateThreeRows config studs =
     (let normalized = withLayout config THREE_ROWS studs;
          cs = cols normalized;
          rotatedRows = map (rotatedRow (seats normalized) cs) [0..<nat THREE_ROWS_count];
          shifted = [rotatedRows ! 1, rotatedRows ! 2, rotatedRows ! 0];
          nextSeats =
            foldl (\<lambda>sts row.
                     foldl (\<lambda>sts' c. array_set sts' (int row * cs + int c) (shifted ! row ! c))
                       sts [0..<nat cs])
              (createEmptySeats (int (length (seats normalized)))) [0..<nat THREE_ROWS_count]
      in normalized\<lparr>seats := nextSeats,
                    rotationCount := js_increment (rotationCount normalized)\<rparr>)"

definition rotateArcRow :: "string option list \<Rightarrow> string option list \<Rightarrow> nat \<Rightarrow> string option list" where
  "rotateArcRow src nextSeats row =
     (let start = int row * ARC_COLS;
          rowStudents = map the (filter truthy
                          (map (\<lambda>col. seat_at src (start + int col)) [0..<nat ARC_COLS]))
      in if length rowStudents > 1
         then placeCentered nextSeats (first_to_last rowStudents) start ARC_COLS
         else placeCentered nextSeats rowStudents start ARC_COLS)"

definition rotateArcLayout :: "TimeModeConfig \<Rightarrow> Student list \<Rightarrow> TimeModeConfig" where
  "rotateArcLayout config studs =
     (let normalized = withLayout config ARC studs;
          nextSeats = foldl (rotateArcRow (seats normalized))
                        (createEmptySeats (int (length (seats normalized)))) [0..<nat ARC_ROWS]
      in normalized\<lparr>seats := nextSeats,
                    rotationCount := js_increment (rotationCount normalized)\<rparr>)"

section \<open>Classroom operations\<close>

definition createClassroom :: "string \<Rightarrow> string \<Rightarrow> string \<Rightarrow> Classroom" where
  "createClassroom newId now name =
     (let defaultConfig = createEmptyConfig GROUPS 0 in
      \<lparr>classroom_id = newId, classroom_name = name, students = [], campus = [],
       building = [], room = [], sideNotes = [], updatedAt = now,
       weekday = defaultConfig, weekend = defaultConfig\<rparr>)"

text \<open>
  White space. \<^verbatim>\<open>String.prototype.trim\<close> and the class \<^verbatim>\<open>\s\<close> of a regular expression
  take the same characters: U+0009 to U+000D, U+0020, U+00A0, U+1680, U+2000 to U+200A,
  U+2028, U+2029, U+202F, U+205F, U+3000 and U+FEFF. \<open>white_space\<close> lists their UTF-8
  encodings. No encoding of a white-space character begins with a continuation byte and
  none is the tail of the encoding of another character, so that in a well-formed string
  a match at the front or at the end is that character.
\<close>

definition white_space :: "string list" where
  "white_space =
     [[CHR 0x09], [CHR 0x0A], [CHR 0x0B], [CHR 0x0C], [CHR 0x0D], [CHR 0x20],
      [CHR 0xC2, CHR 0xA0],
      [CHR 0xE1, CHR 0x9A, CHR 0x80],
      [CHR 0xE2, CHR 0x80, CHR 0x80], [CHR 0xE2, CHR 0x80, CHR 0x81],
      [CHR 0xE2, CHR 0x80, CHR 0x82], [CHR 0xE2, CHR 0x80, CHR 0x83],
      [CHR 0xE2, CHR 0x80, CHR 0x84], [CHR 0xE2, CHR 0x80, CHR 0x85],
      [CHR 0xE2, CHR 0x80, CHR 0x86], [CHR 0xE2, CHR 0x80, CHR 0x87],
      [CHR 0xE2, CHR 0x80, CHR 0x88], [CHR 0xE2, CHR 0x80, CHR 0x89],
      [CHR 0xE2, CHR 0x80, CHR 0x8A],
      [CHR 0xE2, CHR 0x80, CHR 0xA8], [CHR 0xE2, CHR 0x80, CHR 0xA9],
      [CHR 0xE2, CHR 0x80, CHR 0xAF],
      [CHR 0xE2, CHR 0x81, CHR 0x9F],
      [CHR 0xE3, CHR 0x80, CHR 0x80],
      [CHR 0xEF, CHR 0xBB, CHR 0xBF]]"

text \<open>
  The number of bytes of the white-space character a string begins with, or ends with;
  0 if there is none.
\<close>

definition space_prefix :: "string \<Rightarrow> nat" where
  "space_prefix str =
     (case find (\<lambda>w. take (length w) str = w) white_space of
        None \<Rightarrow> 0 | Some w \<Rightarrow> length w)"

definition space_suffix :: "string \<Rightarrow> nat" where
  "space_suffix str =
     (case find (\<lambda>w. length w \<le> length str \<and> drop (length str - length w) str = w)
             white_space of
        None \<Rightarrow> 0 | Some w \<Rightarrow> length w)"

function trim_start :: "string \<Rightarrow> string" where
  "trim_start str =
     (if 0 < space_prefix str then trim_start (drop (space_prefix str) str) else str)"
  by pat_completeness auto
termination
proof (relation "measure length")
  fix str :: string
  assume pos: "0 < space_prefix str"
  then have "str \<noteq> []" by (auto simp: space_prefix_def white_space_def)
  with pos show "(drop (space_prefix str) str, str) \<in> measure length" by simp
qed simp

function trim_end :: "string \<Rightarrow> string" where
  "trim_end str =
     (if 0 < space_suffix str then trim_end (take (length str - space_suffix str) str)
      else str)"
  by pat_completeness auto
termination
proof (relation "measure length")
  fix str :: string
  assume pos: "0 < space_suffix str"
  then have "str \<noteq> []" by (auto simp: space_suffix_def white_space_def)
  with pos show "(take (length str - space_suffix str) str, str) \<in> measure length" by simp
qed simp

declare trim_start.simps [simp del] trim_end.simps [simp del]

definition trim :: "string \<Rightarrow> string" where
  "trim str = trim_end (trim_start str)"

text \<open>\<^verbatim>\<open>str.replace(/\s+/g, ' ')\<close>: every maximal run of white space becomes one space.\<close>

function collapse_spaces :: "string \<Rightarrow> string" where
  "collapse_spaces [] = []"
| "collapse_spaces (c # cs) =
     (if 0 < space_prefix (c # cs) then CHR 0x20 # collapse_spaces (trim_start (c # cs))
      else c # collapse_spaces cs)"
  by pat_completeness auto
termination
proof (relation "measure length")
  fix c :: char and cs :: string
  assume pos: "0 < space_prefix (c # cs)"
  have shorter: "length (trim_start str) \<le> length str" for str
  proof (induction str rule: trim_start.induct)
    case (1 str)
    show ?case
    proof (cases "0 < space_prefix str")
      case True
      with 1 have "length (trim_start (drop (space_prefix str) str)) \<le> length str" by simp
      moreover from True have "trim_start str = trim_start (drop (space_prefix str) str)"
        by (subst trim_start.simps) simp
      ultimately show ?thesis by simp
    next
      case False
      then have "trim_start str = str" by (subst trim_start.simps) simp
      then show ?thesis by simp
    qed
  qed
  from pos have "trim_start (c # cs) = trim_start (drop (space_prefix (c # cs)) (c # cs))"
    by (subst trim_start.simps) simp
  moreover have "length (trim_start (drop (space_prefix (c # cs)) (c # cs)))
        \<le> length (drop (space_prefix (c # cs)) (c # cs))"
    by (rule shorter)
  moreover have "length (drop (space_prefix (c # cs)) (c # cs)) < length (c # cs)"
    using pos by simp
  ultimately show "(trim_start (c # cs), c # cs) \<in> measure length"
    by simp
qed simp_all

definition name_step :: "string list \<Rightarrow> string \<Rightarrow> string list" where
  "name_step names rawName =
     (let name = trim (collapse_spaces rawName) in
      if name = [] then names
      else if name \<notin> set names then names @ [name] else names)"

definition uniqueNames :: "string list \<Rightarrow> string list" where
  "uniqueNames input = foldl name_step [] input"

text \<open>
  \<open>replaceStudents\<close> calls \<^verbatim>\<open>createId()\<close> once per name; \<open>createId k\<close> is the id the
  \<open>k\<close>-th of these calls returns.
\<close>

definition replaceStudents ::
  "(nat \<Rightarrow> string) \<Rightarrow> string \<Rightarrow> Classroom \<Rightarrow> string list \<Rightarrow> TimeMode \<Rightarrow> Classroom" where
  "replaceStudents createId now classroom names timeMode =
     (let sanitizedNames = slice_to (uniqueNames names) MAX_STUDENTS;
          studs = map (\<lambda>k. \<lparr>student_id = createId k, student_name = sanitizedNames ! k\<rparr>)
                    [0..<length sanitizedNames];
          config = config_of classroom timeMode;
          metrics = getLayoutMetrics (layoutMode config) (int (length studs));
          sts = buildSeatsFromOrder (map student_id studs) (capacity metrics)
      in (set_config (classroom\<lparr>students := studs\<rparr>) timeMode
            (config\<lparr>rows := metric_rows metrics, cols := metric_cols metrics, seats := sts,
                     rotationCount := 0\<rparr>))
         \<lparr>updatedAt := now\<rparr>)"

definition changeLayoutMode :: "string \<Rightarrow> Classroom \<Rightarrow> LayoutMode \<Rightarrow> TimeMode \<Rightarrow> Classroom" where
  "changeLayoutMode now classroom lm timeMode =
     (let config = config_of classroom timeMode;
          nextConfig = withLayout config lm (students classroom)
      in (set_config classroom timeMode nextConfig)\<lparr>updatedAt := now\<rparr>)"

definition normalizeClassroomLayout :: "Classroom \<Rightarrow> TimeMode \<Rightarrow> Classroom" where
  "normalizeClassroomLayout classroom timeMode =
     (let config = config_of classroom timeMode;
          nextConfig = withLayout config (layoutMode config) (students classroom)
      in set_config classroom timeMode nextConfig)"

definition swapSeatAssignments ::
  "string \<Rightarrow> Classroom \<Rightarrow> int \<Rightarrow> int \<Rightarrow> TimeMode \<Rightarrow> Classroom" where
  "swapSeatAssignments now classroom first second timeMode =
     (let config = config_of classroom timeMode in
      if first = second \<or> first < 0 \<or> second < 0 \<or> first \<ge> int (length (seats config))
         \<or> second \<ge> int (length (seats config))
      then classroom
      else
        (let sts = seats config;
             sts' = array_set (array_set sts first (seat_at sts second)) second (seat_at sts first)
         in (set_config classroom timeMode (config\<lparr>seats := sts'\<rparr>))\<lparr>updatedAt := now\<rparr>))"

definition clearSeat :: "string \<Rightarrow> Classroom \<Rightarrow> int \<Rightarrow> TimeMode \<Rightarrow> Classroom" where
  "clearSeat now classroom seatIndex timeMode =
     (let config = config_of classroom timeMode in
      if seatIndex < 0 \<or> seatIndex \<ge> int (length (seats config)) then classroom
      else
        (let sts = array_set (seats config) seatIndex None
         in (set_config classroom timeMode (config\<lparr>seats := sts\<rparr>))\<lparr>updatedAt := now\<rparr>))"

definition placeStudentInSeat ::
  "string \<Rightarrow> Classroom \<Rightarrow> string \<Rightarrow> int \<Rightarrow> TimeMode \<Rightarrow> Classroom" where
  "placeStudentInSeat now classroom studentId seatIndex timeMode =
     (let config = config_of classroom timeMode in
      if seatIndex < 0 \<or> seatIndex \<ge> int (length (seats config)) then classroom
      else if studentId \<notin> set (map student_id (students classroom)) then classroom
      else
        (let sts = map (\<lambda>seat. if seat = Some studentId then None else seat) (seats config);
             sts' = array_set sts seatIndex (Some studentId)
         in (set_config classroom timeMode (config\<lparr>seats := sts'\<rparr>))\<lparr>updatedAt := now\<rparr>))"

definition getAssignedCount :: "TimeModeConfig \<Rightarrow> int" where
  "getAssignedCount config =
     foldl (\<lambda>total seat. if truthy seat then total + 1 else total) 0 (seats config)"

definition rotateSeatsOnce :: "string \<Rightarrow> Classroom \<Rightarrow> TimeMode \<Rightarrow> Classroom" where
  "rotateSeatsOnce now classroom timeMode =
     (let config = config_of classroom timeMode in
      if getAssignedCount config \<le> 1 then classroom
      else
        (let nextConfig =
               (if layoutMode config = THREE_ROWS then rotateThreeRows config (students classroom)
                else if layoutMode config = ARC then rotateArcLayout config (students classroom)
                else rotateGroupLayout config (students classroom))
         in (set_config classroom timeMode nextConfig)\<lparr>updatedAt := now\<rparr>))"

text \<open>
  The Fisher-Yates loop of \<open>randomizeSeats\<close>: \<open>rand i\<close> is the value of
  \<^verbatim>\<open>Math.floor(Math.random() * (i + 1))\<close> in the pass with index \<open>i\<close>, a number of
  \<open>{0..i}\<close>.
\<close>

definition swap_entries :: "'a list \<Rightarrow> nat \<Rightarrow> nat \<Rightarrow> 'a list" where
  "swap_entries xs i j = (xs[i := xs ! j])[j := xs ! i]"

definition shuffle :: "(nat \<Rightarrow> nat) \<Rightarrow> 'a list \<Rightarrow> 'a list" where
  "shuffle rand xs = foldl (\<lambda>ys i. swap_entries ys i (rand i)) xs (rev [1..<length xs])"

definition randomizeSeats :: "(nat \<Rightarrow> nat) \<Rightarrow> string \<Rightarrow> Classroom \<Rightarrow> TimeMode \<Rightarrow> Classroom" where
  "randomizeSeats rand now classroom timeMode =
     (let config = config_of classroom timeMode;
          normalized = withLayout config (layoutMode config) (students classroom);
          randomizedIds = shuffle rand (map student_id (students classroom));
          nextSeats =
            (if layoutMode config = ARC then
               (let sts0 = createEmptySeats (int (length (seats normalized)));
                    half = half_up (length randomizedIds);
                    sts1 = placeCentered sts0 (take half randomizedIds) 0 ARC_COLS
                in placeCentered sts1 (drop half randomizedIds) ARC_COLS ARC_COLS)
             else buildSeatsFromOrder randomizedIds (int (length (seats normalized))))
      in (set_config classroom timeMode (normalized\<lparr>seats := nextSeats\<rparr>))\<lparr>updatedAt := now\<rparr>)"

definition getUnassignedStudents :: "Classroom \<Rightarrow> TimeMode \<Rightarrow> Student list" where
  "getUnassignedStudents classroom timeMode =
     (let config = config_of classroom timeMode;
          assignedIds = map the (filter truthy (seats config))
      in filter (\<lambda>student. student_id student \<notin> set assignedIds) (students classroom))"

section \<open>Occupants of a seat array, and example classrooms\<close>

text \<open>The entries of a seat array that are not null, in seat order.\<close>

definition occupants :: "string option list \<Rightarrow> string list" where
  "occupants sts = map the (filter (\<lambda>s. s \<noteq> None) sts)"

text \<open>
  Example classrooms, made with the public operations. \<open>example_id p\<close> is an id generator:
  its ids are \<open>p\<close> followed by one, two, three, ... letters \<open>i\<close>.
\<close>

definition example_id :: "string \<Rightarrow> nat \<Rightarrow> string" where
  "example_id prefix k = prefix @ replicate (Suc k) (CHR ''i'')"

definition example_new :: Classroom where
  "example_new = createClassroom ''c1'' ''t0'' ''J328''"

definition example_single :: Classroom where
  "example_single = replaceStudents (example_id ''a'') ''t1'' example_new [''Alice''] Weekday"

definition example_weekend :: Classroom where
  "example_weekend =
     replaceStudents (example_id ''a'') ''t1'' example_new [''Alice'', ''Bob''] Weekend"

definition example_stale :: Classroom where
  "example_stale =
     replaceStudents (example_id ''b'') ''t2'' example_weekend [''Carol'', ''Dave''] Weekday"

section \<open>THREE_ROWS rotation in the words of the specification\<close>

text \<open>
  The rule shared by the rotations: collect the non-empty ids in seat order and, if there
  are at least two, shift them cyclically by one position (the first moves to the end),
  then refill the trailing slots with empties.
\<close>

definition spec_shift_occupants :: "string option list \<Rightarrow> string option list" where
  "spec_shift_occupants block =
     (let ids = occupants block in
      if 2 \<le> length ids
      then map Some (rotate1 ids) @ replicate (length block - length ids) None
      else block)"

text \<open>Row \<open>r\<close> of a grid with \<open>cs\<close> columns, and its rotation: the left half has
  \<open>\<lceil>cs / 2\<rceil>\<close> seats, the right half the rest.\<close>

definition spec_row :: "string option list \<Rightarrow> nat \<Rightarrow> nat \<Rightarrow> string option list" where
  "spec_row sts cs r = take cs (drop (r * cs) sts)"

definition spec_rotate_row :: "string option list \<Rightarrow> nat \<Rightarrow> nat \<Rightarrow> string option list" where
  "spec_rotate_row sts cs r =
     (let leftSize = (cs + 1) div 2 in
      spec_shift_occupants (take leftSize (spec_row sts cs r))
      @ spec_shift_occupants (drop leftSize (spec_row sts cs r)))"

text \<open>Step 1 on every row, then step 2: new row 0 is old row 1, new row 1 is old row 2,
  new row 2 is old row 0; the rotation count goes up by one.\<close>

definition spec_rotateThreeRows :: "TimeModeConfig \<Rightarrow> Student list \<Rightarrow> TimeModeConfig" where
  "spec_rotateThreeRows config studs =
     (let normalized = withLayout config THREE_ROWS studs;
          cs = nat (cols normalized)
      in normalized
           \<lparr>seats := spec_rotate_row (seats normalized) cs 1
                     @ spec_rotate_row (seats normalized) cs 2
                     @ spec_rotate_row (seats normalized) cs 0,
            rotationCount := rotationCount normalized + 1\<rparr>)"

definition example_three_rows :: Classroom where
  "example_three_rows =
     changeLayoutMode ''t2''
       (replaceStudents (example_id ''s'') ''t1'' example_new
          [''Ann'', ''Ben'', ''Cy'', ''Dee'', ''Eve'', ''Fay'', ''Gus''] Weekday)
       THREE_ROWS Weekday"

section \<open>Seat uniqueness\<close>

text \<open>No student id occurs in two seats of the same config; the roster has no two
  students with the same id.\<close>

definition seatsUnique :: "Classroom \<Rightarrow> bool" where
  "seatsUnique c = (distinct (occupants (seats (weekday c)))
                    \<and> distinct (occupants (seats (weekend c))))"

definition rosterUnique :: "Classroom \<Rightarrow> bool" where
  "rosterUnique c = distinct (map student_id (students c))"

text \<open>
  Two classrooms as an imported backup can hold them (\<open>normalizeState\<close> accepts any
  string as a student id and does not compare the ids of a roster): one whose roster has
  the same id twice, one whose roster has a student with the empty string as id.
\<close>

definition example_twins :: Classroom where
  "example_twins =
     (createClassroom ''c2'' ''t0'' ''Twins'')
       \<lparr>students := [\<lparr>student_id = ''a'', student_name = ''Ann''\<rparr>,
                     \<lparr>student_id = ''a'', student_name = ''Abe''\<rparr>],
        weekday := (createEmptyConfig GROUPS 0)\<lparr>seats := Some ''a'' # replicate 35 None\<rparr>,
        weekend := (createEmptyConfig GROUPS 0)\<lparr>seats := Some ''a'' # replicate 35 None\<rparr>\<rparr>"

definition example_blank_id :: Classroom where
  "example_blank_id =
     (createClassroom ''c3'' ''t0'' ''Blank'')
       \<lparr>students := [\<lparr>student_id = ''a'', student_name = ''Ann''\<rparr>,
                     \<lparr>student_id = ''b'', student_name = ''Ben''\<rparr>,
                     \<lparr>student_id = [], student_name = ''Zed''\<rparr>],
        weekday := (createEmptyConfig GROUPS 0)
                     \<lparr>seats := Some ''a'' # Some ''b'' # Some [] # replicate 33 None\<rparr>,
        weekend := (createEmptyConfig GROUPS 0)
                     \<lparr>seats := Some ''a'' # Some ''b'' # Some [] # replicate 33 None\<rparr>\<rparr>"

text \<open>
  A classroom as an imported backup can hold it: \<open>normalizeTimeModeConfig\<close> accepts any
  number as a rotation count, here \<open>2\<^sup>5\<^sup>3\<close>, written \<^verbatim>\<open>9007199254740992\<close> in the document.
\<close>

definition example_big_count :: Classroom where
  "example_big_count =
     (createClassroom ''c4'' ''t0'' ''Count'')
       \<lparr>students := [\<lparr>student_id = ''a'', student_name = ''Ann''\<rparr>,
                     \<lparr>student_id = ''b'', student_name = ''Ben''\<rparr>],
        weekday := (createEmptyConfig THREE_ROWS 2)
                     \<lparr>seats := [Some ''a'', Some ''b'', None], rotationCount := 2 ^ 53\<rparr>,
        weekend := (createEmptyConfig GROUPS 0)
                     \<lparr>seats := Some ''a'' # Some ''b'' # replicate 34 None\<rparr>\<rparr>"

text \<open>
  A classroom of two students, one of them with the empty string as id, as an imported
  backup can hold it, and the same classroom after its roster was replaced in the weekday
  mode: the weekend seats still hold the two old ids.
\<close>

definition example_blank_pair :: Classroom where
  "example_blank_pair =
     (createClassroom ''c5'' ''t0'' ''Pair'')
       \<lparr>students := [\<lparr>student_id = ''x'', student_name = ''Xia''\<rparr>,
                     \<lparr>student_id = [], student_name = ''Zed''\<rparr>],
        weekday := (createEmptyConfig GROUPS 0)
                     \<lparr>seats := Some ''x'' # Some [] # replicate 34 None\<rparr>,
        weekend := (createEmptyConfig GROUPS 0)
                     \<lparr>seats := Some ''x'' # Some [] # replicate 34 None\<rparr>\<rparr>"

definition example_blank_stale :: Classroom where
  "example_blank_stale =
     replaceStudents (example_id ''b'') ''t1'' example_blank_pair [''Carol'', ''Dave''] Weekday"

section \<open>State normalisation (lib/storage.ts)\<close>

text \<open>
  A value as \<^verbatim>\<open>JSON.parse\<close> returns it. An object is the list of its properties; numbers
  are the integer-valued doubles (see the conventions above).
\<close>

datatype json =
  JNull | JBool bool | JNum int | JStr string | JArr "json list" | JObj "(string \<times> json) list"

definition APP_VERSION :: int where [simp]: "APP_VERSION = 3"

text \<open>
  The property read \<^verbatim>\<open>candidate.key\<close>; \<^term>\<open>None\<close> is \<^verbatim>\<open>undefined\<close>. The keys the code
  reads are not properties of arrays, so on an array the read is \<^verbatim>\<open>undefined\<close>; it is
  only made on values that passed the object test.
\<close>

definition property :: "json \<Rightarrow> string \<Rightarrow> json option" where
  "property v key = (case v of JObj kvs \<Rightarrow> map_of kvs key | _ \<Rightarrow> None)"

text \<open>\<^verbatim>\<open>!value\<close>: undefined, null, false, 0 and the empty string are falsy.\<close>

definition falsy :: "json option \<Rightarrow> bool" where
  "falsy v =
     (case v of
        None \<Rightarrow> True
      | Some JNull \<Rightarrow> True
      | Some (JBool b) \<Rightarrow> \<not> b
      | Some (JNum n) \<Rightarrow> n = 0
      | Some (JStr s) \<Rightarrow> s = []
      | Some (JArr _) \<Rightarrow> False
      | Some (JObj _) \<Rightarrow> False)"

text \<open>\<^verbatim>\<open>typeof value === 'object'\<close>, which holds of null, arrays and objects.\<close>

definition typeof_object :: "json option \<Rightarrow> bool" where
  "typeof_object v =
     (case v of Some JNull \<Rightarrow> True | Some (JArr _) \<Rightarrow> True | Some (JObj _) \<Rightarrow> True | _ \<Rightarrow> False)"

definition typeof_string :: "json option \<Rightarrow> bool" where
  "typeof_string v = (case v of Some (JStr _) \<Rightarrow> True | _ \<Rightarrow> False)"

definition isArray :: "json option \<Rightarrow> bool" where
  "isArray v = (case v of Some (JArr _) \<Rightarrow> True | _ \<Rightarrow> False)"

definition isStudent :: "json \<Rightarrow> bool" where
  "isStudent value =
     (if falsy (Some value) \<or> \<not> typeof_object (Some value) then False
      else typeof_string (property value ''id'') \<and> typeof_string (property value ''name''))"

definition toStringOrDefault :: "json option \<Rightarrow> string \<Rightarrow> string" where
  "toStringOrDefault value fallback = (case value of Some (JStr s) \<Rightarrow> s | _ \<Rightarrow> fallback)"

text \<open>A roster entry that passed \<open>isStudent\<close>, read as a \<open>Student\<close>.\<close>

definition student_of :: "json \<Rightarrow> Student" where
  "student_of value =
     \<lparr>student_id = toStringOrDefault (property value ''id'') [],
      student_name = toStringOrDefault (property value ''name'') []\<rparr>"

text \<open>\<open>isLayoutMode\<close> and \<open>isTimeMode\<close>, giving the mode they recognise.\<close>

definition isLayoutMode :: "json option \<Rightarrow> LayoutMode option" where
  "isLayoutMode value =
     (case value of
        Some (JStr s) \<Rightarrow>
          if s = ''THREE_ROWS'' then Some THREE_ROWS
          else if s = ''GROUPS'' then Some GROUPS
          else if s = ''ARC'' then Some ARC
          else None
      | _ \<Rightarrow> None)"

definition isTimeMode :: "json option \<Rightarrow> TimeMode option" where
  "isTimeMode value =
     (case value of
        Some (JStr s) \<Rightarrow>
          if s = ''weekday'' then Some Weekday
          else if s = ''weekend'' then Some Weekend
          else None
      | _ \<Rightarrow> None)"

text \<open>\<^verbatim>\<open>typeof v === 'number' ? v : fallback\<close>.\<close>

definition numberOrDefault :: "json option \<Rightarrow> int \<Rightarrow> int" where
  "numberOrDefault value fallback = (case value of Some (JNum n) \<Rightarrow> n | _ \<Rightarrow> fallback)"

text \<open>The seats of a candidate: entries that are not ids of the roster become null.\<close>

definition seatsOrEmpty :: "json option \<Rightarrow> string list \<Rightarrow> string option list" where
  "seatsOrEmpty value studentIds =
     (case value of
        Some (JArr entries) \<Rightarrow>
          map (\<lambda>seat. case seat of
                         JStr s \<Rightarrow> if s \<in> set studentIds then Some s else None
                       | _ \<Rightarrow> None) entries
      | _ \<Rightarrow> [])"

definition normalizeTimeModeConfig ::
  "json option \<Rightarrow> Student list \<Rightarrow> LayoutMode \<Rightarrow> TimeModeConfig option" where
  "normalizeTimeModeConfig value studs fallbackMode =
     (if falsy value \<or> \<not> typeof_object value then None
      else
        (let candidate = the value;
             lm = (case isLayoutMode (property candidate ''layoutMode'') of
                     Some m \<Rightarrow> m | None \<Rightarrow> fallbackMode);
             studentIds = map student_id studs;
             sts = seatsOrEmpty (property candidate ''seats'') studentIds;
             metrics = getLayoutMetrics lm (int (length studs))
         in Some \<lparr>layoutMode = lm,
                  rows = numberOrDefault (property candidate ''rows'') (metric_rows metrics),
                  cols = numberOrDefault (property candidate ''cols'') (metric_cols metrics),
                  seats = sts,
                  rotationCount = numberOrDefault (property candidate ''rotationCount'') 0,
                  weekLabel = toStringOrDefault (property candidate ''weekLabel'') DEFAULT_WEEK_LABEL,
                  classTime = toStringOrDefault (property candidate ''classTime'') []\<rparr>))"

definition createDefaultTimeModeConfig :: "Student list \<Rightarrow> TimeModeConfig" where
  "createDefaultTimeModeConfig studs =
     (let metrics = getLayoutMetrics GROUPS (int (length studs)) in
      \<lparr>layoutMode = GROUPS, rows = metric_rows metrics, cols = metric_cols metrics,
       seats = replicate (nat (capacity metrics)) None, rotationCount = 0,
       weekLabel = DEFAULT_WEEK_LABEL, classTime = []\<rparr>)"

text \<open>
  \<^verbatim>\<open>name.trim() || default\<close>, and the \<open>updatedAt\<close> of a candidate: kept when it is a string
  that \<^verbatim>\<open>new Date\<close> can read, the current time otherwise. Whether a string is a date is
  the platform's answer, the argument \<open>validDate\<close>.
\<close>

definition nameOrDefault :: "string \<Rightarrow> string" where
  "nameOrDefault name = (if trim name = [] then DEFAULT_CLASS_NAME else trim name)"

definition updatedAtOrNow :: "string \<Rightarrow> (string \<Rightarrow> bool) \<Rightarrow> json option \<Rightarrow> string" where
  "updatedAtOrNow now validDate value =
     (case value of Some (JStr s) \<Rightarrow> if validDate s then s else now | _ \<Rightarrow> now)"

definition migrateV2Classroom ::
  "string \<Rightarrow> (string \<Rightarrow> bool) \<Rightarrow> json \<Rightarrow> Student list \<Rightarrow> Classroom option" where
  "migrateV2Classroom now validDate candidate studs =
     (if \<not> typeof_string (property candidate ''id'') \<or> \<not> typeof_string (property candidate ''name'')
      then None
      else
        (let rawStudents =
               (case property candidate ''students'' of
                  Some (JArr entries) \<Rightarrow> map student_of (filter isStudent entries)
                | _ \<Rightarrow> studs);
             studentIds = map student_id rawStudents;
             inferredMode =
               (case isLayoutMode (property candidate ''layoutMode'') of
                  Some m \<Rightarrow> m
                | None \<Rightarrow>
                    (case property candidate ''rows'' of
                       Some (JNum n) \<Rightarrow> if n \<le> 3 then THREE_ROWS else GROUPS
                     | _ \<Rightarrow> GROUPS));
             sts = seatsOrEmpty (property candidate ''seats'') studentIds;
             metrics = getLayoutMetrics inferredMode (int (length rawStudents));
             config =
               \<lparr>layoutMode = inferredMode,
                rows = numberOrDefault (property candidate ''rows'') (metric_rows metrics),
                cols = numberOrDefault (property candidate ''cols'') (metric_cols metrics),
                seats = sts,
                rotationCount = numberOrDefault (property candidate ''rotationCount'') 0,
                weekLabel = toStringOrDefault (property candidate ''weekLabel'') DEFAULT_WEEK_LABEL,
                classTime = toStringOrDefault (property candidate ''classTime'') []\<rparr>;
             emptyConfig = createDefaultTimeModeConfig rawStudents;
             classroom =
               \<lparr>classroom_id = toStringOrDefault (property candidate ''id'') [],
                classroom_name = nameOrDefault (toStringOrDefault (property candidate ''name'') []),
                students = rawStudents,
                campus = toStringOrDefault (property candidate ''campus'') [],
                building = toStringOrDefault (property candidate ''building'') [],
                room = toStringOrDefault (property candidate ''room'') [],
                sideNotes = toStringOrDefault (property candidate ''sideNotes'') [],
                updatedAt = updatedAtOrNow now validDate (property candidate ''updatedAt''),
                weekday = config,
                weekend = emptyConfig\<rparr>
         in Some (normalizeClassroomLayout (normalizeClassroomLayout classroom Weekday) Weekend)))"

definition normalizeClassroom ::
  "string \<Rightarrow> (string \<Rightarrow> bool) \<Rightarrow> json \<Rightarrow> Classroom option" where
  "normalizeClassroom now validDate value =
     (if falsy (Some value) \<or> \<not> typeof_object (Some value) then None
      else if \<not> typeof_string (property value ''id'') \<or> \<not> typeof_string (property value ''name'')
      then None
      else
        (let rawStudents = (case property value ''students'' of Some (JArr entries) \<Rightarrow> entries | _ \<Rightarrow> []);
             studs = map student_of (filter isStudent rawStudents)
         in if length studs = 0 \<and> falsy (property value ''weekday'') \<and> falsy (property value ''weekend'')
               \<and> isArray (property value ''seats'')
            then migrateV2Classroom now validDate value studs
            else
              (let wd = (case normalizeTimeModeConfig (property value ''weekday'') studs GROUPS of
                           Some cfg \<Rightarrow> cfg | None \<Rightarrow> createDefaultTimeModeConfig studs);
                   we = (case normalizeTimeModeConfig (property value ''weekend'') studs GROUPS of
                           Some cfg \<Rightarrow> cfg | None \<Rightarrow> createDefaultTimeModeConfig studs);
                   classroom =
                     \<lparr>classroom_id = toStringOrDefault (property value ''id'') [],
                      classroom_name = nameOrDefault (toStringOrDefault (property value ''name'') []),
                      students = studs,
                      campus = toStringOrDefault (property value ''campus'') [],
                      building = toStringOrDefault (property value ''building'') [],
                      room = toStringOrDefault (property value ''room'') [],
                      sideNotes = toStringOrDefault (property value ''sideNotes'') [],
                      updatedAt = updatedAtOrNow now validDate (property value ''updatedAt''),
                      weekday = wd,
                      weekend = we\<rparr>
               in Some (normalizeClassroomLayout (normalizeClassroomLayout classroom Weekday)
                          Weekend))))"

text \<open>\<^verbatim>\<open>classrooms.map(normalizeClassroom).filter(Boolean)\<close>.\<close>

definition normalizeAll :: "string \<Rightarrow> (string \<Rightarrow> bool) \<Rightarrow> json list \<Rightarrow> Classroom list" where
  "normalizeAll now validDate entries = List.map_filter (normalizeClassroom now validDate) entries"

definition normalizeState :: "string \<Rightarrow> (string \<Rightarrow> bool) \<Rightarrow> json \<Rightarrow> AppState option" where
  "normalizeState now validDate value =
     (if falsy (Some value) \<or> \<not> typeof_object (Some value) then None
      else
        (case property value ''classrooms'' of
           Some (JArr entries) \<Rightarrow>
             (let cs = normalizeAll now validDate entries;
                  active =
                    (case property value ''activeClassroomId'' of
                       Some (JStr a) \<Rightarrow>
                         if a \<in> set (map classroom_id cs) then Some a
                         else (case cs of [] \<Rightarrow> None | c # _ \<Rightarrow> Some (classroom_id c))
                     | _ \<Rightarrow> (case cs of [] \<Rightarrow> None | c # _ \<Rightarrow> Some (classroom_id c)));
                  tm = (case isTimeMode (property value ''activeTimeMode'') of
                          Some m \<Rightarrow> m | None \<Rightarrow> Weekday)
              in Some \<lparr>version = APP_VERSION, classrooms = cs, activeClassroomId = active,
                       activeTimeMode = tm\<rparr>)
         | _ \<Rightarrow> None))"

text \<open>
  \<open>parseBackup\<close>: \<^verbatim>\<open>JSON.parse\<close> is the platform's parser, the argument \<open>json_parse\<close>;
  \<^term>\<open>None\<close> is the \<^verbatim>\<open>SyntaxError\<close> it throws, which the \<^verbatim>\<open>catch\<close> turns into null.
\<close>

definition parseBackup ::
  "(string \<Rightarrow> json option) \<Rightarrow> string \<Rightarrow> (string \<Rightarrow> bool) \<Rightarrow> string \<Rightarrow> AppState option" where
  "parseBackup json_parse now validDate rawText =
     (case json_parse rawText of
        None \<Rightarrow> None
      | Some parsed \<Rightarrow> normalizeState now validDate parsed)"

text \<open>
  \<^verbatim>\<open>JSON.parse(JSON.stringify(state))\<close>: the document a state is saved and exported as.
\<close>

definition json_of_student :: "Student \<Rightarrow> json" where
  "json_of_student s = JObj [(''id'', JStr (student_id s)), (''name'', JStr (student_name s))]"

definition json_of_layoutMode :: "LayoutMode \<Rightarrow> json" where
  "json_of_layoutMode lm =
     (case lm of THREE_ROWS \<Rightarrow> JStr ''THREE_ROWS'' | GROUPS \<Rightarrow> JStr ''GROUPS'' | ARC \<Rightarrow> JStr ''ARC'')"

definition json_of_seat :: "string option \<Rightarrow> json" where
  "json_of_seat seat = (case seat of None \<Rightarrow> JNull | Some s \<Rightarrow> JStr s)"

definition json_of_config :: "TimeModeConfig \<Rightarrow> json" where
  "json_of_config cfg =
     JObj [(''layoutMode'', json_of_layoutMode (layoutMode cfg)),
           (''rows'', JNum (rows cfg)),
           (''cols'', JNum (cols cfg)),
           (''seats'', JArr (map json_of_seat (seats cfg))),
           (''rotationCount'', JNum (rotationCount cfg)),
           (''weekLabel'', JStr (weekLabel cfg)),
           (''classTime'', JStr (classTime cfg))]"

definition json_of_classroom :: "Classroom \<Rightarrow> json" where
  "json_of_classroom c =
     JObj [(''id'', JStr (classroom_id c)),
           (''name'', JStr (classroom_name c)),
           (''students'', JArr (map json_of_student (students c))),
           (''campus'', JStr (campus c)),
           (''building'', JStr (building c)),
           (''room'', JStr (room c)),
           (''sideNotes'', JStr (sideNotes c)),
           (''updatedAt'', JStr (updatedAt c)),
           (''weekday'', json_of_config (weekday c)),
           (''weekend'', json_of_config (weekend c))]"

definition json_of_state :: "AppState \<Rightarrow> json" where
  "json_of_state s =
     JObj [(''version'', JNum (version s)),
           (''classrooms'', JArr (map json_of_classroom (classrooms s))),
           (''activeClassroomId'',
              (case activeClassroomId s of None \<Rightarrow> JNull | Some a \<Rightarrow> JStr a)),
           (''activeTimeMode'',
              (case activeTimeMode s of Weekday \<Rightarrow> JStr ''weekday'' | Weekend \<Rightarrow> JStr ''weekend''))]"

section \<open>The round trip through the saved document\<close>

text \<open>
  What normalisation does to a classroom that is already a \<open>Classroom\<close>: the name is
  trimmed (the default name if nothing is left), \<open>updatedAt\<close> is kept if it is a date,
  and both configs are reconciled to their own layout.
\<close>

definition renormalizeClassroom :: "string \<Rightarrow> (string \<Rightarrow> bool) \<Rightarrow> Classroom \<Rightarrow> Classroom" where
  "renormalizeClassroom now validDate c =
     normalizeClassroomLayout
       (normalizeClassroomLayout
          (c\<lparr>classroom_name := nameOrDefault (classroom_name c),
             updatedAt := (if validDate (updatedAt c) then updatedAt c else now)\<rparr>)
          Weekday)
       Weekend"

definition firstClassroomId :: "Classroom list \<Rightarrow> string option" where
  "firstClassroomId cs = (case cs of [] \<Rightarrow> None | c # _ \<Rightarrow> Some (classroom_id c))"

definition renormalizeState :: "string \<Rightarrow> (string \<Rightarrow> bool) \<Rightarrow> AppState \<Rightarrow> AppState" where
  "renormalizeState now validDate s =
     \<lparr>version = APP_VERSION,
      classrooms = map (renormalizeClassroom now validDate) (classrooms s),
      activeClassroomId =
        (case activeClassroomId s of
           Some a \<Rightarrow> if a \<in> set (map classroom_id (classrooms s)) then Some a
                     else firstClassroomId (classrooms s)
         | None \<Rightarrow> firstClassroomId (classrooms s)),
      activeTimeMode = activeTimeMode s\<rparr>"

text \<open>
  Two states made with the public operations, as the application holds and saves them:
  a class of six in the ARC layout, and the same class in its groups with the sixth
  student moved from seat 5 to seat 12.
\<close>

definition example_six :: Classroom where
  "example_six =
     replaceStudents (example_id ''s'') ''2024-09-02T08:00:00.000Z''
       (createClassroom ''c1'' ''2024-09-01T08:00:00.000Z'' ''J328'')
       [''Ann'', ''Ben'', ''Cy'', ''Dee'', ''Eve'', ''Fay''] Weekday"

definition example_arc :: Classroom where
  "example_arc = changeLayoutMode ''2024-09-03T08:00:00.000Z'' example_six ARC Weekday"

definition example_moved :: Classroom where
  "example_moved = swapSeatAssignments ''2024-09-03T08:00:00.000Z'' example_six 5 12 Weekday"

definition example_state_arc :: AppState where
  "example_state_arc =
     \<lparr>version = 3, classrooms = [example_arc], activeClassroomId = Some ''c1'',
      activeTimeMode = Weekday\<rparr>"

definition example_state_moved :: AppState where
  "example_state_moved =
     \<lparr>version = 3, classrooms = [example_moved], activeClassroomId = Some ''c1'',
      activeTimeMode = Weekday\<rparr>"

text \<open>Entries that are not ids of the roster are dropped by the seat order anyway.\<close>

definition keep_roster :: "string list \<Rightarrow> string option \<Rightarrow> string option" where
  "keep_roster ids seat =
     (case seat of None \<Rightarrow> None | Some s \<Rightarrow> if s \<in> set ids then Some s else None)"

section \<open>Well-formed states\<close>

text \<open>
  A config is well formed for a roster when its rows, columns and number of seats are
  those of the geometry calculator for its layout and the roster size, no id occurs in
  two seats and every seated id is an id of the roster. A state is well formed when it
  has the current version, all its classrooms have well-formed configs, and the active
  classroom id names one of its classrooms (or is null when there is none).
\<close>

definition wellFormedConfig :: "Student list \<Rightarrow> TimeModeConfig \<Rightarrow> bool" where
  "wellFormedConfig studs cfg =
     (let metrics = getLayoutMetrics (layoutMode cfg) (int (length studs)) in
      rows cfg = metric_rows metrics
      \<and> cols cfg = metric_cols metrics
      \<and> int (length (seats cfg)) = capacity metrics
      \<and> distinct (occupants (seats cfg))
      \<and> filter (\<lambda>a. a \<notin> set (map student_id studs)) (occupants (seats cfg)) = [])"

definition wellFormedClassroom :: "Classroom \<Rightarrow> bool" where
  "wellFormedClassroom c =
     (wellFormedConfig (students c) (weekday c) \<and> wellFormedConfig (students c) (weekend c))"

definition wellFormedState :: "AppState \<Rightarrow> bool" where
  "wellFormedState s =
     (version s = APP_VERSION
      \<and> list_all wellFormedClassroom (classrooms s)
      \<and> (case activeClassroomId s of
            None \<Rightarrow> classrooms s = []
          | Some a \<Rightarrow> a \<in> set (map classroom_id (classrooms s))))"

text \<open>
  \<^verbatim>\<open>JSON.parse\<close> on four texts, one of them a backup with one classroom whose two
  students share an id; \<open>parseBackup\<close> is evaluated with it at these texts.
\<close>

definition backup_text_twins :: string where
  "backup_text_twins =
     ''{\"classrooms\":[{\"id\":\"c2\",\"name\":\"Twins\",\"students\":'' @
     ''[{\"id\":\"a\",\"name\":\"Ann\"},{\"id\":\"a\",\"name\":\"Abe\"}]}]}''"

definition backup_json_twins :: json where
  "backup_json_twins =
     JObj [(''classrooms'',
            JArr [JObj [(''id'', JStr ''c2''), (''name'', JStr ''Twins''),
                        (''students'',
                         JArr [JObj [(''id'', JStr ''a''), (''name'', JStr ''Ann'')],
                               JObj [(''id'', JStr ''a''), (''name'', JStr ''Abe'')]])]])]"

definition json_parse_sample :: "string \<Rightarrow> json option" where
  "json_parse_sample text =
     (if text = ''{}'' then Some (JObj [])
      else if text = ''[]'' then Some (JArr [])
      else if text = ''{\"classrooms\":[]}'' then Some (JObj [(''classrooms'', JArr [])])
      else if text = backup_text_twins then Some backup_json_twins
      else None)"

section \<open>Numbers: proofs\<close>

lemma round_to_double_exact:
  assumes "\<bar>x\<bar> < 2 ^ 53"
  shows "round_to_double x = x"
proof -
  have "significand_shift \<bar>x\<bar> = 0" using assms by (simp add: significand_shift.simps)
  then show ?thesis by (simp add: round_to_double_def Let_def mult_sgn_abs)
qed

lemma round_to_double_2_53: "round_to_double (2 ^ 53) = 2 ^ 53"
  by code_simp

text \<open>On the safe integers the sum is exact; at \<open>2\<^sup>5\<^sup>3\<close> it is not.\<close>

lemma js_increment_safe:
  assumes "isSafeInteger n"
  shows "js_increment n = n + 1"
proof (cases "n + 1 = 2 ^ 53")
  case True
  show ?thesis unfolding js_increment_def True by (rule round_to_double_2_53)
next
  case False
  with assms have "\<bar>n + 1\<bar> < 2 ^ 53"
    by (simp add: isSafeInteger_def MAX_SAFE_INTEGER_def)
  then show ?thesis by (simp add: js_increment_def round_to_double_exact)
qed

lemma js_increment_samples:
  "js_increment 0 = 1"
  "js_increment (2 ^ 53 - 1) = 2 ^ 53"
  "js_increment (2 ^ 53) = 2 ^ 53"
  "js_increment (2 ^ 53 + 2) = 2 ^ 53 + 4"
  "js_increment (- (2 ^ 53)) = - (2 ^ 53) + 1"
  "js_increment (- (2 ^ 53) - 2) = - (2 ^ 53)"
  by code_simp+

section \<open>White space: proofs\<close>

text \<open>
  The ideographic space U+3000, the no-break space U+00A0 and the byte order mark U+FEFF
  are trimmed and collapsed like the ASCII white space; the zero width space U+200B is
  not white space.
\<close>

lemma white_space_samples:
  "trim ([CHR 0xE3, CHR 0x80, CHR 0x80] @ ''J328'' @ [CHR 0xE3, CHR 0x80, CHR 0x80]) = ''J328''"
  "trim ([CHR 0xC2, CHR 0xA0, CHR 0xEF, CHR 0xBB, CHR 0xBF] @ '' a  b '') = ''a  b''"
  "trim ([CHR 0xE2, CHR 0x80, CHR 0x8B] @ ''a'') = [CHR 0xE2, CHR 0x80, CHR 0x8B] @ ''a''"
  "nameOrDefault ([CHR 0xE3, CHR 0x80, CHR 0x80] @ '' '') = DEFAULT_CLASS_NAME"
  "collapse_spaces (''a'' @ [CHR 0xE3, CHR 0x80, CHR 0x80, CHR 0x09] @ '' b'') = ''a b''"
  "uniqueNames [''  Ann  Lee '', ''Ann'' @ [CHR 0xE3, CHR 0x80, CHR 0x80] @ ''Lee'', ''Bob'']
   = [''Ann Lee'', ''Bob'']"
  by code_simp+

section \<open>Geometry: proofs\<close>

lemma ceil_div_ceiling:
  assumes "0 < b"
  shows "ceil_div a b = \<lceil>real_of_int a / real_of_int b\<rceil>"
proof -
  have "\<lceil>real_of_int a / real_of_int b\<rceil> = - \<lfloor>real_of_int (- a) / real_of_int b\<rfloor>"
    by (simp add: ceiling_def)
  also have "\<dots> = - ((- a) div b)"
    by (simp only: floor_divide_of_int_eq)
  finally show ?thesis by (simp add: ceil_div_def)
qed

lemma ceil_div_3_bounds: "n \<le> 3 * ceil_div n 3" "3 * ceil_div n 3 \<le> n + 2"
  unfolding ceil_div_def by presburger+

text \<open>
  C3. For every layout mode and every student count \<open>n \<ge> 0\<close> the capacity of
  \<open>getLayoutMetrics\<close> is at least \<open>min n 36\<close>; for \<open>GROUPS\<close> the capacity is 36
  whatever \<open>n\<close> is, and the group count is \<open>\<lceil>n / 6\<rceil>\<close> clamped to \<open>[3, 6]\<close>, which is 3 at
  \<open>n = 0\<close>.
\<close>

theorem capacity_invariant:
  assumes "0 \<le> n"
  shows "min n 36 \<le> capacity (getLayoutMetrics lm n)
       \<and> capacity (getLayoutMetrics GROUPS n) = 36
       \<and> groupCount (getLayoutMetrics GROUPS n) = max 3 (min 6 \<lceil>real_of_int n / 6\<rceil>)
       \<and> groupCount (getLayoutMetrics GROUPS 0) = 3"
proof -
  have cap: "min n 36 \<le> capacity (getLayoutMetrics lm n)"
  proof (cases lm)
    case THREE_ROWS
    show ?thesis
      using ceil_div_3_bounds(1) [of n] assms
      by (simp add: THREE_ROWS getLayoutMetrics_def Let_def ceil_div_def) presburger
  next
    case GROUPS
    then show ?thesis by (simp add: getLayoutMetrics_def Let_def)
  next
    case ARC
    then show ?thesis by (simp add: getLayoutMetrics_def Let_def)
  qed
  have c6: "ceil_div n 6 = \<lceil>real_of_int n / 6\<rceil>"
    using ceil_div_ceiling [of 6 n] by simp
  have gc: "groupCount (getLayoutMetrics GROUPS n) = max 3 (min 6 \<lceil>real_of_int n / 6\<rceil>)"
  proof (cases "n = 0")
    case True
    then show ?thesis by (simp add: getLayoutMetrics_def getGroupCountBySize_def Let_def)
  next
    case False
    with assms have "0 < n" by simp
    then show ?thesis
      by (simp add: getLayoutMetrics_def getGroupCountBySize_def Let_def c6 [symmetric])
  qed
  show ?thesis
    using cap gc by (simp add: getLayoutMetrics_def getGroupCountBySize_def Let_def)
qed

theorem capacity_invariant_witness:
  "(0::int) \<le> 20
   \<and> min 20 36 \<le> capacity (getLayoutMetrics THREE_ROWS 20)
   \<and> capacity (getLayoutMetrics THREE_ROWS 20) = 21
   \<and> capacity (getLayoutMetrics GROUPS 20) = 36
   \<and> groupCount (getLayoutMetrics GROUPS 20) = 4
   \<and> groupCount (getLayoutMetrics GROUPS 0) = 3"
proof -
  have h: "(0::int) \<le> 20" by simp
  have "capacity (getLayoutMetrics THREE_ROWS 20) = 21"
    by (simp add: getLayoutMetrics_def Let_def ceil_div_def)
  moreover have "groupCount (getLayoutMetrics GROUPS 20) = 4"
    by (simp add: getLayoutMetrics_def getGroupCountBySize_def Let_def ceil_div_def)
  ultimately show ?thesis
    using capacity_invariant [OF h, of THREE_ROWS] by simp
qed

section \<open>Centred placement: proofs\<close>

lemma centerColumn_range:
  assumes "int k < rowWidth"
  shows "0 \<le> centerColumn rowWidth k" "centerColumn rowWidth k < rowWidth"
  using assms unfolding centerColumn_def Let_def by (auto; presburger)+

lemma array_set_inside:
  "0 \<le> i \<Longrightarrow> nat i < length xs \<Longrightarrow> array_set xs i v = xs[nat i := v]"
  by (simp add: array_set_def)

lemma placeCentered_loop_closed:
  assumes "0 \<le> startIndex" "startIndex + rowWidth \<le> int (length sts)"
    and "useLeft = even idx"
    and "centerLeft = (rowWidth - 1) div 2 - int ((idx + 1) div 2)"
    and "centerRight = (rowWidth - 1) div 2 + 1 + int (idx div 2)"
  shows "placeCentered_loop sts studentIds startIndex rowWidth centerLeft centerRight useLeft idx
         = foldl (place_at studentIds startIndex rowWidth) sts
             [idx..<min (length studentIds) (nat rowWidth)]"
  using assms
proof (induction "min (length studentIds) (nat rowWidth) - idx"
       arbitrary: idx sts centerLeft centerRight useLeft)
  case 0
  from "0.hyps" have ge: "min (length studentIds) (nat rowWidth) \<le> idx" by arith
  have stop: "\<not> (idx < length studentIds \<and> (centerLeft \<ge> 0 \<or> centerRight < rowWidth))"
  proof (cases "idx < length studentIds")
    case True
    with ge have "nat rowWidth \<le> idx" by arith
    then have "rowWidth \<le> int idx" by arith
    then have "centerLeft < 0" "rowWidth \<le> centerRight"
      unfolding "0.prems"(4,5) by presburger+
    then show ?thesis by simp
  next
    case False
    then show ?thesis by simp
  qed
  show ?case
    using stop ge by (subst placeCentered_loop.simps) auto
next
  case (Suc n)
  from Suc.hyps(2) have lt: "idx < min (length studentIds) (nat rowWidth)" by arith
  then have idx_len: "idx < length studentIds" and idx_rw: "int idx < rowWidth" by arith+
  have upt: "[idx..<min (length studentIds) (nat rowWidth)]
             = idx # [Suc idx..<min (length studentIds) (nat rowWidth)]"
    using lt by (simp add: upt_conv_Cons)
  have n_eq: "n = min (length studentIds) (nat rowWidth) - Suc idx"
    using Suc.hyps(2) by simp
  show ?case
  proof (cases "even idx")
    case True
    then have ul: "useLeft" using Suc.prems(3) by simp
    have cl: "centerLeft = centerColumn rowWidth idx"
      using True unfolding Suc.prems(4) centerColumn_def Let_def by (simp; presburger)
    have cl0: "0 \<le> centerLeft" "centerLeft < rowWidth"
      using centerColumn_range [OF idx_rw] cl by simp_all
    have inside: "0 \<le> startIndex + centerLeft" "nat (startIndex + centerLeft) < length sts"
      using cl0 Suc.prems(1,2) by arith+
    let ?sts' = "place_at studentIds startIndex rowWidth sts idx"
    have step: "array_set sts (startIndex + centerLeft) (Some (studentIds ! idx)) = ?sts'"
      using inside by (simp add: array_set_inside place_at_def cl)
    have IH: "placeCentered_loop ?sts' studentIds startIndex rowWidth (centerLeft - 1) centerRight
                (\<not> useLeft) (Suc idx)
              = foldl (place_at studentIds startIndex rowWidth) ?sts'
                  [Suc idx..<min (length studentIds) (nat rowWidth)]"
    proof (rule Suc.hyps(1) [OF n_eq])
      show "0 \<le> startIndex" by fact
      show "startIndex + rowWidth \<le> int (length ?sts')"
        using Suc.prems(2) by (simp add: place_at_def)
      show "(\<not> useLeft) = even (Suc idx)" using True ul by simp
      show "centerLeft - 1 = (rowWidth - 1) div 2 - int ((Suc idx + 1) div 2)"
        using True unfolding Suc.prems(4) by (simp; presburger)
      show "centerRight = (rowWidth - 1) div 2 + 1 + int (Suc idx div 2)"
        using True unfolding Suc.prems(5) by (simp; presburger)
    qed
    show ?thesis
      apply (subst placeCentered_loop.simps)
      using idx_len ul cl0 step IH upt by simp
  next
    case False
    then have ul: "\<not> useLeft" using Suc.prems(3) by simp
    have cr: "centerRight = centerColumn rowWidth idx"
      using False unfolding Suc.prems(5) centerColumn_def Let_def by simp
    have cr0: "0 \<le> centerRight" "centerRight < rowWidth"
      using centerColumn_range [OF idx_rw] cr by simp_all
    have inside: "0 \<le> startIndex + centerRight" "nat (startIndex + centerRight) < length sts"
      using cr0 Suc.prems(1,2) by arith+
    let ?sts' = "place_at studentIds startIndex rowWidth sts idx"
    have step: "array_set sts (startIndex + centerRight) (Some (studentIds ! idx)) = ?sts'"
      using inside by (simp add: array_set_inside place_at_def cr)
    have IH: "placeCentered_loop ?sts' studentIds startIndex rowWidth centerLeft (centerRight + 1)
                (\<not> useLeft) (Suc idx)
              = foldl (place_at studentIds startIndex rowWidth) ?sts'
                  [Suc idx..<min (length studentIds) (nat rowWidth)]"
    proof (rule Suc.hyps(1) [OF n_eq])
      show "0 \<le> startIndex" by fact
      show "startIndex + rowWidth \<le> int (length ?sts')"
        using Suc.prems(2) by (simp add: place_at_def)
      show "(\<not> useLeft) = even (Suc idx)" using False ul by simp
      show "centerLeft = (rowWidth - 1) div 2 - int ((Suc idx + 1) div 2)"
        using False unfolding Suc.prems(4) by (simp; presburger)
      show "centerRight + 1 = (rowWidth - 1) div 2 + 1 + int (Suc idx div 2)"
        using False unfolding Suc.prems(5) by (simp; presburger)
    qed
    show ?thesis
      apply (subst placeCentered_loop.simps)
      using idx_len ul cr0 step IH upt by simp
  qed
qed

lemma placeCentered_closed:
  assumes "0 \<le> startIndex" "startIndex + rowWidth \<le> int (length sts)"
  shows "placeCentered sts studentIds startIndex rowWidth
         = foldl (place_at studentIds startIndex rowWidth) sts
             [0..<min (length studentIds) (nat rowWidth)]"
  unfolding placeCentered_def Let_def
  by (rule placeCentered_loop_closed [OF assms]) simp_all

text \<open>
  C6. \<open>placeCentered\<close> fills a row of width \<open>rowWidth\<close> (lying inside the array) outward
  from \<open>centerLeft = \<lfloor>(rowWidth - 1) / 2\<rfloor>\<close> and \<open>centerRight = centerLeft + 1\<close>,
  alternating sides and starting with the left: the \<open>k\<close>-th id is written at column
  \<open>centerColumn rowWidth k\<close>, for every \<open>k\<close> below both the number of ids and the row
  width (after \<open>rowWidth\<close> placements both pointers have left the row). For width 18 and
  four ids at offset 0 the ids land at columns 8, 9, 7, 10 in that order.
\<close>

theorem placeCentered_center_out:
  "(0 \<le> startIndex \<and> startIndex + rowWidth \<le> int (length sts) \<longrightarrow>
      placeCentered sts studentIds startIndex rowWidth
      = foldl (place_at studentIds startIndex rowWidth) sts
          [0..<min (length studentIds) (nat rowWidth)])
   \<and> map (centerColumn 18) [0, 1, 2, 3] = [8, 9, 7, 10]
   \<and> placeCentered (replicate 18 None) [a, b, c, d] 0 18
       = (replicate 18 None)[8 := Some a, 9 := Some b, 7 := Some c, 10 := Some d]"
proof (intro conjI impI)
  assume "0 \<le> startIndex \<and> startIndex + rowWidth \<le> int (length sts)"
  then show "placeCentered sts studentIds startIndex rowWidth
      = foldl (place_at studentIds startIndex rowWidth) sts
          [0..<min (length studentIds) (nat rowWidth)]"
    by (simp add: placeCentered_closed)
next
  show "map (centerColumn 18) [0, 1, 2, 3] = [8, 9, 7, 10]"
    by (simp add: centerColumn_def)
next
  show "placeCentered (replicate 18 None) [a, b, c, d] 0 18
       = (replicate 18 None)[8 := Some a, 9 := Some b, 7 := Some c, 10 := Some d]"
    by (simp add: placeCentered_closed place_at_def centerColumn_def upt_conv_Cons)
qed

theorem placeCentered_center_out_witness:
  "(0::int) \<le> 3
   \<and> (3::int) + 5 \<le> int (length [None, None, None, None, None, None, None, None :: string option])
   \<and> placeCentered [None, None, None, None, None, None, None, None]
         [''a'', ''b'', ''c'', ''d'', ''e'', ''f''] 3 5
       = [None, None, None, Some ''e'', Some ''c'', Some ''a'', Some ''b'', Some ''d'']"
  using placeCentered_center_out
    [of 3 5 "[None, None, None, None, None, None, None, None]"
        "[''a'', ''b'', ''c'', ''d'', ''e'', ''f'']"]
  by (simp add: place_at_def centerColumn_def upt_conv_Cons)

section \<open>Classroom operations: the no-op guards and the time stamp\<close>

lemma foldl_count_truthy:
  "foldl (\<lambda>total seat. if truthy seat then total + 1 else total) a sts
   = a + int (length (filter truthy sts))"
  by (induction sts arbitrary: a) simp_all

lemma getAssignedCount_filter:
  "getAssignedCount config = int (length (filter truthy (seats config)))"
  by (simp add: getAssignedCount_def foldl_count_truthy)

lemma truthy_not_None: "truthy s \<Longrightarrow> s \<noteq> None"
  by (auto simp: truthy_def split: option.splits)

lemma length_filter_mono:
  assumes "\<And>x. P x \<Longrightarrow> Q x"
  shows "length (filter P xs) \<le> length (filter Q xs)"
  using assms by (induction xs) auto

lemma getAssignedCount_le_non_null:
  "getAssignedCount config \<le> int (length (filter (\<lambda>s. s \<noteq> None) (seats config)))"
  unfolding getAssignedCount_filter
  using length_filter_mono [of truthy "\<lambda>s. s \<noteq> None" "seats config"] truthy_not_None
  by simp

text \<open>
  C4. If at most one seat of the chosen time mode's config is occupied, \<open>rotateSeatsOnce\<close>
  returns the classroom itself, so the seats, the rotation count and every other field
  are unchanged. Occupied is read both as the code counts it (\<open>getAssignedCount\<close>) and as
  a seat that is not null.
\<close>

theorem rotate_noop_boundary:
  "(getAssignedCount (config_of c tm) \<le> 1 \<longrightarrow> rotateSeatsOnce now c tm = c)
   \<and> (length (filter (\<lambda>s. s \<noteq> None) (seats (config_of c tm))) \<le> 1 \<longrightarrow>
        rotateSeatsOnce now c tm = c)"
proof (intro conjI impI)
  assume "getAssignedCount (config_of c tm) \<le> 1"
  then show "rotateSeatsOnce now c tm = c"
    by (simp add: rotateSeatsOnce_def)
next
  assume "length (filter (\<lambda>s. s \<noteq> None) (seats (config_of c tm))) \<le> 1"
  with getAssignedCount_le_non_null [of "config_of c tm"]
  have "getAssignedCount (config_of c tm) \<le> 1" by linarith
  then show "rotateSeatsOnce now c tm = c"
    by (simp add: rotateSeatsOnce_def)
qed

theorem rotate_noop_boundary_witness:
  "getAssignedCount (config_of example_single Weekday) = 1
   \<and> length (filter (\<lambda>s. s \<noteq> None) (seats (config_of example_single Weekday))) = 1
   \<and> rotateSeatsOnce ''t2'' example_single Weekday = example_single"
proof -
  have a: "getAssignedCount (config_of example_single Weekday) = 1" by code_simp
  have b: "length (filter (\<lambda>s. s \<noteq> None) (seats (config_of example_single Weekday))) = 1"
    by code_simp
  show ?thesis
    using rotate_noop_boundary [of example_single Weekday "''t2''"] a b by simp
qed

lemma set_config_updatedAt [simp]: "updatedAt (set_config c tm cfg) = updatedAt c"
  by (cases tm) simp_all

text \<open>
  C8, as the code has it. \<open>replaceStudents\<close>, \<open>changeLayoutMode\<close> and \<open>randomizeSeats\<close> set
  \<open>updatedAt\<close> to the current time on every call. \<open>swapSeatAssignments\<close>, \<open>clearSeat\<close>,
  \<open>placeStudentInSeat\<close> and \<open>rotateSeatsOnce\<close> set it exactly when their guard lets the
  call through; on a call the guard stops (equal or out-of-range indices, an id that is not
  in the roster, at most one occupied seat) they return the classroom they were given,
  time stamp included.
\<close>

theorem updatedAt_refreshed_unless_noop:
  "updatedAt (replaceStudents createId now c names tm) = now
   \<and> updatedAt (changeLayoutMode now c lm tm) = now
   \<and> updatedAt (randomizeSeats rand now c tm) = now
   \<and> (if i = j \<or> i < 0 \<or> j < 0 \<or> int (length (seats (config_of c tm))) \<le> i
          \<or> int (length (seats (config_of c tm))) \<le> j
       then swapSeatAssignments now c i j tm = c
       else updatedAt (swapSeatAssignments now c i j tm) = now)
   \<and> (if k < 0 \<or> int (length (seats (config_of c tm))) \<le> k
       then clearSeat now c k tm = c
       else updatedAt (clearSeat now c k tm) = now)
   \<and> (if k < 0 \<or> int (length (seats (config_of c tm))) \<le> k
          \<or> studentId \<notin> set (map student_id (students c))
       then placeStudentInSeat now c studentId k tm = c
       else updatedAt (placeStudentInSeat now c studentId k tm) = now)
   \<and> (if getAssignedCount (config_of c tm) \<le> 1
       then rotateSeatsOnce now c tm = c
       else updatedAt (rotateSeatsOnce now c tm) = now)"
  by (simp add: replaceStudents_def changeLayoutMode_def randomizeSeats_def
        swapSeatAssignments_def clearSeat_def placeStudentInSeat_def rotateSeatsOnce_def Let_def)

theorem updatedAt_refreshed_unless_noop_witness:
  "updatedAt (replaceStudents (example_id ''c'') ''t9'' example_weekend [''Eve''] Weekend) = ''t9''
   \<and> updatedAt (changeLayoutMode ''t9'' example_weekend ARC Weekend) = ''t9''
   \<and> updatedAt (randomizeSeats (\<lambda>i. 0) ''t9'' example_weekend Weekend) = ''t9''
   \<and> updatedAt (swapSeatAssignments ''t9'' example_weekend 0 1 Weekend) = ''t9''
   \<and> updatedAt (clearSeat ''t9'' example_weekend 0 Weekend) = ''t9''
   \<and> updatedAt (placeStudentInSeat ''t9'' example_weekend ''ai'' 5 Weekend) = ''t9''
   \<and> updatedAt (rotateSeatsOnce ''t9'' example_weekend Weekend) = ''t9''"
proof -
  have len: "length (seats (weekend example_weekend)) = 36" by code_simp
  have roster: "map student_id (students example_weekend) = [''ai'', ''aii'']" by code_simp
  have cnt: "getAssignedCount (weekend example_weekend) = 2" by code_simp
  show ?thesis
    using updatedAt_refreshed_unless_noop
            [of "example_id ''c''" "''t9''" example_weekend "[''Eve'']" Weekend ARC
                "\<lambda>i. 0" 0 1 0 "''ai''"]
          updatedAt_refreshed_unless_noop
            [of "example_id ''c''" "''t9''" example_weekend "[''Eve'']" Weekend ARC
                "\<lambda>i. 0" 0 1 5 "''ai''"]
    by (simp add: len roster cnt)
qed

theorem updatedAt_stale_on_noop:
  "updatedAt (swapSeatAssignments ''t9'' example_weekend 0 0 Weekend) \<noteq> ''t9''
   \<and> updatedAt (clearSeat ''t9'' example_weekend 36 Weekend) \<noteq> ''t9''
   \<and> updatedAt (placeStudentInSeat ''t9'' example_weekend ''nobody'' 0 Weekend) \<noteq> ''t9''
   \<and> updatedAt (rotateSeatsOnce ''t9'' example_new Weekend) \<noteq> ''t9''
   \<and> updatedAt (swapSeatAssignments ''t9'' example_weekend 0 0 Weekend) = ''t1''"
  by code_simp

section \<open>Reading and writing a block of seats\<close>

lemma seat_at_inside: "nat b + i < length xs \<Longrightarrow> 0 \<le> b \<Longrightarrow> seat_at xs (b + int i) = xs ! (nat b + i)"
  by (simp add: seat_at_def nat_add_distrib)

lemma block_read:
  assumes "0 \<le> b" "nat b + n \<le> length xs"
  shows "map (\<lambda>i. seat_at xs (b + int i)) [0..<n] = take n (drop (nat b) xs)"
  using assms by (intro nth_equalityI) (simp_all add: seat_at_inside)

lemma block_read_from:
  assumes "0 \<le> b" "nat b + n \<le> length xs" "m \<le> n"
  shows "map (\<lambda>i. seat_at xs (b + int i)) [m..<n] = drop m (take n (drop (nat b) xs))"
proof (intro nth_equalityI)
  show "length (map (\<lambda>i. seat_at xs (b + int i)) [m..<n])
        = length (drop m (take n (drop (nat b) xs)))"
    using assms by simp
next
  fix i
  assume "i < length (map (\<lambda>i. seat_at xs (b + int i)) [m..<n])"
  then have i: "i < n - m" by simp
  then have "nat b + (m + i) < length xs" using assms by arith
  then have "seat_at xs (b + int (m + i)) = xs ! (nat b + (m + i))"
    using assms(1) by (rule seat_at_inside)
  then show "map (\<lambda>i. seat_at xs (b + int i)) [m..<n] ! i
             = drop m (take n (drop (nat b) xs)) ! i"
    using i assms by (simp add: add.commute add.left_commute)
qed

lemma block_write:
  assumes "0 \<le> b" "nat b + n \<le> length xs"
  shows "foldl (\<lambda>s i. array_set s (b + int i) (g i)) xs [0..<n]
         = take (nat b) xs @ map g [0..<n] @ drop (nat b + n) xs"
  using assms(2)
proof (induction n)
  case 0
  then show ?case by simp
next
  case (Suc n)
  let ?ys = "take (nat b) xs @ map g [0..<n] @ drop (nat b + n) xs"
  have IH: "foldl (\<lambda>s i. array_set s (b + int i) (g i)) xs [0..<n] = ?ys"
    using Suc by simp
  have len: "length ?ys = length xs" using Suc.prems by simp
  have inside: "nat (b + int n) < length ?ys" "nat (b + int n) = nat b + n"
    using Suc.prems assms(1) len by (simp_all add: nat_add_distrib)
  have "array_set ?ys (b + int n) (g n) = ?ys[nat b + n := g n]"
    using inside assms(1) by (simp add: array_set_def)
  also have "\<dots> = take (nat b) xs @ map g [0..<n] @ (drop (nat b + n) xs)[0 := g n]"
    using Suc.prems by (simp add: list_update_append)
  also have "(drop (nat b + n) xs)[0 := g n] = g n # drop (nat b + Suc n) xs"
    using Suc.prems by (simp add: Cons_nth_drop_Suc [symmetric])
  finally show ?case
    using IH by simp
qed

lemma filter_less_upt: "filter (\<lambda>c. int c < l) [0..<n] = [0..<min (nat l) n]"
proof (induction n)
  case 0
  then show ?case by simp
next
  case (Suc n)
  show ?case
  proof (cases "int n < l")
    case True
    then have "min (nat l) (Suc n) = Suc n" "min (nat l) n = n" by simp_all
    with True Suc show ?thesis by simp
  next
    case False
    then have "min (nat l) (Suc n) = nat l" "min (nat l) n = nat l" by simp_all
    with False Suc show ?thesis by simp
  qed
qed

lemma filter_not_less_upt: "filter (\<lambda>c. \<not> int c < l) [0..<n] = [min (nat l) n..<n]"
proof (induction n)
  case 0
  then show ?case by simp
next
  case (Suc n)
  show ?case
  proof (cases "int n < l")
    case True
    then have "min (nat l) (Suc n) = Suc n" "min (nat l) n = n" by simp_all
    with True Suc show ?thesis by simp
  next
    case False
    then have "min (nat l) (Suc n) = nat l" "min (nat l) n = nat l" "nat l \<le> n" by simp_all
    with False Suc show ?thesis by simp
  qed
qed

section \<open>Seat order: proofs\<close>

lemma createEmptySeats_replicate: "0 \<le> cap \<Longrightarrow> createEmptySeats cap = replicate (nat cap) None"
  by (simp add: createEmptySeats_def max_def)

lemma buildSeatsFromOrder_closed:
  assumes "0 \<le> cap"
  shows "buildSeatsFromOrder studentIds cap
         = map Some (take (nat cap) studentIds)
           @ replicate (nat cap - length studentIds) None"
proof -
  let ?sl = "take (nat cap) studentIds"
  have sl: "slice_to studentIds cap = ?sl" using assms by (simp add: slice_to_def)
  have "foldl (\<lambda>sts index. array_set sts (0 + int index) (Some (?sl ! index)))
          (replicate (nat cap) None) [0..<length ?sl]
        = take (nat 0) (replicate (nat cap) None) @ map (\<lambda>i. Some (?sl ! i)) [0..<length ?sl]
          @ drop (nat 0 + length ?sl) (replicate (nat cap) None)"
    by (rule block_write) simp_all
  moreover have "map (\<lambda>i. Some (?sl ! i)) [0..<length ?sl] = map Some ?sl"
    by (intro nth_equalityI) simp_all
  ultimately show ?thesis
    using assms by (simp add: buildSeatsFromOrder_def sl createEmptySeats_replicate Let_def min_def)
qed

lemma seat_step_distinct: "distinct acc \<Longrightarrow> distinct (seat_step valid acc seat)"
  by (simp add: seat_step_def split: option.splits)

lemma seat_step_set:
  "set acc \<subseteq> set (seat_step valid acc seat)"
  "set (seat_step valid acc seat) \<subseteq> set acc \<union> set valid"
  by (auto simp: seat_step_def split: option.splits)

lemma foldl_seat_step_distinct:
  "distinct acc \<Longrightarrow> distinct (foldl (seat_step valid) acc sts)"
  by (induction sts arbitrary: acc) (simp_all add: seat_step_distinct)

lemma foldl_seat_step_set:
  "set (foldl (seat_step valid) acc sts) \<subseteq> set acc \<union> set valid"
proof (induction sts arbitrary: acc)
  case Nil
  then show ?case by simp
next
  case (Cons s sts)
  show ?case using Cons [of "seat_step valid acc s"] seat_step_set(2) [of valid acc s]
    by auto
qed

lemma foldl_student_step_distinct:
  "distinct acc \<Longrightarrow> distinct (foldl student_step acc studs)"
  by (induction studs arbitrary: acc) (simp_all add: student_step_def)

lemma foldl_student_step_set:
  "set (foldl student_step acc studs) = set acc \<union> set (map student_id studs)"
  by (induction studs arbitrary: acc) (auto simp: student_step_def)

lemma getOrderedStudentIds_distinct: "distinct (getOrderedStudentIds studs sts)"
  by (simp add: getOrderedStudentIds_def foldl_student_step_distinct foldl_seat_step_distinct)

lemma getOrderedStudentIds_set:
  "set (getOrderedStudentIds studs sts) = set (map student_id studs)"
  using foldl_seat_step_set [of "map student_id studs" "[]" sts]
  by (auto simp: getOrderedStudentIds_def foldl_student_step_set)

section \<open>Layout reconciler: proofs\<close>

lemma three_rows_metrics:
  "capacity (getLayoutMetrics THREE_ROWS n) = 3 * metric_cols (getLayoutMetrics THREE_ROWS n)"
  "1 \<le> metric_cols (getLayoutMetrics THREE_ROWS n)"
  "metric_cols (getLayoutMetrics THREE_ROWS n) \<le> 12"
  by (simp_all add: getLayoutMetrics_def Let_def)

lemma capacity_nonneg: "0 \<le> capacity (getLayoutMetrics lm n)"
  by (cases lm) (simp_all add: getLayoutMetrics_def Let_def)

lemma withLayout_fields:
  "layoutMode (withLayout config lm studs) = lm"
  "rows (withLayout config lm studs) = metric_rows (getLayoutMetrics lm (int (length studs)))"
  "cols (withLayout config lm studs) = metric_cols (getLayoutMetrics lm (int (length studs)))"
  "rotationCount (withLayout config lm studs) = rotationCount config"
  "weekLabel (withLayout config lm studs) = weekLabel config"
  "classTime (withLayout config lm studs) = classTime config"
  by (simp_all add: withLayout_def Let_def)

lemma withLayout_seats_rows:
  assumes "lm \<noteq> ARC"
  shows "seats (withLayout config lm studs)
         = map Some (take (nat (capacity (getLayoutMetrics lm (int (length studs)))))
                       (getOrderedStudentIds studs (seats config)))
           @ replicate (nat (capacity (getLayoutMetrics lm (int (length studs))))
                        - length (getOrderedStudentIds studs (seats config))) None"
  using assms by (simp add: withLayout_def Let_def buildSeatsFromOrder_closed capacity_nonneg)

lemma withLayout_length_rows:
  assumes "lm \<noteq> ARC"
  shows "length (seats (withLayout config lm studs))
         = nat (capacity (getLayoutMetrics lm (int (length studs))))"
  unfolding withLayout_seats_rows [OF assms] by simp

section \<open>THREE_ROWS rotation: proofs\<close>

lemma refill_closed:
  "length rotated \<le> n \<Longrightarrow> refill rotated n = rotated @ replicate (n - length rotated) None"
  by (intro nth_equalityI) (simp_all add: refill_def nth_append)

lemma first_to_last_rotate1: "xs \<noteq> [] \<Longrightarrow> first_to_last xs = rotate1 xs"
  by (cases xs) (simp_all add: first_to_last_def)

lemma map_Some_occupants: "map Some (occupants xs) = filter (\<lambda>s. s \<noteq> None) xs"
  by (induction xs) (auto simp: occupants_def)

lemma length_occupants: "length (occupants xs) = length (filter (\<lambda>s. s \<noteq> None) xs)"
  by (simp add: occupants_def)

lemma rotate_block_spec: "rotate_block block = spec_shift_occupants block"
proof (cases "1 < length (filter (\<lambda>s. s \<noteq> None) block)")
  case True
  let ?ne = "filter (\<lambda>s. s \<noteq> None) block"
  have ne: "?ne \<noteq> []" using True by auto
  have len: "length (first_to_last ?ne) \<le> length block"
    using ne by (simp add: first_to_last_rotate1)
  have "first_to_last ?ne = map Some (rotate1 (occupants block))"
    using ne by (simp add: first_to_last_rotate1 rotate1_map [symmetric] map_Some_occupants)
  then show ?thesis
    using True len
    by (simp add: rotate_block_def spec_shift_occupants_def Let_def refill_closed length_occupants)
next
  case False
  then show ?thesis
    by (simp add: rotate_block_def spec_shift_occupants_def Let_def length_occupants)
qed

lemma length_rotate_block [simp]: "length (rotate_block block) = length block"
  by (simp add: rotate_block_def refill_def Let_def)

lemma rotatedRow_spec:
  assumes "0 \<le> cs" "(Suc r) * nat cs \<le> length sts"
  shows "rotatedRow sts cs r = spec_rotate_row sts (nat cs) r"
proof -
  let ?n = "nat cs"
  let ?L = "nat (ceil_div cs 2)"
  have "ceil_div cs 2 = (cs + 1) div 2"
    unfolding ceil_div_def by presburger
  then have L: "?L = (?n + 1) div 2" "?L \<le> ?n"
    using assms(1) by (simp_all add: nat_div_distrib nat_add_distrib)
  have start: "0 \<le> int r * cs" "nat (int r * cs) = r * ?n"
    using assms(1) by (simp_all add: nat_mult_distrib)
  have fits: "nat (int r * cs) + ?n \<le> length sts"
    using assms(2) start by simp
  have fitsL: "nat (int r * cs) + ?L \<le> length sts"
    using fits L(2) by arith
  have left: "map (\<lambda>c. seat_at sts (int r * cs + int c)) (filter (\<lambda>c. int c < ceil_div cs 2) [0..<?n])
              = take ?L (spec_row sts ?n r)"
    using L(2) block_read [OF start(1) fitsL]
    by (simp add: filter_less_upt spec_row_def start(2) min_def)
  have right: "map (\<lambda>c. seat_at sts (int r * cs + int c))
                 (filter (\<lambda>c. \<not> int c < ceil_div cs 2) [0..<?n])
               = drop ?L (spec_row sts ?n r)"
    using L(2) block_read_from [OF start(1) fits L(2)]
    by (simp add: filter_not_less_upt spec_row_def start(2) min_def)
  show ?thesis
    unfolding rotatedRow_def Let_def left right spec_rotate_row_def
    by (simp add: rotate_block_spec L(1))
qed

lemma length_spec_shift_occupants [simp]:
  "length (spec_shift_occupants block) = length block"
  using length_rotate_block [of block] by (simp add: rotate_block_spec)

lemma length_spec_rotate_row:
  "Suc r * cs \<le> length sts \<Longrightarrow> length (spec_rotate_row sts cs r) = cs"
  by (simp add: spec_rotate_row_def spec_row_def Let_def)

lemma write_three_rows:
  fixes a b c :: "string option list"
  assumes "length a = n" "length b = n" "length c = n"
  shows "foldl (\<lambda>sts row.
                  foldl (\<lambda>sts' k. array_set sts' (int row * int n + int k) ([a, b, c] ! row ! k))
                    sts [0..<n])
           (replicate (3 * n) None) [0..<3]
         = a @ b @ c"
proof -
  have nth: "\<And>xs. length xs = n \<Longrightarrow> map (\<lambda>k. xs ! k) [0..<n] = xs"
    by (auto intro: nth_equalityI)
  let ?s0 = "replicate (3 * n) (None :: string option)"
  have w0: "foldl (\<lambda>sts' k. array_set sts' (0 + int k) (a ! k)) ?s0 [0..<n]
            = a @ replicate (2 * n) None"
    using block_write [of 0 n ?s0 "\<lambda>k. a ! k"] nth [OF assms(1)] by simp
  have w1: "foldl (\<lambda>sts' k. array_set sts' (int n + int k) (b ! k)) (a @ replicate (2 * n) None) [0..<n]
            = a @ b @ replicate n None"
    using block_write [of "int n" n "a @ replicate (2 * n) None" "\<lambda>k. b ! k"] nth [OF assms(2)] assms(1)
    by simp
  have w2: "foldl (\<lambda>sts' k. array_set sts' (2 * int n + int k) (c ! k)) (a @ b @ replicate n None) [0..<n]
            = a @ b @ c"
    using block_write [of "2 * int n" n "a @ b @ replicate n None" "\<lambda>k. c ! k"] nth [OF assms(3)]
      assms(1,2)
    by (simp add: nat_mult_distrib)
  have three: "[0..<3] = [0, 1, 2]" by (simp add: upt_conv_Cons)
  show ?thesis
    using w0 w1 w2 by (simp add: three)
qed

lemma rotateThreeRows_spec:
  "rotateThreeRows config studs
   = (spec_rotateThreeRows config studs)\<lparr>rotationCount := js_increment (rotationCount config)\<rparr>"
proof -
  let ?norm = "withLayout config THREE_ROWS studs"
  let ?cs = "cols ?norm"
  let ?n = "nat ?cs"
  have cs: "1 \<le> ?cs" by (simp add: three_rows_metrics withLayout_fields)
  then have cs_n: "int ?n = ?cs" by simp
  have len: "length (seats ?norm) = 3 * ?n"
    using cs by (simp add: withLayout_length_rows three_rows_metrics nat_mult_distrib withLayout_fields)
  have row: "rotatedRow (seats ?norm) ?cs r = spec_rotate_row (seats ?norm) ?n r" if "r < 3" for r
    using that cs len by (intro rotatedRow_spec) simp_all
  have lens: "length (spec_rotate_row (seats ?norm) ?n r) = ?n" if "r < 3" for r
    using that len by (intro length_spec_rotate_row) simp
  have three: "[0..<3] = [0, 1, 2]" by (simp add: upt_conv_Cons)
  have rows: "map (rotatedRow (seats ?norm) ?cs) [0..<nat THREE_ROWS_count]
              = [spec_rotate_row (seats ?norm) ?n 0, spec_rotate_row (seats ?norm) ?n 1,
                 spec_rotate_row (seats ?norm) ?n 2]"
    by (simp add: three row)
  have empty: "createEmptySeats (int (length (seats ?norm))) = replicate (3 * ?n) None"
    using cs unfolding len by (simp add: createEmptySeats_def nat_mult_distrib)
  have wr: "foldl (\<lambda>sts row.
                  foldl (\<lambda>sts' k. array_set sts' (int row * ?cs + int k)
                           ([spec_rotate_row (seats ?norm) ?n 1, spec_rotate_row (seats ?norm) ?n 2,
                             spec_rotate_row (seats ?norm) ?n 0] ! row ! k))
                    sts [0..<?n])
                (replicate (3 * ?n) None) [0..<3]
               = spec_rotate_row (seats ?norm) ?n 1 @ spec_rotate_row (seats ?norm) ?n 2
                 @ spec_rotate_row (seats ?norm) ?n 0"
    using write_three_rows [of "spec_rotate_row (seats ?norm) ?n 1" ?n
            "spec_rotate_row (seats ?norm) ?n 2" "spec_rotate_row (seats ?norm) ?n 0"]
      lens
    by (simp only: cs_n)
  show ?thesis
    unfolding rotateThreeRows_def spec_rotateThreeRows_def Let_def rows empty
    using wr by (simp add: withLayout_fields)
qed

lemma config_of_set_config [simp]: "config_of (set_config c tm cfg) tm = cfg"
  by (cases tm) simp_all

lemma config_of_updatedAt [simp]: "config_of (c\<lparr>updatedAt := t\<rparr>) tm = config_of c tm"
  by (cases tm) simp_all

text \<open>
  C2, as the code has it. The THREE_ROWS rotation, after the config is reconciled to its
  own layout, is the two steps of the specification: in each of the three rows the
  non-empty occupants of the left half (\<open>\<lceil>cols / 2\<rceil>\<close> seats) and of the right half are each
  shifted cyclically by one position, first to last; then the rows are shifted, new row 0
  being old row 1, new row 1 old row 2 and new row 2 old row 0. The rotation count
  becomes \<^verbatim>\<open>rotationCount + 1\<close> as doubles add, which is exactly one more whenever the
  count is a safe integer, as every count is that the rotations themselves made from 0.
  \<open>rotateSeatsOnce\<close> does this on a THREE_ROWS config whenever its guard lets the rotation
  run.
\<close>

theorem three_rows_rotation:
  "rotateThreeRows config studs
     = (spec_rotateThreeRows config studs)\<lparr>rotationCount := js_increment (rotationCount config)\<rparr>
   \<and> spec_row (seats (rotateThreeRows config studs))
         (nat (cols (withLayout config THREE_ROWS studs))) 0
       = spec_rotate_row (seats (withLayout config THREE_ROWS studs))
           (nat (cols (withLayout config THREE_ROWS studs))) 1
   \<and> spec_row (seats (rotateThreeRows config studs))
         (nat (cols (withLayout config THREE_ROWS studs))) 1
       = spec_rotate_row (seats (withLayout config THREE_ROWS studs))
           (nat (cols (withLayout config THREE_ROWS studs))) 2
   \<and> spec_row (seats (rotateThreeRows config studs))
         (nat (cols (withLayout config THREE_ROWS studs))) 2
       = spec_rotate_row (seats (withLayout config THREE_ROWS studs))
           (nat (cols (withLayout config THREE_ROWS studs))) 0
   \<and> (isSafeInteger (rotationCount config) \<longrightarrow>
        rotationCount (rotateThreeRows config studs) = rotationCount config + 1
        \<and> rotateThreeRows config studs = spec_rotateThreeRows config studs)
   \<and> (layoutMode (config_of c tm) = THREE_ROWS \<and> 1 < getAssignedCount (config_of c tm) \<longrightarrow>
        config_of (rotateSeatsOnce now c tm) tm = rotateThreeRows (config_of c tm) (students c))
   \<and> (layoutMode (config_of c tm) = THREE_ROWS \<and> 1 < getAssignedCount (config_of c tm)
      \<and> isSafeInteger (rotationCount (config_of c tm)) \<longrightarrow>
        config_of (rotateSeatsOnce now c tm) tm
        = spec_rotateThreeRows (config_of c tm) (students c))"
proof -
  let ?norm = "withLayout config THREE_ROWS studs"
  let ?n = "nat (cols ?norm)"
  have cs: "1 \<le> cols ?norm" by (simp add: three_rows_metrics withLayout_fields)
  have len: "length (seats ?norm) = 3 * ?n"
    using cs by (simp add: withLayout_length_rows three_rows_metrics nat_mult_distrib withLayout_fields)
  have lens: "length (spec_rotate_row (seats ?norm) ?n r) = ?n" if "r < 3" for r
    using that len by (intro length_spec_rotate_row) simp
  have sts: "seats (rotateThreeRows config studs)
             = spec_rotate_row (seats ?norm) ?n 1 @ spec_rotate_row (seats ?norm) ?n 2
               @ spec_rotate_row (seats ?norm) ?n 0"
    by (simp add: rotateThreeRows_spec spec_rotateThreeRows_def Let_def)
  have r0: "spec_row (seats (rotateThreeRows config studs)) ?n 0 = spec_rotate_row (seats ?norm) ?n 1"
    unfolding sts spec_row_def using lens [of 1] by simp
  have r1: "spec_row (seats (rotateThreeRows config studs)) ?n 1 = spec_rotate_row (seats ?norm) ?n 2"
    unfolding sts spec_row_def using lens [of 1] lens [of 2] by simp
  have r2: "spec_row (seats (rotateThreeRows config studs)) ?n 2 = spec_rotate_row (seats ?norm) ?n 0"
    unfolding sts spec_row_def using lens [of 1] lens [of 2] lens [of 0] by simp
  have same: "rotateThreeRows cfg sl = spec_rotateThreeRows cfg sl"
    if "isSafeInteger (rotationCount cfg)" for cfg sl
    unfolding rotateThreeRows_spec
    by (simp add: spec_rotateThreeRows_def Let_def withLayout_fields js_increment_safe [OF that])
  have cnt: "rotationCount (rotateThreeRows config studs) = rotationCount config + 1"
    if "isSafeInteger (rotationCount config)"
    by (simp add: rotateThreeRows_def Let_def withLayout_fields js_increment_safe [OF that])
  have disp: "config_of (rotateSeatsOnce now c tm) tm
              = spec_rotateThreeRows (config_of c tm) (students c)"
    if "layoutMode (config_of c tm) = THREE_ROWS \<and> 1 < getAssignedCount (config_of c tm)
        \<and> isSafeInteger (rotationCount (config_of c tm))"
    using that same [of "config_of c tm" "students c"]
    by (simp add: rotateSeatsOnce_def Let_def)
  have call: "config_of (rotateSeatsOnce now c tm) tm
              = rotateThreeRows (config_of c tm) (students c)"
    if "layoutMode (config_of c tm) = THREE_ROWS \<and> 1 < getAssignedCount (config_of c tm)"
    using that by (simp add: rotateSeatsOnce_def Let_def)
  show ?thesis
    using rotateThreeRows_spec [of config studs] r0 r1 r2 cnt same [of config studs] call disp
    by blast
qed

theorem three_rows_rotation_witness:
  "layoutMode (config_of example_three_rows Weekday) = THREE_ROWS
   \<and> 1 < getAssignedCount (config_of example_three_rows Weekday)
   \<and> isSafeInteger (rotationCount (config_of example_three_rows Weekday))
   \<and> seats (config_of example_three_rows Weekday)
       = [Some ''si'', Some ''sii'', Some ''siii'',
          Some ''siiii'', Some ''siiiii'', Some ''siiiiii'',
          Some ''siiiiiii'', None, None]
   \<and> seats (config_of (rotateSeatsOnce ''t3'' example_three_rows Weekday) Weekday)
       = [Some ''siiiii'', Some ''siiii'', Some ''siiiiii'',
          Some ''siiiiiii'', None, None,
          Some ''sii'', Some ''si'', Some ''siii'']
   \<and> rotationCount (config_of example_three_rows Weekday) = 0
   \<and> rotationCount (rotateThreeRows (config_of example_three_rows Weekday)
                       (students example_three_rows)) = 1
   \<and> rotationCount (config_of (rotateSeatsOnce ''t3'' example_three_rows Weekday) Weekday) = 1"
proof -
  have a: "layoutMode (config_of example_three_rows Weekday) = THREE_ROWS" by code_simp
  have b: "1 < getAssignedCount (config_of example_three_rows Weekday)" by code_simp
  have c: "seats (config_of example_three_rows Weekday)
       = [Some ''si'', Some ''sii'', Some ''siii'',
          Some ''siiii'', Some ''siiiii'', Some ''siiiiii'',
          Some ''siiiiiii'', None, None]" by code_simp
  have d: "seats (spec_rotateThreeRows (config_of example_three_rows Weekday)
                    (students example_three_rows))
       = [Some ''siiiii'', Some ''siiii'', Some ''siiiiii'',
          Some ''siiiiiii'', None, None,
          Some ''sii'', Some ''si'', Some ''siii'']" by code_simp
  have e: "rotationCount (spec_rotateThreeRows (config_of example_three_rows Weekday)
                    (students example_three_rows)) = 1" by code_simp
  have f: "rotationCount (config_of example_three_rows Weekday) = 0" by code_simp
  have g: "isSafeInteger (rotationCount (config_of example_three_rows Weekday))"
    unfolding f by code_simp
  note rotation = three_rows_rotation
      [where config = "config_of example_three_rows Weekday"
         and studs = "students example_three_rows"
         and c = example_three_rows and tm = Weekday and now = "''t3''"]
  from rotation g
  have cnt: "rotationCount (rotateThreeRows (config_of example_three_rows Weekday)
                              (students example_three_rows))
             = rotationCount (config_of example_three_rows Weekday) + 1"
    by blast
  from rotation a b g
  have disp: "config_of (rotateSeatsOnce ''t3'' example_three_rows Weekday) Weekday
              = spec_rotateThreeRows (config_of example_three_rows Weekday)
                  (students example_three_rows)"
    by blast
  show ?thesis
    unfolding disp cnt using a b c d e f g by simp
qed

text \<open>
  The rotation count of a backup need not be a safe integer. At \<open>2\<^sup>5\<^sup>3\<close> the rotation of a
  THREE_ROWS config moves the seats and leaves the count as it was.
\<close>

theorem rotation_count_stuck_at_2_53:
  "normalizeClassroom ''t0'' (\<lambda>s. True)
     (JObj [(''id'', JStr ''c4''), (''name'', JStr ''Count''),
            (''students'', JArr [JObj [(''id'', JStr ''a''), (''name'', JStr ''Ann'')],
                                 JObj [(''id'', JStr ''b''), (''name'', JStr ''Ben'')]]),
            (''weekday'', JObj [(''layoutMode'', JStr ''THREE_ROWS''),
                                (''rotationCount'', JNum 9007199254740992)])])
     = Some example_big_count
   \<and> layoutMode (weekday example_big_count) = THREE_ROWS
   \<and> getAssignedCount (weekday example_big_count) = 2
   \<and> rotationCount (weekday example_big_count) = 9007199254740992
   \<and> seats (weekday example_big_count) = [Some ''a'', Some ''b'', None]
   \<and> seats (weekday (rotateSeatsOnce ''t1'' example_big_count Weekday))
       = [Some ''b'', None, Some ''a'']
   \<and> rotationCount (rotateThreeRows (weekday example_big_count) (students example_big_count))
       = 9007199254740992
   \<and> rotationCount (weekday (rotateSeatsOnce ''t1'' example_big_count Weekday))
       = 9007199254740992
   \<and> rotationCount (weekday (rotateSeatsOnce ''t1'' example_big_count Weekday))
       \<noteq> rotationCount (weekday example_big_count) + 1"
  by code_simp

section \<open>Occupants: proofs\<close>

lemma occupants_simps [simp]:
  "occupants [] = []"
  "occupants (None # xs) = occupants xs"
  "occupants (Some a # xs) = a # occupants xs"
  "occupants (xs @ ys) = occupants xs @ occupants ys"
  "occupants (replicate n None) = []"
  "occupants (map Some ids) = ids"
  by (simp_all add: occupants_def filter_map comp_def)

lemma occupants_Cons: "occupants (x # xs) = (case x of None \<Rightarrow> occupants xs | Some a \<Rightarrow> a # occupants xs)"
  by (cases x) simp_all

lemma mset_occupants: "mset (occupants xs) = image_mset the (filter_mset (\<lambda>s. s \<noteq> None) (mset xs))"
  by (simp add: occupants_def)

lemma mset_occupants_cong: "mset xs = mset ys \<Longrightarrow> mset (occupants xs) = mset (occupants ys)"
  by (simp add: mset_occupants)

lemma distinct_occupants_cong:
  "mset xs = mset ys \<Longrightarrow> distinct (occupants xs) = distinct (occupants ys)"
  by (rule mset_eq_imp_distinct_iff) (rule mset_occupants_cong)

lemma set_occupants_update_None: "set (occupants (xs[k := None])) \<subseteq> set (occupants xs)"
  by (induction xs arbitrary: k) (auto simp: occupants_Cons split: option.splits nat.splits)

lemma distinct_occupants_update_None:
  "distinct (occupants xs) \<Longrightarrow> distinct (occupants (xs[k := None]))"
proof (induction xs arbitrary: k)
  case Nil
  then show ?case by simp
next
  case (Cons x xs)
  show ?case
  proof (cases k)
    case 0
    with Cons.prems show ?thesis by (cases x) simp_all
  next
    case (Suc j)
    with Cons set_occupants_update_None [of xs j] show ?thesis
      by (cases x) auto
  qed
qed

lemma set_occupants_update_Some:
  "set (occupants (xs[k := Some v])) \<subseteq> insert v (set (occupants xs))"
  by (induction xs arbitrary: k) (auto simp: occupants_Cons split: option.splits nat.splits)

lemma distinct_occupants_update_Some:
  "distinct (occupants xs) \<Longrightarrow> v \<notin> set (occupants xs) \<Longrightarrow> distinct (occupants (xs[k := Some v]))"
proof (induction xs arbitrary: k)
  case Nil
  then show ?case by simp
next
  case (Cons x xs)
  show ?case
  proof (cases k)
    case 0
    with Cons.prems show ?thesis by (cases x) simp_all
  next
    case (Suc j)
    with Cons set_occupants_update_Some [of xs j v] show ?thesis
      by (cases x) auto
  qed
qed

lemma mset_occupants_update_empty:
  "i < length xs \<Longrightarrow> xs ! i = None \<Longrightarrow>
   mset (occupants (xs[i := Some v])) = add_mset v (mset (occupants xs))"
proof (induction xs arbitrary: i)
  case Nil
  then show ?case by simp
next
  case (Cons x xs)
  then show ?case
    by (cases i; cases x) simp_all
qed

lemma occupants_remove: 
  "occupants (map (\<lambda>seat. if seat = Some v then None else seat) xs) = filter (\<lambda>a. a \<noteq> v) (occupants xs)"
  by (induction xs) (auto simp: occupants_Cons split: option.splits)

section \<open>Seat uniqueness: the single-seat operations\<close>

lemma array_set_guarded:
  assumes "\<not> (k < 0 \<or> int (length xs) \<le> k)"
  shows "array_set xs k v = xs[nat k := v]"
proof -
  have "0 \<le> k" "nat k < length xs" using assms by arith+
  then show ?thesis by (simp add: array_set_def)
qed

lemma swap_mset:
  assumes "\<not> (i < 0 \<or> j < 0 \<or> int (length xs) \<le> i \<or> int (length xs) \<le> j)"
  shows "mset (array_set (array_set xs i (seat_at xs j)) j (seat_at xs i)) = mset xs"
proof -
  have i: "nat i < length xs" "0 \<le> i" and j: "nat j < length xs" "0 \<le> j"
    using assms by arith+
  have "array_set (array_set xs i (seat_at xs j)) j (seat_at xs i)
        = xs[nat i := xs ! nat j, nat j := xs ! nat i]"
    using i j by (simp add: array_set_def seat_at_def)
  then show ?thesis
    using mset_swap [OF j(1) i(1)] by simp
qed

lemma swapSeatAssignments_unique:
  assumes "distinct (occupants (seats (config_of c tm')))"
  shows "distinct (occupants (seats (config_of (swapSeatAssignments now c i j tm) tm')))"
proof (cases "i = j \<or> i < 0 \<or> j < 0 \<or> int (length (seats (config_of c tm))) \<le> i
              \<or> int (length (seats (config_of c tm))) \<le> j")
  case True
  then show ?thesis using assms by (simp add: swapSeatAssignments_def)
next
  case False
  then have g: "\<not> (i < 0 \<or> j < 0 \<or> int (length (seats (config_of c tm))) \<le> i
              \<or> int (length (seats (config_of c tm))) \<le> j)" by simp
  show ?thesis
    using False assms distinct_occupants_cong [OF swap_mset [OF g]]
    by (cases tm; cases tm') (simp_all add: swapSeatAssignments_def Let_def)
qed

lemma clearSeat_unique:
  assumes "distinct (occupants (seats (config_of c tm')))"
  shows "distinct (occupants (seats (config_of (clearSeat now c k tm) tm')))"
proof (cases "k < 0 \<or> int (length (seats (config_of c tm))) \<le> k")
  case True
  then show ?thesis using assms by (simp add: clearSeat_def)
next
  case False
  show ?thesis
    using False assms distinct_occupants_update_None
    by (cases tm; cases tm') (simp_all add: clearSeat_def Let_def array_set_guarded)
qed

lemma placeStudentInSeat_unique:
  assumes "distinct (occupants (seats (config_of c tm')))"
  shows "distinct (occupants (seats (config_of (placeStudentInSeat now c sid k tm) tm')))"
proof (cases "k < 0 \<or> int (length (seats (config_of c tm))) \<le> k
              \<or> sid \<notin> set (map student_id (students c))")
  case True
  then show ?thesis using assms by (auto simp add: placeStudentInSeat_def Let_def)
next
  case False
  let ?f = "\<lambda>seat. if seat = Some sid then None else seat"
  have g: "\<not> (k < 0 \<or> int (length (map ?f (seats (config_of c tm)))) \<le> k)"
    using False by simp
  have d: "distinct (occupants (array_set (map ?f (seats (config_of c tm'))) k (Some sid)))"
    if "tm' = tm"
    using that g assms
    by (simp add: array_set_guarded [OF g] distinct_occupants_update_Some occupants_remove)
  show ?thesis
    using False assms d
    by (cases tm; cases tm') (simp_all add: placeStudentInSeat_def Let_def)
qed

section \<open>Centred placement: occupants\<close>

lemma centerColumn_inj:
  assumes "int j < rowWidth" "int k < rowWidth" "centerColumn rowWidth j = centerColumn rowWidth k"
  shows "j = k"
proof -
  have "even j = even k"
    using assms unfolding centerColumn_def Let_def
    by (cases "even j"; cases "even k") (simp_all; presburger)+
  moreover have "j div 2 = k div 2"
    using assms \<open>even j = even k\<close> unfolding centerColumn_def Let_def
    by (cases "even j") simp_all
  ultimately show ?thesis
    by presburger
qed

lemma placeCentered_steps:
  assumes start: "0 \<le> startIndex" and fits: "startIndex + rowWidth \<le> int (length sts)"
    and empty: "\<And>i. nat startIndex \<le> i \<Longrightarrow> int i < startIndex + rowWidth \<Longrightarrow> sts ! i = None"
    and n: "n \<le> length studentIds" "int n \<le> rowWidth"
  shows "length (foldl (place_at studentIds startIndex rowWidth) sts [0..<n]) = length sts
       \<and> (\<forall>i<length sts. (\<forall>k<n. i \<noteq> nat (startIndex + centerColumn rowWidth k)) \<longrightarrow>
             foldl (place_at studentIds startIndex rowWidth) sts [0..<n] ! i = sts ! i)
       \<and> mset (occupants (foldl (place_at studentIds startIndex rowWidth) sts [0..<n]))
           = mset (occupants sts) + mset (take n studentIds)"
  using n
proof (induction n)
  case 0
  then show ?case by simp
next
  case (Suc n)
  let ?r = "foldl (place_at studentIds startIndex rowWidth) sts [0..<n]"
  let ?p = "\<lambda>k. nat (startIndex + centerColumn rowWidth k)"
  have IH: "length ?r = length sts"
    "\<And>i. i < length sts \<Longrightarrow> (\<forall>k<n. i \<noteq> ?p k) \<Longrightarrow> ?r ! i = sts ! i"
    "mset (occupants ?r) = mset (occupants sts) + mset (take n studentIds)"
    using Suc by simp_all
  have n_lt: "int n < rowWidth" "n < length studentIds" using Suc.prems by simp_all
  have col: "0 \<le> centerColumn rowWidth n" "centerColumn rowWidth n < rowWidth"
    using centerColumn_range [OF n_lt(1)] by simp_all
  have p_in: "?p n < length sts" "nat startIndex \<le> ?p n" "int (?p n) < startIndex + rowWidth"
    using col start fits by simp_all
  have fresh: "\<forall>k<n. ?p n \<noteq> ?p k"
  proof (intro allI impI notI)
    fix k assume k: "k < n" and eq: "?p n = ?p k"
    have k_lt: "int k < rowWidth" using k n_lt by arith
    have "0 \<le> centerColumn rowWidth k" using centerColumn_range [OF k_lt] by simp
    with eq col start have "centerColumn rowWidth n = centerColumn rowWidth k" by simp
    from centerColumn_inj [OF n_lt(1) k_lt this] k show False by simp
  qed
  have none: "?r ! ?p n = None"
    using IH(2) [OF p_in(1) fresh] empty [OF p_in(2,3)] by simp
  have step: "foldl (place_at studentIds startIndex rowWidth) sts [0..<Suc n]
              = ?r[?p n := Some (studentIds ! n)]"
    by (simp add: place_at_def)
  have len: "length (?r[?p n := Some (studentIds ! n)]) = length sts"
    using IH(1) by simp
  have outside: "\<forall>i<length sts. (\<forall>k<Suc n. i \<noteq> ?p k) \<longrightarrow>
                   ?r[?p n := Some (studentIds ! n)] ! i = sts ! i"
  proof (intro allI impI)
    fix i assume i: "i < length sts" and nk: "\<forall>k<Suc n. i \<noteq> ?p k"
    then have "i \<noteq> ?p n" and "\<forall>k<n. i \<noteq> ?p k" by simp_all
    then show "?r[?p n := Some (studentIds ! n)] ! i = sts ! i"
      using IH(2) [OF i] by simp
  qed
  have ms: "mset (occupants (?r[?p n := Some (studentIds ! n)]))
            = mset (occupants sts) + mset (take (Suc n) studentIds)"
    using mset_occupants_update_empty [of "?p n" ?r "studentIds ! n"] p_in(1) IH(1,3) none n_lt(2)
    by (simp add: take_Suc_conv_app_nth)
  show ?case
    unfolding step using len outside ms by blast
qed

lemma placeCentered_props:
  assumes start: "0 \<le> startIndex" and fits: "startIndex + rowWidth \<le> int (length sts)"
    and empty: "\<And>i. nat startIndex \<le> i \<Longrightarrow> int i < startIndex + rowWidth \<Longrightarrow> sts ! i = None"
  shows placeCentered_length: "length (placeCentered sts studentIds startIndex rowWidth) = length sts"
    and placeCentered_outside:
      "\<And>i. i < length sts \<Longrightarrow> i < nat startIndex \<or> startIndex + rowWidth \<le> int i \<Longrightarrow>
         placeCentered sts studentIds startIndex rowWidth ! i = sts ! i"
    and placeCentered_mset:
      "mset (occupants (placeCentered sts studentIds startIndex rowWidth))
       = mset (occupants sts) + mset (take (nat rowWidth) studentIds)"
proof -
  let ?n = "min (length studentIds) (nat rowWidth)"
  have n: "?n \<le> length studentIds" "int ?n \<le> rowWidth \<or> ?n = 0" by auto
  have closed: "placeCentered sts studentIds startIndex rowWidth
                = foldl (place_at studentIds startIndex rowWidth) sts [0..<?n]"
    by (rule placeCentered_closed [OF start fits])
  show "length (placeCentered sts studentIds startIndex rowWidth) = length sts"
  proof (cases "?n = 0")
    case True
    then show ?thesis by (simp add: closed)
  next
    case False
    with n have "int ?n \<le> rowWidth" by simp
    from placeCentered_steps [OF start fits empty n(1) this] show ?thesis
      by (simp add: closed)
  qed
  show "mset (occupants (placeCentered sts studentIds startIndex rowWidth))
       = mset (occupants sts) + mset (take (nat rowWidth) studentIds)"
  proof (cases "?n = 0")
    case True
    then show ?thesis by (auto simp add: closed min_def split: if_splits)
  next
    case False
    with n have "int ?n \<le> rowWidth" by simp
    from placeCentered_steps [OF start fits empty n(1) this] show ?thesis
      by (simp add: closed min_def)
  qed
  fix i
  assume i: "i < length sts" "i < nat startIndex \<or> startIndex + rowWidth \<le> int i"
  show "placeCentered sts studentIds startIndex rowWidth ! i = sts ! i"
  proof (cases "?n = 0")
    case True
    then show ?thesis by (simp add: closed)
  next
    case False
    with n have le: "int ?n \<le> rowWidth" by simp
    have "\<forall>k<?n. i \<noteq> nat (startIndex + centerColumn rowWidth k)"
    proof (intro allI impI notI)
      fix k assume k: "k < ?n" and eq: "i = nat (startIndex + centerColumn rowWidth k)"
      have "int k < rowWidth" using k le by arith
      from centerColumn_range [OF this] eq i(2) start show False by arith
    qed
    with placeCentered_steps [OF start fits empty n(1) le] i(1) show ?thesis
      by (simp add: closed)
  qed
qed

section \<open>Layout reconciler: occupants\<close>

lemma half_up_eq: "half_up n = (n + 1) div 2"
proof -
  have "ceil_div (int n) 2 = (int n + 1) div 2"
    unfolding ceil_div_def by presburger
  then show ?thesis
    by (simp add: half_up_def nat_div_distrib nat_add_distrib)
qed

text \<open>The two rows of the ARC layout, each filled from its centre.\<close>

lemma two_rows_props:
  fixes A B :: "string list"
  defines "r \<equiv> placeCentered (placeCentered (replicate 36 None) A 0 18) B 18 18"
  shows two_rows_length: "length r = 36"
    and two_rows_mset: "mset (occupants r) = mset (take 18 A) + mset (take 18 B)"
proof -
  let ?s0 = "replicate 36 (None :: string option)"
  let ?s1 = "placeCentered ?s0 A 0 18"
  have e0: "\<And>i. nat 0 \<le> i \<Longrightarrow> int i < 0 + 18 \<Longrightarrow> ?s0 ! i = None" by simp
  have f0: "(0::int) + 18 \<le> int (length ?s0)" by simp
  have len1: "length ?s1 = 36"
    using placeCentered_length [OF _ f0 e0, of A] by simp
  have out1: "?s1 ! i = None" if "18 \<le> i" "i < 36" for i
    using placeCentered_outside [OF _ f0 e0, of i A] that by simp
  have ms1: "mset (occupants ?s1) = mset (take 18 A)"
    using placeCentered_mset [OF _ f0 e0, of A] by simp
  have e1: "\<And>i. nat 18 \<le> i \<Longrightarrow> int i < 18 + 18 \<Longrightarrow> ?s1 ! i = None"
    using out1 by simp
  have f1: "(18::int) + 18 \<le> int (length ?s1)" using len1 by simp
  show "length r = 36"
    unfolding r_def using placeCentered_length [OF _ f1 e1, of B] len1 by simp
  show "mset (occupants r) = mset (take 18 A) + mset (take 18 B)"
    unfolding r_def using placeCentered_mset [OF _ f1 e1, of B] ms1 by simp
qed

lemma arc_fill_props:
  fixes ids :: "string list" and h :: nat
  defines "r \<equiv> placeCentered (placeCentered (replicate 36 None) (take h ids) 0 18) (drop h ids) 18 18"
  shows arc_fill_length: "length r = 36"
    and arc_fill_mset: "mset (occupants r) = mset (take 18 (take h ids)) + mset (take 18 (drop h ids))"
  unfolding r_def by (rule two_rows_length two_rows_mset)+

lemma distinct_take_drop_parts:
  assumes "distinct ids"
  shows "distinct (take m (take h ids) @ take m (drop h ids))"
proof -
  have "distinct (take h ids @ drop h ids)" using assms by simp
  then have a: "distinct (take h ids)" and b: "distinct (drop h ids)"
    and c: "set (take h ids) \<inter> set (drop h ids) = {}"
    by (simp_all only: distinct_append)
  have da: "distinct (take m (take h ids))" using a by (rule distinct_take)
  have db: "distinct (take m (drop h ids))" using b by (rule distinct_take)
  have sa: "set (take m (take h ids)) \<subseteq> set (take h ids)" by (rule set_take_subset)
  have sb: "set (take m (drop h ids)) \<subseteq> set (drop h ids)" by (rule set_take_subset)
  have "set (take m (take h ids)) \<inter> set (take m (drop h ids)) = {}"
    using c sa sb by blast
  with da db show ?thesis
    by (simp only: distinct_append simp_thms)
qed

lemma arc_fill_distinct:
  assumes "distinct ids"
  shows "distinct (occupants (placeCentered (placeCentered (replicate 36 None) (take h ids) 0 18)
                               (drop h ids) 18 18))"
proof -
  have "mset (occupants (placeCentered (placeCentered (replicate 36 None) (take h ids) 0 18)
                               (drop h ids) 18 18))
        = mset (take 18 (take h ids) @ take 18 (drop h ids))"
    by (simp add: arc_fill_mset)
  from mset_eq_imp_distinct_iff [OF this] distinct_take_drop_parts [OF assms]
  show ?thesis by simp
qed

lemma arc_fill_all:
  assumes "length ids \<le> 36"
  shows "mset (occupants (placeCentered (placeCentered (replicate 36 None)
                                           (take (half_up (length ids)) ids) 0 18)
                            (drop (half_up (length ids)) ids) 18 18))
         = mset ids"
proof -
  let ?h = "half_up (length ids)"
  have "?h \<le> 18" "length ids - ?h \<le> 18"
    using assms unfolding half_up_eq by arith+
  then have "take 18 (take ?h ids) = take ?h ids" "take 18 (drop ?h ids) = drop ?h ids"
    by (simp_all add: min_def)
  then have "mset (take 18 (take ?h ids)) + mset (take 18 (drop ?h ids))
             = mset (take ?h ids @ drop ?h ids)"
    by (simp only: mset_append)
  then show ?thesis
    by (simp only: arc_fill_mset append_take_drop_id)
qed

lemma arc_metrics:
  "capacity (getLayoutMetrics ARC n) = 36"
  by (simp add: getLayoutMetrics_def)

lemma createEmptySeats_36: "createEmptySeats 36 = replicate 36 None"
  by (simp add: createEmptySeats_def)

lemma withLayout_seats_arc:
  "seats (withLayout config ARC studs)
   = placeCentered
       (placeCentered (replicate 36 None)
          (take (half_up (length (getOrderedStudentIds studs (seats config))))
             (getOrderedStudentIds studs (seats config))) 0 18)
       (drop (half_up (length (getOrderedStudentIds studs (seats config))))
          (getOrderedStudentIds studs (seats config))) 18 18"
  by (simp add: withLayout_def Let_def arc_metrics createEmptySeats_36)

lemma withLayout_length:
  "length (seats (withLayout config lm studs))
   = nat (capacity (getLayoutMetrics lm (int (length studs))))"
proof (cases "lm = ARC")
  case True
  then show ?thesis
    by (simp only: withLayout_seats_arc arc_fill_length arc_metrics)
next
  case False
  then show ?thesis by (rule withLayout_length_rows)
qed

lemma withLayout_distinct: "distinct (occupants (seats (withLayout config lm studs)))"
proof (cases "lm = ARC")
  case True
  then show ?thesis
    by (simp only: withLayout_seats_arc arc_fill_distinct [OF getOrderedStudentIds_distinct])
next
  case False
  then show ?thesis
    by (simp add: withLayout_seats_rows getOrderedStudentIds_distinct distinct_take)
qed

lemma getOrderedStudentIds_length: "length (getOrderedStudentIds studs sts) \<le> length studs"
proof -
  have "length (getOrderedStudentIds studs sts) = card (set (getOrderedStudentIds studs sts))"
    using getOrderedStudentIds_distinct by (simp add: distinct_card)
  also have "\<dots> = card (set (map student_id studs))"
    by (simp only: getOrderedStudentIds_set)
  also have "\<dots> \<le> length (map student_id studs)"
    by (rule card_length)
  finally show ?thesis by simp
qed

lemma withLayout_occupants_set:
  assumes "int (length studs) \<le> capacity (getLayoutMetrics lm (int (length studs)))"
  shows "set (occupants (seats (withLayout config lm studs))) = set (map student_id studs)"
proof (cases "lm = ARC")
  case True
  let ?ids = "getOrderedStudentIds studs (seats config)"
  have "length ?ids \<le> 36"
    using assms getOrderedStudentIds_length [of studs "seats config"] True
    by (simp add: arc_metrics)
  from arc_fill_all [OF this]
  have "mset (occupants (seats (withLayout config lm studs))) = mset ?ids"
    using True by (simp only: withLayout_seats_arc)
  then have "set (occupants (seats (withLayout config lm studs))) = set ?ids"
    by (rule mset_eq_setD)
  then show ?thesis by (simp only: getOrderedStudentIds_set)
next
  case False
  let ?ids = "getOrderedStudentIds studs (seats config)"
  have "length ?ids \<le> nat (capacity (getLayoutMetrics lm (int (length studs))))"
    using assms getOrderedStudentIds_length [of studs "seats config"] by simp
  then have "take (nat (capacity (getLayoutMetrics lm (int (length studs))))) ?ids = ?ids"
    by simp
  then show ?thesis
    using False by (simp add: withLayout_seats_rows getOrderedStudentIds_set)
qed

section \<open>Rotation engine: occupants\<close>

lemma mset_rotate1 [simp]: "mset (rotate1 xs) = mset xs"
  by (cases xs) simp_all

lemma occupants_spec_shift: "mset (occupants (spec_shift_occupants block)) = mset (occupants block)"
  by (simp add: spec_shift_occupants_def Let_def)

lemma occupants_rotate_block: "mset (occupants (rotate_block block)) = mset (occupants block)"
  by (simp add: rotate_block_spec occupants_spec_shift)

text \<open>The group rotation rewrites the six seats of one group and nothing else.\<close>

lemma rotateGroup_closed:
  assumes "g * 6 + 6 \<le> length xs"
  shows "rotateGroup xs g = take (g * 6) xs @ rotate_block (take 6 (drop (g * 6) xs)) @ drop (g * 6 + 6) xs"
proof -
  let ?b = "int g * GROUP_CAPACITY"
  have b: "0 \<le> ?b" "nat ?b = g * 6" by (simp_all add: nat_mult_distrib)
  have fits: "nat ?b + 6 \<le> length xs" using assms b by simp
  let ?block = "take 6 (drop (g * 6) xs)"
  have six: "nat GROUP_CAPACITY = 6" by simp
  have rd: "map (\<lambda>i. seat_at xs (?b + int i)) [0..<nat GROUP_CAPACITY] = ?block"
    using block_read [OF b(1) fits] by (simp only: six b(2))
  have len: "length ?block = 6" using assms by simp
  show ?thesis
  proof (cases "1 < length (filter (\<lambda>s. s \<noteq> None) ?block)")
    case True
    let ?rot = "first_to_last (filter (\<lambda>s. s \<noteq> None) ?block)"
    have wr: "foldl (\<lambda>sts i. array_set sts (?b + int i) (if i < length ?rot then ?rot ! i else None))
                xs [0..<nat GROUP_CAPACITY]
              = take (g * 6) xs @ refill ?rot 6 @ drop (g * 6 + 6) xs"
      using block_write [OF b(1) fits, of "\<lambda>i. if i < length ?rot then ?rot ! i else None"]
      by (simp only: six b(2) refill_def)
    have "rotate_block ?block = refill ?rot (length ?block)"
      using True by (simp only: rotate_block_def Let_def if_True)
    then have "rotate_block ?block = refill ?rot 6"
      by (simp only: len)
    then show ?thesis
      using True wr unfolding rotateGroup_def Let_def rd by simp
  next
    case False
    then have "rotate_block ?block = ?block" by (simp add: rotate_block_def Let_def)
    moreover have "take (g * 6) xs @ ?block @ drop (g * 6 + 6) xs = xs"
      by (simp only: append_assoc [symmetric] take_add [symmetric] append_take_drop_id)
    ultimately show ?thesis
      using False unfolding rotateGroup_def Let_def rd by simp
  qed
qed

lemma rotateGroup_props:
  assumes "g * 6 + 6 \<le> length xs"
  shows "length (rotateGroup xs g) = length xs"
    and "mset (occupants (rotateGroup xs g)) = mset (occupants xs)"
proof -
  let ?block = "take 6 (drop (g * 6) xs)"
  have xs: "xs = take (g * 6) xs @ ?block @ drop (g * 6 + 6) xs"
    by (simp only: append_assoc [symmetric] take_add [symmetric] append_take_drop_id)
  show "length (rotateGroup xs g) = length xs"
    using assms by (simp add: rotateGroup_closed)
  have "mset (occupants (rotateGroup xs g))
        = mset (occupants (take (g * 6) xs)) + mset (occupants ?block)
          + mset (occupants (drop (g * 6 + 6) xs))"
    using assms by (simp add: rotateGroup_closed occupants_rotate_block)
  also have "\<dots> = mset (occupants (take (g * 6) xs @ ?block @ drop (g * 6 + 6) xs))"
    by simp
  also have "\<dots> = mset (occupants xs)"
    using xs by simp
  finally show "mset (occupants (rotateGroup xs g)) = mset (occupants xs)" .
qed

lemma foldl_rotateGroup_props:
  assumes "\<forall>g\<in>set gs. g < 6" "length xs = 36"
  shows "length (foldl rotateGroup xs gs) = 36
       \<and> mset (occupants (foldl rotateGroup xs gs)) = mset (occupants xs)"
  using assms
proof (induction gs arbitrary: xs)
  case Nil
  then show ?case by simp
next
  case (Cons g gs)
  then have g: "g * 6 + 6 \<le> length xs" by simp
  from rotateGroup_props [OF g] Cons.prems
  have "length (rotateGroup xs g) = 36" "mset (occupants (rotateGroup xs g)) = mset (occupants xs)"
    by simp_all
  with Cons.IH [of "rotateGroup xs g"] Cons.prems show ?case by simp
qed

lemma active_indices_small: "\<forall>g\<in>set (getActiveGroupIndices (getGroupCountBySize n)). g < 6"
  by (auto simp: getActiveGroupIndices_def getGroupCountBySize_def)

lemma groups_metrics: "capacity (getLayoutMetrics GROUPS n) = 36"
  by (simp add: getLayoutMetrics_def Let_def)

lemma rotateGroupLayout_occupants:
  "mset (occupants (seats (rotateGroupLayout config studs)))
   = mset (occupants (seats (withLayout config GROUPS studs)))"
proof -
  have "length (seats (withLayout config GROUPS studs)) = 36"
    by (simp add: withLayout_length groups_metrics)
  from foldl_rotateGroup_props [OF active_indices_small this]
  show ?thesis by (simp add: rotateGroupLayout_def Let_def)
qed

lemma occupants_spec_rotate_row:
  "mset (occupants (spec_rotate_row sts cs r)) = mset (occupants (spec_row sts cs r))"
proof -
  let ?L = "(cs + 1) div 2"
  have "mset (occupants (spec_rotate_row sts cs r))
        = mset (occupants (take ?L (spec_row sts cs r) @ drop ?L (spec_row sts cs r)))"
    by (simp add: spec_rotate_row_def Let_def occupants_spec_shift del: append_take_drop_id)
  then show ?thesis by (simp only: append_take_drop_id)
qed

lemma three_rows_split:
  assumes "length sts = 3 * cs"
  shows "sts = spec_row sts cs 0 @ spec_row sts cs 1 @ spec_row sts cs 2"
proof -
  have "spec_row sts cs 0 @ spec_row sts cs 1 = take (cs + cs) sts"
    by (simp add: spec_row_def take_add)
  moreover have "spec_row sts cs 2 = drop (cs + cs) sts"
    using assms by (simp add: spec_row_def mult_2)
  ultimately have "spec_row sts cs 0 @ spec_row sts cs 1 @ spec_row sts cs 2
                   = take (cs + cs) sts @ drop (cs + cs) sts"
    by (simp only: append_assoc [symmetric])
  then show ?thesis
    by (simp only: append_take_drop_id)
qed

lemma rotateThreeRows_occupants:
  "mset (occupants (seats (rotateThreeRows config studs)))
   = mset (occupants (seats (withLayout config THREE_ROWS studs)))"
proof -
  let ?norm = "withLayout config THREE_ROWS studs"
  let ?n = "nat (cols ?norm)"
  have cs: "1 \<le> cols ?norm" by (simp add: three_rows_metrics withLayout_fields)
  have len: "length (seats ?norm) = 3 * ?n"
    using cs by (simp add: withLayout_length three_rows_metrics nat_mult_distrib withLayout_fields)
  have "mset (occupants (seats (rotateThreeRows config studs)))
        = mset (occupants (spec_row (seats ?norm) ?n 1)) + mset (occupants (spec_row (seats ?norm) ?n 2))
          + mset (occupants (spec_row (seats ?norm) ?n 0))"
    by (simp add: rotateThreeRows_spec spec_rotateThreeRows_def Let_def occupants_spec_rotate_row)
  also have "\<dots> = mset (occupants (spec_row (seats ?norm) ?n 0 @ spec_row (seats ?norm) ?n 1
                                     @ spec_row (seats ?norm) ?n 2))"
    by simp
  also have "\<dots> = mset (occupants (seats ?norm))"
    using three_rows_split [OF len] by simp
  finally show ?thesis .
qed

section \<open>ARC rotation: occupants\<close>

lemma truthy_ids: "map the (filter truthy xs) = filter (\<lambda>a. a \<noteq> []) (occupants xs)"
  by (induction xs) (auto simp: truthy_def occupants_Cons split: option.splits)

lemma arc_row_students:
  assumes "length src = 36" "row < 2"
  shows "map the (filter truthy (map (\<lambda>col. seat_at src (int row * ARC_COLS + int col))
                                   [0..<nat ARC_COLS]))
         = filter (\<lambda>a. a \<noteq> []) (occupants (take 18 (drop (row * 18) src)))"
proof -
  have b: "0 \<le> int row * ARC_COLS" "nat (int row * ARC_COLS) = row * 18"
    by (simp_all add: nat_mult_distrib)
  have fits: "nat (int row * ARC_COLS) + 18 \<le> length src"
    using assms b by simp
  have e: "nat ARC_COLS = 18" by simp
  show ?thesis
    using block_read [OF b(1) fits] by (simp only: e b(2) truthy_ids)
qed

lemma rotated_or_same:
  fixes rs :: "string list"
  defines "ids \<equiv> (if length rs > 1 then first_to_last rs else rs)"
  shows "mset ids = mset rs" "length ids = length rs"
proof -
  have "ids = rotate1 rs"
  proof (cases "length rs > 1")
    case True
    then have "rs \<noteq> []" by auto
    then show ?thesis using True by (simp add: ids_def first_to_last_rotate1)
  next
    case False
    then have "rs = [] \<or> (\<exists>x. rs = [x])"
      by (cases rs) auto
    then show ?thesis using False by (auto simp: ids_def)
  qed
  then show "mset ids = mset rs" "length ids = length rs" by simp_all
qed

lemma rotateArcLayout_occupants:
  "mset (occupants (seats (rotateArcLayout config studs)))
   = mset (filter (\<lambda>a. a \<noteq> []) (occupants (seats (withLayout config ARC studs))))"
proof -
  let ?N = "seats (withLayout config ARC studs)"
  have len: "length ?N = 36" by (simp add: withLayout_length arc_metrics)
  let ?rs0 = "filter (\<lambda>a. a \<noteq> []) (occupants (take 18 (drop (0 * 18) ?N)))"
  let ?rs1 = "filter (\<lambda>a. a \<noteq> []) (occupants (take 18 (drop (1 * 18) ?N)))"
  let ?ids0 = "if length ?rs0 > 1 then first_to_last ?rs0 else ?rs0"
  let ?ids1 = "if length ?rs1 > 1 then first_to_last ?rs1 else ?rs1"
  have row0: "rotateArcRow ?N sts 0 = placeCentered sts ?ids0 0 18" for sts
    using arc_row_students [OF len, of 0]
    by (simp only: rotateArcRow_def Let_def) (simp split: if_splits)
  have row1: "rotateArcRow ?N sts 1 = placeCentered sts ?ids1 18 18" for sts
    using arc_row_students [OF len, of 1]
    by (simp only: rotateArcRow_def Let_def) (simp split: if_splits)
  have two: "[0..<nat ARC_ROWS] = [0, 1]" by (simp add: upt_conv_Cons)
  have empty: "createEmptySeats (int (length ?N)) = replicate 36 None"
    by (simp add: len createEmptySeats_def)
  have sts: "seats (rotateArcLayout config studs)
             = placeCentered (placeCentered (replicate 36 None) ?ids0 0 18) ?ids1 18 18"
    by (simp only: rotateArcLayout_def Let_def two empty foldl_Cons foldl_Nil row0 row1)
       simp
  have l0: "length ?rs0 \<le> 18" and l1: "length ?rs1 \<le> 18"
    using length_filter_le [of "\<lambda>a. a \<noteq> []" "occupants (take 18 (drop (0 * 18) ?N))"]
          length_filter_le [of "\<lambda>a. a \<noteq> []" "occupants (take 18 (drop (1 * 18) ?N))"]
          length_filter_le [of "\<lambda>s. s \<noteq> None" "take 18 (drop (0 * 18) ?N)"]
          length_filter_le [of "\<lambda>s. s \<noteq> None" "take 18 (drop (1 * 18) ?N)"]
    by (simp_all add: length_occupants)
  have t0: "take 18 ?ids0 = ?ids0" using rotated_or_same(2) [of ?rs0] l0 by simp
  have t1: "take 18 ?ids1 = ?ids1" using rotated_or_same(2) [of ?rs1] l1 by simp
  have "mset (occupants (seats (rotateArcLayout config studs))) = mset ?ids0 + mset ?ids1"
    by (simp only: sts two_rows_mset t0 t1)
  also have "\<dots> = mset ?rs0 + mset ?rs1"
    by (simp only: rotated_or_same(1))
  also have "\<dots> = mset (filter (\<lambda>a. a \<noteq> []) (occupants (take 18 ?N))
                       @ filter (\<lambda>a. a \<noteq> []) (occupants (drop 18 ?N)))"
    using len by (simp del: append_take_drop_id)
  also have "\<dots> = mset (filter (\<lambda>a. a \<noteq> []) (occupants (take 18 ?N @ drop 18 ?N)))"
    by (simp only: occupants_simps filter_append)
  finally show ?thesis
    by (simp only: append_take_drop_id)
qed

section \<open>Seat uniqueness: rotation, shuffle and roster replacement\<close>

lemma rotate_configs_distinct:
  "distinct (occupants (seats (rotateGroupLayout config studs)))"
  "distinct (occupants (seats (rotateThreeRows config studs)))"
  "distinct (occupants (seats (rotateArcLayout config studs)))"
proof -
  show "distinct (occupants (seats (rotateGroupLayout config studs)))"
    using mset_eq_imp_distinct_iff [OF rotateGroupLayout_occupants] withLayout_distinct by blast
  show "distinct (occupants (seats (rotateThreeRows config studs)))"
    using mset_eq_imp_distinct_iff [OF rotateThreeRows_occupants] withLayout_distinct by blast
  have "distinct (filter (\<lambda>a. a \<noteq> []) (occupants (seats (withLayout config ARC studs))))"
    using withLayout_distinct by (rule distinct_filter)
  then show "distinct (occupants (seats (rotateArcLayout config studs)))"
    using mset_eq_imp_distinct_iff [OF rotateArcLayout_occupants] by blast
qed

lemma seats_config_of_set_config:
  "seats (config_of (set_config c tm cfg) tm')
   = (if tm' = tm then seats cfg else seats (config_of c tm'))"
  by (cases tm; cases tm') simp_all

lemma rotateSeatsOnce_unique:
  assumes "distinct (occupants (seats (config_of c tm')))"
  shows "distinct (occupants (seats (config_of (rotateSeatsOnce now c tm) tm')))"
  using assms rotate_configs_distinct
  by (simp add: rotateSeatsOnce_def Let_def seats_config_of_set_config)

lemma changeLayoutMode_unique:
  assumes "distinct (occupants (seats (config_of c tm')))"
  shows "distinct (occupants (seats (config_of (changeLayoutMode now c lm tm) tm')))"
  using assms withLayout_distinct
  by (simp add: changeLayoutMode_def Let_def seats_config_of_set_config)

lemma foldl_swap_props:
  assumes "\<forall>i\<in>set is. i < length ys \<and> r i < length ys"
  shows "length (foldl (\<lambda>ys i. swap_entries ys i (r i)) ys is) = length ys
       \<and> mset (foldl (\<lambda>ys i. swap_entries ys i (r i)) ys is) = mset ys"
  using assms
proof (induction "is" arbitrary: ys)
  case Nil
  then show ?case by simp
next
  case (Cons i "is")
  let ?zs = "swap_entries ys i (r i)"
  have i: "i < length ys" "r i < length ys" using Cons.prems by simp_all
  have z: "length ?zs = length ys" "mset ?zs = mset ys"
    using mset_swap [OF i(2) i(1)] by (simp_all add: swap_entries_def)
  have "\<forall>j\<in>set is. j < length ?zs \<and> r j < length ?zs"
    using Cons.prems z(1) by simp
  from Cons.IH [OF this] z show ?case by simp
qed

lemma shuffle_mset:
  assumes "\<forall>i. rand i \<le> i"
  shows "mset (shuffle rand xs) = mset xs"
proof -
  have "\<forall>i\<in>set (rev [1..<length xs]). i < length xs \<and> rand i < length xs"
  proof
    fix i assume "i \<in> set (rev [1..<length xs])"
    then have "i < length xs" by simp
    moreover have "rand i \<le> i" using assms by simp
    ultimately show "i < length xs \<and> rand i < length xs" by simp
  qed
  from foldl_swap_props [OF this] show ?thesis by (simp add: shuffle_def)
qed

lemma randomizeSeats_unique:
  assumes "distinct (occupants (seats (config_of c tm')))"
    and "distinct (map student_id (students c))" and "\<forall>i. rand i \<le> i"
  shows "distinct (occupants (seats (config_of (randomizeSeats rand now c tm) tm')))"
proof -
  let ?ids = "shuffle rand (map student_id (students c))"
  let ?norm = "withLayout (config_of c tm) (layoutMode (config_of c tm)) (students c)"
  have d: "distinct ?ids"
    using mset_eq_imp_distinct_iff [OF shuffle_mset [OF assms(3)]] assms(2) by blast
  have new: "distinct (occupants
      (if layoutMode (config_of c tm) = ARC then
         placeCentered (placeCentered (createEmptySeats (int (length (seats ?norm))))
                          (take (half_up (length ?ids)) ?ids) 0 ARC_COLS)
           (drop (half_up (length ?ids)) ?ids) ARC_COLS ARC_COLS
       else buildSeatsFromOrder ?ids (int (length (seats ?norm)))))"
  proof (cases "layoutMode (config_of c tm) = ARC")
    case True
    then have "createEmptySeats (int (length (seats ?norm))) = replicate 36 None"
      by (simp add: withLayout_length arc_metrics createEmptySeats_def)
    then show ?thesis
      using True arc_fill_distinct [OF d] by simp
  next
    case False
    then show ?thesis
      using d by (simp add: buildSeatsFromOrder_closed distinct_take)
  qed
  show ?thesis
  proof (cases "tm' = tm")
    case True
    have "seats (config_of (randomizeSeats rand now c tm) tm')
          = (if layoutMode (config_of c tm) = ARC then
               placeCentered (placeCentered (createEmptySeats (int (length (seats ?norm))))
                                (take (half_up (length ?ids)) ?ids) 0 ARC_COLS)
                 (drop (half_up (length ?ids)) ?ids) ARC_COLS ARC_COLS
             else buildSeatsFromOrder ?ids (int (length (seats ?norm))))"
      unfolding True by (simp add: randomizeSeats_def Let_def)
    then show ?thesis using new by (simp only:)
  next
    case False
    then have "seats (config_of (randomizeSeats rand now c tm) tm') = seats (config_of c tm')"
      by (simp add: randomizeSeats_def Let_def seats_config_of_set_config)
    then show ?thesis using assms(1) by (simp only:)
  qed
qed

lemma sanitized_length: "length (slice_to (uniqueNames names) MAX_STUDENTS) \<le> 36"
  by (simp add: slice_to_def)

lemma fresh_ids_prefix:
  assumes "distinct (map createId [0..<36])" "n \<le> 36"
  shows "distinct (map createId [0..<n])"
proof -
  have "[0..<36] = [0..<n] @ [n..<36]"
    using assms(2) upt_add_eq_append [of 0 n "36 - n"] by simp
  then have "map createId [0..<36] = map createId [0..<n] @ map createId [n..<36]"
    by (simp only: map_append)
  with assms(1) show ?thesis by (simp only: distinct_append)
qed

lemma replaceStudents_unique:
  assumes "distinct (occupants (seats (config_of c tm')))"
    and "distinct (map createId [0..<36])"
  shows "distinct (occupants (seats (config_of (replaceStudents createId now c names tm) tm')))"
proof -
  let ?n = "length (slice_to (uniqueNames names) MAX_STUDENTS)"
  let ?studs = "map (\<lambda>k. \<lparr>student_id = createId k,
                          student_name = slice_to (uniqueNames names) MAX_STUDENTS ! k\<rparr>) [0..<?n]"
  have ids: "map student_id ?studs = map createId [0..<?n]"
    by (simp add: comp_def)
  have d: "distinct (map createId [0..<?n])"
    using fresh_ids_prefix [OF assms(2) sanitized_length] .
  have new: "distinct (occupants (buildSeatsFromOrder (map student_id ?studs) cap))"
    if "0 \<le> cap" for cap
    using that d by (simp only: ids buildSeatsFromOrder_closed occupants_simps append_Nil2 distinct_take)
  show ?thesis
  proof (cases "tm' = tm")
    case True
    have "seats (config_of (replaceStudents createId now c names tm) tm')
          = buildSeatsFromOrder (map student_id ?studs)
              (capacity (getLayoutMetrics (layoutMode (config_of c tm)) (int (length ?studs))))"
      unfolding True by (cases tm) (simp_all add: replaceStudents_def Let_def)
    then show ?thesis using new [OF capacity_nonneg] by (simp only:)
  next
    case False
    then have "seats (config_of (replaceStudents createId now c names tm) tm')
               = seats (config_of c tm')"
      by (cases tm; cases tm') (simp_all add: replaceStudents_def Let_def)
    then show ?thesis using assms(1) by (simp only:)
  qed
qed

section \<open>Seat uniqueness: the invariant\<close>

lemma seatsUnique_iff:
  "seatsUnique c \<longleftrightarrow> (\<forall>tm'. distinct (occupants (seats (config_of c tm'))))"
proof
  assume "seatsUnique c"
  then show "\<forall>tm'. distinct (occupants (seats (config_of c tm')))"
    by (intro allI) (case_tac tm', simp_all add: seatsUnique_def)
next
  assume a: "\<forall>tm'. distinct (occupants (seats (config_of c tm')))"
  from a [rule_format, of Weekday] a [rule_format, of Weekend]
  show "seatsUnique c" by (simp add: seatsUnique_def)
qed

text \<open>
  C5, as the code has it. From a classroom whose two configs hold no id twice, every
  single public operation gives a classroom whose two configs hold no id twice, provided
  that (for \<open>replaceStudents\<close>) the ids \<open>createId\<close> returns are pairwise different and (for
  \<open>randomizeSeats\<close>) no two students of the roster share an id (\<open>rand i \<le> i\<close> says that
  \<open>Math.random()\<close> is below 1).
\<close>

theorem seat_uniqueness_preserved:
  assumes "seatsUnique c"
  shows "(distinct (map createId [0..<36]) \<longrightarrow>
            seatsUnique (replaceStudents createId now c names tm))
       \<and> seatsUnique (changeLayoutMode now c lm tm)
       \<and> seatsUnique (swapSeatAssignments now c i j tm)
       \<and> seatsUnique (clearSeat now c k tm)
       \<and> seatsUnique (placeStudentInSeat now c studentId k tm)
       \<and> seatsUnique (rotateSeatsOnce now c tm)
       \<and> (rosterUnique c \<and> (\<forall>i. rand i \<le> i) \<longrightarrow>
            seatsUnique (randomizeSeats rand now c tm))"
proof -
  have u: "distinct (occupants (seats (config_of c tm')))" for tm'
    using assms by (simp add: seatsUnique_iff)
  have "seatsUnique (replaceStudents createId now c names tm)"
    if "distinct (map createId [0..<36])"
    unfolding seatsUnique_iff using replaceStudents_unique [OF u that] by blast
  moreover have "seatsUnique (changeLayoutMode now c lm tm)"
    unfolding seatsUnique_iff using changeLayoutMode_unique [OF u] by blast
  moreover have "seatsUnique (swapSeatAssignments now c i j tm)"
    unfolding seatsUnique_iff using swapSeatAssignments_unique [OF u] by blast
  moreover have "seatsUnique (clearSeat now c k tm)"
    unfolding seatsUnique_iff using clearSeat_unique [OF u] by blast
  moreover have "seatsUnique (placeStudentInSeat now c studentId k tm)"
    unfolding seatsUnique_iff using placeStudentInSeat_unique [OF u] by blast
  moreover have "seatsUnique (rotateSeatsOnce now c tm)"
    unfolding seatsUnique_iff using rotateSeatsOnce_unique [OF u] by blast
  moreover have "seatsUnique (randomizeSeats rand now c tm)"
    if "rosterUnique c \<and> (\<forall>i. rand i \<le> i)"
    unfolding seatsUnique_iff using randomizeSeats_unique [OF u] that
    by (simp add: rosterUnique_def)
  ultimately show ?thesis by blast
qed

theorem seat_uniqueness_preserved_witness:
  "seatsUnique example_weekend
   \<and> distinct (map (example_id ''c'') [0..<36])
   \<and> rosterUnique example_weekend
   \<and> (\<forall>i::nat. (0::nat) \<le> i)
   \<and> seatsUnique (replaceStudents (example_id ''c'') ''t9'' example_weekend [''Eve'', ''Flo''] Weekday)
   \<and> seatsUnique (changeLayoutMode ''t9'' example_weekend ARC Weekend)
   \<and> seatsUnique (swapSeatAssignments ''t9'' example_weekend 0 1 Weekend)
   \<and> seatsUnique (clearSeat ''t9'' example_weekend 0 Weekend)
   \<and> seatsUnique (placeStudentInSeat ''t9'' example_weekend ''ai'' 1 Weekend)
   \<and> seatsUnique (rotateSeatsOnce ''t9'' example_weekend Weekend)
   \<and> seatsUnique (randomizeSeats (\<lambda>i. 0) ''t9'' example_weekend Weekend)"
proof -
  have a: "seatsUnique example_weekend" by code_simp
  have b: "distinct (map (example_id ''c'') [0..<36])" by code_simp
  have c: "rosterUnique example_weekend" by code_simp
  show ?thesis
    using seat_uniqueness_preserved
            [OF a, of "example_id ''c''" "''t9''" "[''Eve'', ''Flo'']" Weekday ARC 0 1 0 "''ai''" "\<lambda>i. 0"]
          seat_uniqueness_preserved
            [OF a, of "example_id ''c''" "''t9''" "[''Eve'', ''Flo'']" Weekend ARC 0 1 0 "''ai''" "\<lambda>i. 0"]
          seat_uniqueness_preserved
            [OF a, of "example_id ''c''" "''t9''" "[''Eve'', ''Flo'']" Weekend ARC 0 1 1 "''ai''" "\<lambda>i. 0"]
          a b c
    by simp
qed

theorem seat_uniqueness_needs_unique_roster:
  "normalizeClassroom ''t0'' (\<lambda>s. True)
     (JObj [(''id'', JStr ''c2''), (''name'', JStr ''Twins''),
            (''students'', JArr [JObj [(''id'', JStr ''a''), (''name'', JStr ''Ann'')],
                                 JObj [(''id'', JStr ''a''), (''name'', JStr ''Abe'')]])])
     = Some example_twins
   \<and> seatsUnique example_twins
   \<and> \<not> seatsUnique (randomizeSeats (\<lambda>i. 0) ''t1'' example_twins Weekday)
   \<and> seats (weekday (randomizeSeats (\<lambda>i. 0) ''t1'' example_twins Weekday))
       = Some ''a'' # Some ''a'' # replicate 34 None"
  by code_simp

section \<open>Rotation and the unassigned students\<close>

lemma layoutMode_cases: "lm \<noteq> THREE_ROWS \<Longrightarrow> lm \<noteq> ARC \<Longrightarrow> lm = GROUPS"
  by (cases lm) simp_all

lemma blank_id_absent:
  assumes "[] \<notin> set (map student_id studs)" "s \<in> set studs"
  shows "student_id s \<noteq> []"
proof
  assume "student_id s = []"
  then have "[] = student_id s" by simp
  then have "[] \<in> student_id ` set studs" using assms(2) by (rule image_eqI)
  with assms(1) show False by simp
qed

lemma getUnassignedStudents_empty:
  assumes "set (map student_id (students c)) \<subseteq> set (occupants (seats (config_of c tm)))"
    and "[] \<notin> set (map student_id (students c))"
  shows "getUnassignedStudents c tm = []"
proof -
  have "student_id s \<in> set (filter (\<lambda>a. a \<noteq> []) (occupants (seats (config_of c tm))))"
    if "s \<in> set (students c)" for s
    using that assms blank_id_absent [OF assms(2) that] by auto
  then show ?thesis
    by (simp add: getUnassignedStudents_def Let_def truthy_ids filter_empty_conv)
qed

text \<open>
  C9, as the code has it. When the chosen config has at least two occupied seats, the
  roster is no larger than the capacity of its layout and no student has the empty
  string as id, then after \<open>rotateSeatsOnce\<close> every student of the roster occupies a seat
  of that config and \<open>getUnassignedStudents\<close> is empty.
\<close>

theorem rotation_reseats_roster:
  assumes "2 \<le> getAssignedCount (config_of c tm)"
    and "int (length (students c))
         \<le> capacity (getLayoutMetrics (layoutMode (config_of c tm)) (int (length (students c))))"
    and "[] \<notin> set (map student_id (students c))"
  shows "getUnassignedStudents (rotateSeatsOnce now c tm) tm = []
       \<and> set (map student_id (students c))
           \<subseteq> set (occupants (seats (config_of (rotateSeatsOnce now c tm) tm)))"
proof -
  let ?cfg = "config_of c tm"
  let ?c' = "rotateSeatsOnce now c tm"
  have studs: "students ?c' = students c"
    by (cases tm) (simp_all add: rotateSeatsOnce_def Let_def)
  have roster: "set (occupants (seats (withLayout ?cfg (layoutMode ?cfg) (students c))))
                = set (map student_id (students c))"
    using assms(2) by (rule withLayout_occupants_set)
  have sub: "set (map student_id (students c)) \<subseteq> set (occupants (seats (config_of ?c' tm)))"
  proof (cases "layoutMode ?cfg = THREE_ROWS")
    case True
    have "config_of ?c' tm = rotateThreeRows ?cfg (students c)"
      using assms(1) True by (simp add: rotateSeatsOnce_def Let_def)
    then have "set (occupants (seats (config_of ?c' tm)))
               = set (occupants (seats (withLayout ?cfg THREE_ROWS (students c))))"
      using mset_eq_setD [OF rotateThreeRows_occupants] by simp
    then show ?thesis using roster True by simp
  next
    case False
    note not_three = this
    show ?thesis
    proof (cases "layoutMode ?cfg = ARC")
      case True
      have "config_of ?c' tm = rotateArcLayout ?cfg (students c)"
        using assms(1) True by (simp add: rotateSeatsOnce_def Let_def)
      then have "set (occupants (seats (config_of ?c' tm)))
                 = set (filter (\<lambda>a. a \<noteq> []) (occupants (seats (withLayout ?cfg ARC (students c)))))"
        using mset_eq_setD [OF rotateArcLayout_occupants] by simp
      then show ?thesis using roster True blank_id_absent [OF assms(3)] by auto
    next
      case False
      with not_three have g: "layoutMode ?cfg = GROUPS" by (rule layoutMode_cases)
      have "config_of ?c' tm = rotateGroupLayout ?cfg (students c)"
        using assms(1) g by (simp add: rotateSeatsOnce_def Let_def)
      then have "set (occupants (seats (config_of ?c' tm)))
                 = set (occupants (seats (withLayout ?cfg GROUPS (students c))))"
        using mset_eq_setD [OF rotateGroupLayout_occupants] by simp
      then show ?thesis using roster g by simp
    qed
  qed
  have "getUnassignedStudents ?c' tm = []"
  proof (rule getUnassignedStudents_empty)
    show "set (map student_id (students ?c')) \<subseteq> set (occupants (seats (config_of ?c' tm)))"
      unfolding studs by (rule sub)
    show "[] \<notin> set (map student_id (students ?c'))"
      unfolding studs by (rule assms(3))
  qed
  with sub show ?thesis by blast
qed

theorem rotation_reseats_roster_witness:
  "2 \<le> getAssignedCount (config_of (clearSeat ''t2'' example_three_rows 1 Weekday) Weekday)
   \<and> getUnassignedStudents (clearSeat ''t2'' example_three_rows 1 Weekday) Weekday
       = [\<lparr>student_id = ''sii'', student_name = ''Ben''\<rparr>]
   \<and> [] \<notin> set (map student_id (students (clearSeat ''t2'' example_three_rows 1 Weekday)))
   \<and> getUnassignedStudents
         (rotateSeatsOnce ''t3'' (clearSeat ''t2'' example_three_rows 1 Weekday) Weekday) Weekday
       = []"
proof -
  let ?c = "clearSeat ''t2'' example_three_rows 1 Weekday"
  have a: "2 \<le> getAssignedCount (config_of ?c Weekday)" by code_simp
  have b: "int (length (students ?c))
           \<le> capacity (getLayoutMetrics (layoutMode (config_of ?c Weekday)) (int (length (students ?c))))"
    by code_simp
  have c: "[] \<notin> set (map student_id (students ?c))" by code_simp
  have d: "getUnassignedStudents ?c Weekday = [\<lparr>student_id = ''sii'', student_name = ''Ben''\<rparr>]"
    by code_simp
  show ?thesis
    using rotation_reseats_roster [OF a b c, of "''t3''"] a c d by simp
qed

theorem rotation_leaves_blank_id_unassigned:
  "normalizeClassroom ''t0'' (\<lambda>s. True)
     (JObj [(''id'', JStr ''c3''), (''name'', JStr ''Blank''),
            (''students'', JArr [JObj [(''id'', JStr ''a''), (''name'', JStr ''Ann'')],
                                 JObj [(''id'', JStr ''b''), (''name'', JStr ''Ben'')],
                                 JObj [(''id'', JStr []), (''name'', JStr ''Zed'')]])])
     = Some example_blank_id
   \<and> 2 \<le> getAssignedCount (config_of example_blank_id Weekday)
   \<and> int (length (students example_blank_id))
       \<le> capacity (getLayoutMetrics (layoutMode (config_of example_blank_id Weekday))
                     (int (length (students example_blank_id))))
   \<and> getUnassignedStudents (rotateSeatsOnce ''t1'' example_blank_id Weekday) Weekday
       = [\<lparr>student_id = [], student_name = ''Zed''\<rparr>]
   \<and> getUnassignedStudents (rotateSeatsOnce ''t1'' example_blank_id Weekday) Weekday \<noteq> []"
  by code_simp

section \<open>State normalisation: proofs\<close>

lemma student_round_trip:
  "isStudent (json_of_student st)" "student_of (json_of_student st) = st"
  by (simp_all add: isStudent_def student_of_def json_of_student_def falsy_def typeof_object_def
        typeof_string_def property_def toStringOrDefault_def)

lemma students_round_trip:
  "map student_of (filter isStudent (map json_of_student studs)) = studs"
  by (induction studs) (simp_all add: student_round_trip)

lemma isLayoutMode_round_trip: "isLayoutMode (Some (json_of_layoutMode lm)) = Some lm"
  by (cases lm) (simp_all add: isLayoutMode_def json_of_layoutMode_def)

lemma seatsOrEmpty_round_trip:
  "seatsOrEmpty (Some (JArr (map json_of_seat sts))) ids = map (keep_roster ids) sts"
  by (induction sts)
     (auto simp: seatsOrEmpty_def json_of_seat_def keep_roster_def split: option.splits)

lemma seat_step_keep_roster:
  "seat_step ids acc (keep_roster ids seat) = seat_step ids acc seat"
  by (simp add: seat_step_def keep_roster_def split: option.splits)

lemma foldl_seat_step_keep_roster:
  "foldl (seat_step ids) acc (map (keep_roster ids) sts) = foldl (seat_step ids) acc sts"
  by (induction sts arbitrary: acc) (simp_all add: seat_step_keep_roster)

lemma getOrderedStudentIds_keep_roster:
  "getOrderedStudentIds studs (map (keep_roster (map student_id studs)) sts)
   = getOrderedStudentIds studs sts"
  by (simp add: getOrderedStudentIds_def foldl_seat_step_keep_roster)

lemma withLayout_keep_roster:
  "withLayout (cfg\<lparr>seats := map (keep_roster (map student_id studs)) (seats cfg)\<rparr>) lm studs
   = withLayout cfg lm studs"
  by (simp add: withLayout_def Let_def getOrderedStudentIds_keep_roster)

lemma normalizeTimeModeConfig_round_trip:
  "normalizeTimeModeConfig (Some (json_of_config cfg)) studs fallbackMode
   = Some (cfg\<lparr>seats := map (keep_roster (map student_id studs)) (seats cfg)\<rparr>)"
  by (simp add: normalizeTimeModeConfig_def json_of_config_def falsy_def typeof_object_def
        property_def isLayoutMode_round_trip seatsOrEmpty_round_trip numberOrDefault_def
        toStringOrDefault_def Let_def)

lemma normalizeClassroomLayout_both:
  "normalizeClassroomLayout (normalizeClassroomLayout c Weekday) Weekend
   = c\<lparr>weekday := withLayout (weekday c) (layoutMode (weekday c)) (students c),
       weekend := withLayout (weekend c) (layoutMode (weekend c)) (students c)\<rparr>"
  by (simp add: normalizeClassroomLayout_def Let_def)

lemma json_of_config_object:
  "\<not> falsy (Some (json_of_config cfg))" "typeof_object (Some (json_of_config cfg))"
  by (simp_all add: json_of_config_def falsy_def typeof_object_def)

lemma normalizeClassroom_round_trip:
  "normalizeClassroom now validDate (json_of_classroom c) = Some (renormalizeClassroom now validDate c)"
proof -
  let ?v = "json_of_classroom c"
  have props:
    "property ?v ''id'' = Some (JStr (classroom_id c))"
    "property ?v ''name'' = Some (JStr (classroom_name c))"
    "property ?v ''students'' = Some (JArr (map json_of_student (students c)))"
    "property ?v ''campus'' = Some (JStr (campus c))"
    "property ?v ''building'' = Some (JStr (building c))"
    "property ?v ''room'' = Some (JStr (room c))"
    "property ?v ''sideNotes'' = Some (JStr (sideNotes c))"
    "property ?v ''updatedAt'' = Some (JStr (updatedAt c))"
    "property ?v ''weekday'' = Some (json_of_config (weekday c))"
    "property ?v ''weekend'' = Some (json_of_config (weekend c))"
    by (simp_all add: property_def json_of_classroom_def)
  have obj: "\<not> falsy (Some ?v)" "typeof_object (Some ?v)"
    by (simp_all add: json_of_classroom_def falsy_def typeof_object_def)
  have eq: "normalizeClassroom now validDate ?v
        = Some (normalizeClassroomLayout (normalizeClassroomLayout
            \<lparr>classroom_id = classroom_id c,
             classroom_name = nameOrDefault (classroom_name c),
             students = students c,
             campus = campus c, building = building c, room = room c, sideNotes = sideNotes c,
             updatedAt = (if validDate (updatedAt c) then updatedAt c else now),
             weekday = (weekday c)\<lparr>seats := map (keep_roster (map student_id (students c)))
                                               (seats (weekday c))\<rparr>,
             weekend = (weekend c)\<lparr>seats := map (keep_roster (map student_id (students c)))
                                               (seats (weekend c))\<rparr>\<rparr> Weekday) Weekend)"
    unfolding normalizeClassroom_def
    by (simp add: props obj students_round_trip json_of_config_object
          normalizeTimeModeConfig_round_trip typeof_string_def toStringOrDefault_def
          updatedAtOrNow_def Let_def del: map_map)
  show ?thesis
    unfolding eq renormalizeClassroom_def normalizeClassroomLayout_both
    by (simp add: withLayout_keep_roster)
qed

lemma normalizeAll_round_trip:
  "normalizeAll now validDate (map json_of_classroom cs) = map (renormalizeClassroom now validDate) cs"
  by (induction cs) (simp_all add: normalizeAll_def List.map_filter_simps normalizeClassroom_round_trip)

lemma renormalizeClassroom_id [simp]:
  "classroom_id (renormalizeClassroom now validDate c) = classroom_id c"
  by (simp add: renormalizeClassroom_def normalizeClassroomLayout_both)

lemma normalizeState_round_trip:
  "normalizeState now validDate (json_of_state s) = Some (renormalizeState now validDate s)"
proof -
  let ?v = "json_of_state s"
  have props:
    "property ?v ''classrooms'' = Some (JArr (map json_of_classroom (classrooms s)))"
    "property ?v ''activeClassroomId''
     = Some (case activeClassroomId s of None \<Rightarrow> JNull | Some a \<Rightarrow> JStr a)"
    "property ?v ''activeTimeMode''
     = Some (case activeTimeMode s of Weekday \<Rightarrow> JStr ''weekday'' | Weekend \<Rightarrow> JStr ''weekend'')"
    by (simp_all add: property_def json_of_state_def)
  have obj: "\<not> falsy (Some ?v)" "typeof_object (Some ?v)"
    by (simp_all add: json_of_state_def falsy_def typeof_object_def)
  have tm: "isTimeMode (Some (case activeTimeMode s of Weekday \<Rightarrow> JStr ''weekday''
                                | Weekend \<Rightarrow> JStr ''weekend'')) = Some (activeTimeMode s)"
    by (cases "activeTimeMode s") (simp_all add: isTimeMode_def)
  have ids: "classroom_id ` renormalizeClassroom now validDate ` set cs = classroom_id ` set cs" for cs
    by (simp add: image_image)
  have first: "(case map (renormalizeClassroom now validDate) cs of [] \<Rightarrow> None
                | c # _ \<Rightarrow> Some (classroom_id c)) = firstClassroomId cs" for cs
    by (cases cs) (simp_all add: firstClassroomId_def)
  show ?thesis
    unfolding normalizeState_def
    by (cases "activeClassroomId s")
       (simp_all add: props obj tm normalizeAll_round_trip renormalizeState_def Let_def ids first)
qed

lemma renormalizeClassroom_config:
  "config_of (renormalizeClassroom now validDate c) tm
   = withLayout (config_of c tm) (layoutMode (config_of c tm)) (students c)"
  by (cases tm) (simp_all add: renormalizeClassroom_def normalizeClassroomLayout_both)

text \<open>
  C1. The round trip through the saved document does not give back every state made with
  the public operations. \<open>normalizeTimeModeConfig\<close> copies the seats slot by slot, but
  \<open>normalizeClassroom\<close> then passes both configs through \<open>normalizeClassroomLayout\<close>, which
  reads the occupants in seat order and lays them out again (lemma
  \<open>normalizeState_round_trip\<close>). In the ARC class of six the students of seats 7, 8, 9 come
  back in another order, and so do those of seats 25, 26, 27; the student moved to seat 12
  comes back at seat 5; and the weekend config, empty in both states, comes back with the
  six students seated.
\<close>

theorem round_trip_loses_seat_positions:
  "seats (weekday example_arc)
     = replicate 7 None @ [Some ''siii'', Some ''si'', Some ''sii''] @ replicate 15 None
       @ [Some ''siiiiii'', Some ''siiii'', Some ''siiiii''] @ replicate 8 None
   \<and> seats (weekend example_arc) = replicate 36 None
   \<and> normalizeState ''2024-09-09T08:00:00.000Z'' (\<lambda>s. True) (json_of_state example_state_arc)
       = Some (example_state_arc
                 \<lparr>classrooms :=
                    [example_arc
                       \<lparr>weekday := (weekday example_arc)
                          \<lparr>seats := replicate 7 None @ [Some ''sii'', Some ''siii'', Some ''si'']
                                    @ replicate 15 None
                                    @ [Some ''siiiii'', Some ''siiiiii'', Some ''siiii'']
                                    @ replicate 8 None\<rparr>,
                        weekend := (weekend example_arc)
                          \<lparr>seats := [Some ''si'', Some ''sii'', Some ''siii'', Some ''siiii'',
                                     Some ''siiiii'', Some ''siiiiii''] @ replicate 30 None\<rparr>\<rparr>]\<rparr>)
   \<and> normalizeState ''2024-09-09T08:00:00.000Z'' (\<lambda>s. True) (json_of_state example_state_arc)
       \<noteq> Some example_state_arc
   \<and> seats (weekday example_moved)
       = [Some ''si'', Some ''sii'', Some ''siii'', Some ''siiii'', Some ''siiiii'', None]
         @ replicate 6 None @ [Some ''siiiiii''] @ replicate 23 None
   \<and> normalizeState ''2024-09-09T08:00:00.000Z'' (\<lambda>s. True) (json_of_state example_state_moved)
       = Some (example_state_moved
                 \<lparr>classrooms :=
                    [example_moved
                       \<lparr>weekday := (weekday example_moved)
                          \<lparr>seats := [Some ''si'', Some ''sii'', Some ''siii'', Some ''siiii'',
                                     Some ''siiiii'', Some ''siiiiii''] @ replicate 30 None\<rparr>,
                        weekend := (weekend example_moved)
                          \<lparr>seats := [Some ''si'', Some ''sii'', Some ''siii'', Some ''siiii'',
                                     Some ''siiiii'', Some ''siiiiii''] @ replicate 30 None\<rparr>\<rparr>]\<rparr>)
   \<and> normalizeState ''2024-09-09T08:00:00.000Z'' (\<lambda>s. True) (json_of_state example_state_moved)
       \<noteq> Some example_state_moved"
  by code_simp

section \<open>Backup import: proofs\<close>

lemma normalizeState_None_iff:
  "normalizeState now validDate v = None \<longleftrightarrow> \<not> isArray (property v ''classrooms'')"
  by (cases v)
     (auto simp: normalizeState_def falsy_def typeof_object_def isArray_def property_def Let_def
           split: option.splits json.splits)

lemma withLayout_occupants_subset:
  "set (occupants (seats (withLayout config lm studs))) \<subseteq> set (map student_id studs)"
proof (cases "lm = ARC")
  case True
  let ?ids = "getOrderedStudentIds studs (seats config)"
  let ?h = "half_up (length ?ids)"
  have "set (occupants (seats (withLayout config lm studs)))
        = set (take 18 (take ?h ?ids) @ take 18 (drop ?h ?ids))"
    using True mset_eq_setD [of "occupants (seats (withLayout config ARC studs))"
                               "take 18 (take ?h ?ids) @ take 18 (drop ?h ?ids)"]
    by (simp only: withLayout_seats_arc arc_fill_mset mset_append)
  also have "\<dots> \<subseteq> set ?ids"
    using set_take_subset [of 18 "take ?h ?ids"] set_take_subset [of ?h ?ids]
          set_take_subset [of 18 "drop ?h ?ids"] set_drop_subset [of ?h ?ids]
    by (simp only: set_append) blast
  finally show ?thesis by (simp only: getOrderedStudentIds_set)
next
  case False
  have "set (take n (getOrderedStudentIds studs (seats config))) \<subseteq> set (map student_id studs)" for n
    using set_take_subset [of n "getOrderedStudentIds studs (seats config)"]
    by (simp only: getOrderedStudentIds_set)
  then show ?thesis
    using False by (simp add: withLayout_seats_rows)
qed

lemma wellFormed_withLayout: "wellFormedConfig studs (withLayout cfg lm studs)"
proof -
  have "int (length (seats (withLayout cfg lm studs)))
        = capacity (getLayoutMetrics lm (int (length studs)))"
    using capacity_nonneg [of lm "int (length studs)"] by (simp add: withLayout_length)
  moreover have "filter (\<lambda>a. a \<notin> set (map student_id studs))
                   (occupants (seats (withLayout cfg lm studs))) = []"
    using withLayout_occupants_subset [of cfg lm studs] by (auto simp: filter_empty_conv)
  ultimately show ?thesis
    by (simp add: wellFormedConfig_def Let_def withLayout_fields withLayout_distinct)
qed

lemma wellFormed_normalizeClassroomLayout:
  "wellFormedClassroom (normalizeClassroomLayout (normalizeClassroomLayout c Weekday) Weekend)"
  by (simp add: normalizeClassroomLayout_both wellFormedClassroom_def wellFormed_withLayout)

lemma normalizeClassroom_shape:
  assumes "normalizeClassroom now validDate v = Some c"
  shows "\<exists>c0. c = normalizeClassroomLayout (normalizeClassroomLayout c0 Weekday) Weekend"
  using assms unfolding normalizeClassroom_def migrateV2Classroom_def Let_def
  by (auto split: if_splits)

lemma wellFormed_normalizeClassroom:
  assumes "normalizeClassroom now validDate v = Some c"
  shows "wellFormedClassroom c"
  using normalizeClassroom_shape [OF assms] wellFormed_normalizeClassroomLayout by auto

lemma wellFormed_normalizeAll:
  "list_all wellFormedClassroom (normalizeAll now validDate entries)"
  by (induction entries)
     (auto simp: normalizeAll_def List.map_filter_simps wellFormed_normalizeClassroom
           split: option.splits)

lemma wellFormed_normalizeState:
  assumes "normalizeState now validDate v = Some st"
  shows "wellFormedState st"
proof -
  obtain entries where e: "property v ''classrooms'' = Some (JArr entries)"
    using assms normalizeState_None_iff [of now validDate v]
    by (auto simp: isArray_def split: option.splits json.splits)
  let ?cs = "normalizeAll now validDate entries"
  have ok: "\<not> (falsy (Some v) \<or> \<not> typeof_object (Some v))"
    using assms by (auto simp: normalizeState_def split: if_splits)
  have st: "version st = APP_VERSION" "classrooms st = ?cs"
    and act: "activeClassroomId st
         = (case property v ''activeClassroomId'' of
              Some (JStr a) \<Rightarrow>
                if a \<in> set (map classroom_id ?cs) then Some a
                else (case ?cs of [] \<Rightarrow> None | c # _ \<Rightarrow> Some (classroom_id c))
            | _ \<Rightarrow> (case ?cs of [] \<Rightarrow> None | c # _ \<Rightarrow> Some (classroom_id c)))"
    using assms ok by (auto simp: normalizeState_def e Let_def)
  have "case activeClassroomId st of None \<Rightarrow> classrooms st = []
        | Some a \<Rightarrow> a \<in> set (map classroom_id (classrooms st))"
    unfolding act st(2)
    by (cases ?cs) (auto split: option.splits json.splits)
  then show ?thesis
    using st wellFormed_normalizeAll [of now validDate entries]
    by (simp add: wellFormedState_def)
qed

text \<open>
  C7, as the code has it. \<open>parseBackup\<close> returns null exactly when the text does not parse
  or the parsed value is not an object whose \<open>classrooms\<close> property is an array. In every
  other case it returns a well-formed state and not null: the version is 3, both configs
  of every classroom have the rows, columns and number of seats of their layout for the
  roster, no id is in two seats, only ids of the roster are seated, and the active
  classroom id names a classroom of the result (it is null when the result has none).
\<close>

theorem parseBackup_null_or_well_formed:
  "(parseBackup json_parse now validDate rawText = None
      \<longleftrightarrow> (case json_parse rawText of
             None \<Rightarrow> True
           | Some v \<Rightarrow> \<not> isArray (property v ''classrooms'')))
   \<and> (\<forall>st. parseBackup json_parse now validDate rawText = Some st \<longrightarrow> wellFormedState st)"
proof (intro conjI allI impI)
  show "parseBackup json_parse now validDate rawText = None
      \<longleftrightarrow> (case json_parse rawText of
             None \<Rightarrow> True
           | Some v \<Rightarrow> \<not> isArray (property v ''classrooms''))"
    by (simp add: parseBackup_def normalizeState_None_iff split: option.splits)
next
  fix st
  assume "parseBackup json_parse now validDate rawText = Some st"
  then obtain v where "normalizeState now validDate v = Some st"
    by (auto simp: parseBackup_def split: option.splits)
  then show "wellFormedState st" by (rule wellFormed_normalizeState)
qed

theorem parseBackup_null_or_well_formed_witness:
  "parseBackup json_parse_sample ''t0'' (\<lambda>s. True) backup_text_twins
     = Some \<lparr>version = 3, classrooms = [example_twins], activeClassroomId = Some ''c2'',
             activeTimeMode = Weekday\<rparr>
   \<and> wellFormedState
        \<lparr>version = 3, classrooms = [example_twins], activeClassroomId = Some ''c2'',
         activeTimeMode = Weekday\<rparr>
   \<and> parseBackup json_parse_sample ''t0'' (\<lambda>s. True) ''{\"classrooms\":[]}''
       = Some \<lparr>version = 3, classrooms = [], activeClassroomId = None, activeTimeMode = Weekday\<rparr>
   \<and> parseBackup json_parse_sample ''t0'' (\<lambda>s. True) ''not json'' = None
   \<and> json_parse_sample ''not json'' = None"
proof -
  have a: "parseBackup json_parse_sample ''t0'' (\<lambda>s. True) backup_text_twins
     = Some \<lparr>version = 3, classrooms = [example_twins], activeClassroomId = Some ''c2'',
             activeTimeMode = Weekday\<rparr>"
    by code_simp
  have b: "parseBackup json_parse_sample ''t0'' (\<lambda>s. True) ''{\"classrooms\":[]}''
       = Some \<lparr>version = 3, classrooms = [], activeClassroomId = None, activeTimeMode = Weekday\<rparr>"
    by code_simp
  have c: "json_parse_sample ''not json'' = None" by code_simp
  show ?thesis
    using parseBackup_null_or_well_formed
            [of json_parse_sample "''t0''" "\<lambda>s. True" backup_text_twins]
          parseBackup_null_or_well_formed
            [of json_parse_sample "''t0''" "\<lambda>s. True" "''not json''"]
          a b c
    by simp
qed

theorem parseBackup_rejects_parsed_json:
  "json_parse_sample ''{}'' = Some (JObj [])
   \<and> parseBackup json_parse_sample ''t0'' (\<lambda>s. True) ''{}'' = None
   \<and> json_parse_sample ''[]'' = Some (JArr [])
   \<and> parseBackup json_parse_sample ''t0'' (\<lambda>s. True) ''[]'' = None"
  by code_simp

section \<open>The rotation guard and stale ids\<close>

lemma rotate_configs_roster:
  "set (occupants (seats (rotateGroupLayout config studs))) \<subseteq> set (map student_id studs)"
  "set (occupants (seats (rotateThreeRows config studs))) \<subseteq> set (map student_id studs)"
  "set (occupants (seats (rotateArcLayout config studs))) \<subseteq> set (map student_id studs)"
proof -
  show "set (occupants (seats (rotateGroupLayout config studs))) \<subseteq> set (map student_id studs)"
    using mset_eq_setD [OF rotateGroupLayout_occupants, of config studs]
      withLayout_occupants_subset [of config GROUPS studs]
    by simp
  show "set (occupants (seats (rotateThreeRows config studs))) \<subseteq> set (map student_id studs)"
    using mset_eq_setD [OF rotateThreeRows_occupants, of config studs]
      withLayout_occupants_subset [of config THREE_ROWS studs]
    by simp
  have "set (occupants (seats (rotateArcLayout config studs)))
        \<subseteq> set (occupants (seats (withLayout config ARC studs)))"
    using mset_eq_setD [OF rotateArcLayout_occupants, of config studs] by auto
  then show "set (occupants (seats (rotateArcLayout config studs))) \<subseteq> set (map student_id studs)"
    using withLayout_occupants_subset [of config ARC studs] by blast
qed

lemma rotate_configs_count:
  "rotationCount (rotateGroupLayout config studs) = js_increment (rotationCount config)"
  "rotationCount (rotateThreeRows config studs) = js_increment (rotationCount config)"
  "rotationCount (rotateArcLayout config studs) = js_increment (rotationCount config)"
  by (simp_all add: rotateGroupLayout_def rotateThreeRows_def rotateArcLayout_def Let_def
        withLayout_fields)

lemma rotateSeatsOnce_runs:
  assumes "1 < getAssignedCount (config_of c tm)"
  shows "rotationCount (config_of (rotateSeatsOnce now c tm) tm)
         = js_increment (rotationCount (config_of c tm))"
    and "set (occupants (seats (config_of (rotateSeatsOnce now c tm) tm)))
         \<subseteq> set (map student_id (students c))"
    and "updatedAt (rotateSeatsOnce now c tm) = now"
  using assms rotate_configs_count rotate_configs_roster
  by (simp_all add: rotateSeatsOnce_def Let_def)

lemma truthy_iff: "truthy s \<longleftrightarrow> s \<noteq> None \<and> s \<noteq> Some []"
  by (cases s) (simp_all add: truthy_def)

text \<open>
  C10, as the code has it. The no-op guard of the rotation counts the seat entries that
  are truthy, that is, neither null nor the empty string, whatever the roster is: the
  count is a function of the seats alone. With at most one such entry
  \<open>rotateSeatsOnce\<close> returns the classroom it was given; with two or more it runs: it sets
  the time stamp, adds one to the rotation count (as doubles add, so exactly one for a
  safe integer) and leaves only ids of the current roster in the seats.
  \<open>example_stale\<close>, made by \<open>createClassroom\<close> and two calls of \<open>replaceStudents\<close>, has a
  weekend config with two ids, neither of them in the roster; \<open>rotateSeatsOnce\<close> on it is
  not a no-op: the rotation count goes from 0 to 1 and the seats are rebuilt from the
  current roster.
\<close>

theorem rotation_guard_counts_stale_ids:
  "getAssignedCount (config_of c tm)
     = int (length (filter (\<lambda>s. s \<noteq> None \<and> s \<noteq> Some []) (seats (config_of c tm))))
   \<and> (length (filter (\<lambda>s. s \<noteq> None \<and> s \<noteq> Some []) (seats (config_of c tm))) \<le> 1 \<longrightarrow>
        rotateSeatsOnce now c tm = c)
   \<and> (1 < length (filter (\<lambda>s. s \<noteq> None \<and> s \<noteq> Some []) (seats (config_of c tm))) \<longrightarrow>
        updatedAt (rotateSeatsOnce now c tm) = now
        \<and> rotationCount (config_of (rotateSeatsOnce now c tm) tm)
            = js_increment (rotationCount (config_of c tm))
        \<and> set (occupants (seats (config_of (rotateSeatsOnce now c tm) tm)))
            \<subseteq> set (map student_id (students c))
        \<and> (isSafeInteger (rotationCount (config_of c tm)) \<longrightarrow>
             rotateSeatsOnce now c tm \<noteq> c
             \<and> rotationCount (config_of (rotateSeatsOnce now c tm) tm)
                 = rotationCount (config_of c tm) + 1))
   \<and> occupants (seats (weekend example_stale)) = [''ai'', ''aii'']
   \<and> map student_id (students example_stale) = [''bi'', ''bii'']
   \<and> getAssignedCount (weekend example_stale) = 2
   \<and> rotateSeatsOnce ''t3'' example_stale Weekend \<noteq> example_stale
   \<and> rotationCount (weekend example_stale) = 0
   \<and> rotationCount (weekend (rotateSeatsOnce ''t3'' example_stale Weekend)) = 1
   \<and> seats (weekend (rotateSeatsOnce ''t3'' example_stale Weekend))
       = Some ''bii'' # Some ''bi'' # replicate 34 None"
proof -
  let ?k = "length (filter (\<lambda>s. s \<noteq> None \<and> s \<noteq> Some []) (seats (config_of c tm)))"
  have "filter truthy sts = filter (\<lambda>s. s \<noteq> None \<and> s \<noteq> Some []) sts"
    for sts :: "string option list"
    by (rule filter_cong) (simp_all add: truthy_iff)
  then have count: "getAssignedCount (config_of c tm) = int ?k"
    by (simp add: getAssignedCount_filter)
  have noop: "rotateSeatsOnce now c tm = c" if "?k \<le> 1"
    using that by (simp add: rotateSeatsOnce_def count)
  have runs: "updatedAt (rotateSeatsOnce now c tm) = now
        \<and> rotationCount (config_of (rotateSeatsOnce now c tm) tm)
            = js_increment (rotationCount (config_of c tm))
        \<and> set (occupants (seats (config_of (rotateSeatsOnce now c tm) tm)))
            \<subseteq> set (map student_id (students c))
        \<and> (isSafeInteger (rotationCount (config_of c tm)) \<longrightarrow>
             rotateSeatsOnce now c tm \<noteq> c
             \<and> rotationCount (config_of (rotateSeatsOnce now c tm) tm)
                 = rotationCount (config_of c tm) + 1)"
    if "1 < ?k"
  proof -
    from that have g: "1 < getAssignedCount (config_of c tm)" by (simp add: count)
    have cnt: "rotationCount (config_of (rotateSeatsOnce now c tm) tm)
               = js_increment (rotationCount (config_of c tm))"
      using rotateSeatsOnce_runs(1) [OF g] .
    have safe: "rotateSeatsOnce now c tm \<noteq> c
             \<and> rotationCount (config_of (rotateSeatsOnce now c tm) tm)
                 = rotationCount (config_of c tm) + 1"
      if s: "isSafeInteger (rotationCount (config_of c tm))"
    proof -
      have "rotationCount (config_of (rotateSeatsOnce now c tm) tm)
            = rotationCount (config_of c tm) + 1"
        using cnt js_increment_safe [OF s] by simp
      then show ?thesis by auto
    qed
    show ?thesis
      using cnt safe rotateSeatsOnce_runs(2) [OF g] rotateSeatsOnce_runs(3) [OF g] by blast
  qed
  have example:
    "occupants (seats (weekend example_stale)) = [''ai'', ''aii'']
     \<and> map student_id (students example_stale) = [''bi'', ''bii'']
     \<and> getAssignedCount (weekend example_stale) = 2
     \<and> rotateSeatsOnce ''t3'' example_stale Weekend \<noteq> example_stale
     \<and> rotationCount (weekend example_stale) = 0
     \<and> rotationCount (weekend (rotateSeatsOnce ''t3'' example_stale Weekend)) = 1
     \<and> seats (weekend (rotateSeatsOnce ''t3'' example_stale Weekend))
         = Some ''bii'' # Some ''bi'' # replicate 34 None"
    by code_simp
  show ?thesis
    using count noop runs example by blast
qed

theorem rotation_guard_counts_stale_ids_witness:
  "1 < length (filter (\<lambda>s. s \<noteq> None \<and> s \<noteq> Some []) (seats (config_of example_stale Weekend)))
   \<and> isSafeInteger (rotationCount (config_of example_stale Weekend))
   \<and> filter (\<lambda>a. a \<in> set (map student_id (students example_stale)))
         (occupants (seats (config_of example_stale Weekend))) = []
   \<and> rotateSeatsOnce ''t3'' example_stale Weekend \<noteq> example_stale
   \<and> updatedAt (rotateSeatsOnce ''t3'' example_stale Weekend) = ''t3''
   \<and> rotationCount (config_of (rotateSeatsOnce ''t3'' example_stale Weekend) Weekend)
       = rotationCount (config_of example_stale Weekend) + 1
   \<and> set (occupants (seats (config_of (rotateSeatsOnce ''t3'' example_stale Weekend) Weekend)))
       \<subseteq> set (map student_id (students example_stale))
   \<and> length (filter (\<lambda>s. s \<noteq> None \<and> s \<noteq> Some []) (seats (config_of example_single Weekday))) \<le> 1
   \<and> rotateSeatsOnce ''t3'' example_single Weekday = example_single"
proof -
  have a: "1 < length (filter (\<lambda>s. s \<noteq> None \<and> s \<noteq> Some [])
                         (seats (config_of example_stale Weekend)))" by code_simp
  have b: "filter (\<lambda>a. a \<in> set (map student_id (students example_stale)))
             (occupants (seats (config_of example_stale Weekend))) = []" by code_simp
  have c: "isSafeInteger (rotationCount (config_of example_stale Weekend))" by code_simp
  have d: "length (filter (\<lambda>s. s \<noteq> None \<and> s \<noteq> Some [])
                     (seats (config_of example_single Weekday))) \<le> 1" by code_simp
  show ?thesis
    using rotation_guard_counts_stale_ids
      [where c = example_stale and tm = Weekend and now = "''t3''"]
      rotation_guard_counts_stale_ids
      [where c = example_single and tm = Weekday and now = "''t3''"]
      a b c d
    by blast
qed

text \<open>
  A seat entry that is the empty string is not null and is not counted. With the entries
  \<open>x\<close> and the empty string a config has two entries that are not null and a count of 1,
  so the rotation is a no-op: in \<open>example_blank_pair\<close>, where the two entries are ids of
  the roster, and in \<open>example_blank_stale\<close>, where the roster was replaced and neither
  is.
\<close>

theorem rotation_guard_skips_blank_ids:
  "normalizeClassroom ''t0'' (\<lambda>s. True)
     (JObj [(''id'', JStr ''c5''), (''name'', JStr ''Pair''),
            (''students'', JArr [JObj [(''id'', JStr ''x''), (''name'', JStr ''Xia'')],
                                 JObj [(''id'', JStr []), (''name'', JStr ''Zed'')]])])
     = Some example_blank_pair
   \<and> filter (\<lambda>s. s \<noteq> None) (seats (weekday example_blank_pair)) = [Some ''x'', Some []]
   \<and> getAssignedCount (weekday example_blank_pair) = 1
   \<and> rotateSeatsOnce ''t1'' example_blank_pair Weekday = example_blank_pair
   \<and> filter (\<lambda>s. s \<noteq> None) (seats (weekend example_blank_stale)) = [Some ''x'', Some []]
   \<and> map student_id (students example_blank_stale) = [''bi'', ''bii'']
   \<and> getAssignedCount (weekend example_blank_stale) = 1
   \<and> rotateSeatsOnce ''t2'' example_blank_stale Weekend = example_blank_stale"
  by code_simp

section \<open>Further properties of the engine\<close>

text \<open>
  The active-group policy: four groups use the slots 0, 1, 2 and 4; any other count \<open>n\<close>
  uses the slots \<open>0 .. n - 1\<close>.
\<close>

theorem active_group_policy:
  "getActiveGroupIndices 4 = [0, 1, 2, 4]
   \<and> getActiveGroupIndices 3 = [0, 1, 2]
   \<and> getActiveGroupIndices 5 = [0, 1, 2, 3, 4]
   \<and> getActiveGroupIndices 6 = [0, 1, 2, 3, 4, 5]
   \<and> (if gc = 4 then getActiveGroupIndices gc = [0, 1, 2, 4]
       else getActiveGroupIndices gc = [0..<nat gc])"
  by (simp add: getActiveGroupIndices_def upt_conv_Cons)

text \<open>
  A new classroom whose roster is replaced by Alice, Bob and Carol on the weekday config
  (default GROUPS layout) has three assigned seats: seats 0 to 2 hold the three new ids in
  the order of the names, seats 3 to 35 are empty, and the rotation count is 0.
\<close>

theorem replace_students_fills_front:
  "seats (weekday (replaceStudents (example_id ''s'') ''t1'' example_new
                     [''Alice'', ''Bob'', ''Carol''] Weekday))
     = Some ''si'' # Some ''sii'' # Some ''siii'' # replicate 33 None
   \<and> getAssignedCount (weekday (replaceStudents (example_id ''s'') ''t1'' example_new
                                  [''Alice'', ''Bob'', ''Carol''] Weekday)) = 3
   \<and> map student_name (students (replaceStudents (example_id ''s'') ''t1'' example_new
                                    [''Alice'', ''Bob'', ''Carol''] Weekday))
       = [''Alice'', ''Bob'', ''Carol'']
   \<and> rotationCount (weekday (replaceStudents (example_id ''s'') ''t1'' example_new
                                 [''Alice'', ''Bob'', ''Carol''] Weekday)) = 0"
  by code_simp

text \<open>
  Rotating a GROUPS config with exactly two occupants in one active group twice brings
  the group back to its original order; the rotation count is then 2.
\<close>

theorem group_rotation_cycle_of_two:
  "seats (weekend example_weekend) = Some ''ai'' # Some ''aii'' # replicate 34 None
   \<and> seats (weekend (rotateSeatsOnce ''t2'' example_weekend Weekend))
       = Some ''aii'' # Some ''ai'' # replicate 34 None
   \<and> seats (weekend (rotateSeatsOnce ''t3'' (rotateSeatsOnce ''t2'' example_weekend Weekend)
                        Weekend))
       = seats (weekend example_weekend)
   \<and> rotationCount (weekend (rotateSeatsOnce ''t3''
                                (rotateSeatsOnce ''t2'' example_weekend Weekend) Weekend)) = 2"
  by code_simp

text \<open>
  The layout reconciler always gives a well-formed config: rows, columns and the number
  of seats are those of the geometry calculator for the new layout and the roster size,
  no id is in two seats, and every seated id is an id of the roster.
\<close>

theorem withLayout_well_formed: "wellFormedConfig studs (withLayout config lm studs)"
  by (rule wellFormed_withLayout)

end
